theory Spec2Isabelle
  imports Main
begin

section \<open>Errors\<close>

text \<open>
  Every exception the modelled code can raise is a value. \<open>ValueError\<close> carries the
  message of the source, since the pipeline tells its failures apart by message only.
\<close>

datatype error =
    ValueError string
  | IndexError
  | TypeError
  | IntegrityError
  | StaleDataError
  | ExternalError

section \<open>Text (Python's \<open>str\<close>)\<close>

text \<open>
  A text is a \<open>string\<close>: a list of characters of codes 0 to 255, each standing for the
  Unicode code point of that number. The texts of the model are Python's texts over these
  256 code points, and the classes of characters and the case mappings below are the ones
  Python has on them.
\<close>

definition codigo :: "char \<Rightarrow> int" where
  "codigo c = of_char c"

text \<open>
  \<open>str.isspace\<close>, the characters \<open>str.strip()\<close> and \<open>str.split()\<close> take for space, and
  the class \<open>\s\<close>: tab to carriage return, the four separators 28 to 31, the space, the
  control NEL (133) and the no-break space (160).
\<close>

definition is_space :: "char \<Rightarrow> bool" where
  "is_space c =
     (let n = codigo c in (9 \<le> n \<and> n \<le> 13) \<or> (28 \<le> n \<and> n \<le> 32) \<or> n = 133 \<or> n = 160)"

text \<open>The class \<open>\d\<close>, the decimal digits: below 256 they are \<open>0\<close> to \<open>9\<close>.\<close>

definition is_digit :: "char \<Rightarrow> bool" where
  "is_digit c = (let n = codigo c in 48 \<le> n \<and> n \<le> 57)"

text \<open>
  The characters \<open>str.isdigit\<close> takes: the decimal digits and the superscripts two, three
  and one (178, 179, 185).
\<close>

definition is_digit_str :: "char \<Rightarrow> bool" where
  "is_digit_str c = (let n = codigo c in (48 \<le> n \<and> n \<le> 57) \<or> n = 178 \<or> n = 179 \<or> n = 185)"

text \<open>
  The letters that have a lower case, and the letters that have an upper case below 256.
  The micro sign (181) and the y with diaeresis (255) have their upper case above 255,
  and the sharp s (223) has none of one character; the three are in neither class.
\<close>

definition is_upper :: "char \<Rightarrow> bool" where
  "is_upper c = (let n = codigo c in (65 \<le> n \<and> n \<le> 90) \<or> (192 \<le> n \<and> n \<le> 222 \<and> n \<noteq> 215))"

definition is_lower :: "char \<Rightarrow> bool" where
  "is_lower c = (let n = codigo c in (97 \<le> n \<and> n \<le> 122) \<or> (224 \<le> n \<and> n \<le> 254 \<and> n \<noteq> 247))"

text \<open>The class \<open>\w\<close>: the underscore and the characters \<open>str.isalnum\<close> takes.\<close>

definition is_word :: "char \<Rightarrow> bool" where
  "is_word c =
     (let n = codigo c in
        (48 \<le> n \<and> n \<le> 57) \<or> (65 \<le> n \<and> n \<le> 90) \<or> n = 95 \<or> (97 \<le> n \<and> n \<le> 122) \<or>
        n = 170 \<or> n = 178 \<or> n = 179 \<or> n = 181 \<or> n = 185 \<or> n = 186 \<or>
        (188 \<le> n \<and> n \<le> 190) \<or> (192 \<le> n \<and> n \<le> 214) \<or> (216 \<le> n \<and> n \<le> 246) \<or>
        (248 \<le> n \<and> n \<le> 255))"

text \<open>
  The case of one character, as the matcher of \<open>re\<close> maps it under \<open>re.I\<close>. The micro sign
  and the y with diaeresis stay in \<open>upper_char\<close>: their upper case is no character of the
  model, and it is a word character, no digit and no space, as they are.
\<close>

definition lower_char :: "char \<Rightarrow> char" where
  "lower_char c = (if is_upper c then char_of (codigo c + 32) else c)"

definition upper_char :: "char \<Rightarrow> char" where
  "upper_char c = (if is_lower c then char_of (codigo c - 32) else c)"

text \<open>\<open>str.lower()\<close>.\<close>

definition lower :: "string \<Rightarrow> string" where
  "lower s = map lower_char s"

text \<open>
  \<open>str.upper()\<close>, as the list of the code points of the result, which may leave the 256:
  the sharp s becomes \<open>SS\<close>, the micro sign the capital mu (924) and the y with diaeresis
  its capital (376). \<open>puntos\<close> gives the code points of a text, to compare the result with.
\<close>

definition upper_puntos :: "char \<Rightarrow> int list" where
  "upper_puntos c =
     (let n = codigo c in
      if n = 223 then [83, 83] else if n = 181 then [924] else if n = 255 then [376]
      else [codigo (upper_char c)])"

definition upper :: "string \<Rightarrow> int list" where
  "upper s = concat (map upper_puntos s)"

definition puntos :: "string \<Rightarrow> int list" where
  "puntos s = map codigo s"

text \<open>\<open>str.strip()\<close> and \<open>str.strip(chars)\<close>.\<close>

definition strip_chars :: "(char \<Rightarrow> bool) \<Rightarrow> string \<Rightarrow> string" where
  "strip_chars P s = rev (dropWhile P (rev (dropWhile P s)))"

definition strip :: "string \<Rightarrow> string" where
  "strip s = strip_chars is_space s"

text \<open>
  \<open>str.splitlines()\<close>: a line ends at a line feed, a carriage return (with the line feed
  that follows it, if any), a vertical tab, a form feed, one of the separators 28 to 30
  or the control NEL (133). The flag says that the last character was a carriage return;
  \<open>cur\<close> is the line read so far.
\<close>

definition is_linebreak :: "char \<Rightarrow> bool" where
  "is_linebreak c = (let n = codigo c in (10 \<le> n \<and> n \<le> 13) \<or> (28 \<le> n \<and> n \<le> 30) \<or> n = 133)"

fun splitlines_aux :: "bool \<Rightarrow> string \<Rightarrow> string \<Rightarrow> string list" where
  "splitlines_aux cr cur [] = (if cur = [] then [] else [cur])"
| "splitlines_aux cr cur (c # s) =
     (if cr \<and> c = CHR 0x0A then splitlines_aux False cur s
      else if is_linebreak c then cur # splitlines_aux (c = CHR 0x0D) [] s
      else splitlines_aux False (cur @ [c]) s)"

definition splitlines :: "string \<Rightarrow> string list" where
  "splitlines s = splitlines_aux False [] s"

text \<open>\<open>sep.join(xs)\<close>.\<close>

fun join :: "string \<Rightarrow> string list \<Rightarrow> string" where
  "join sep [] = []"
| "join sep [x] = x"
| "join sep (x # y # ys) = x @ sep @ join sep (y # ys)"

text \<open>\<open>str.split()\<close>: the maximal runs of characters that are no spaces.\<close>

fun split_ws_aux :: "string \<Rightarrow> string \<Rightarrow> string list" where
  "split_ws_aux cur [] = (if cur = [] then [] else [cur])"
| "split_ws_aux cur (c # s) =
     (if is_space c then (if cur = [] then split_ws_aux [] s else cur # split_ws_aux [] s)
      else split_ws_aux (cur @ [c]) s)"

definition split_ws :: "string \<Rightarrow> string list" where
  "split_ws s = split_ws_aux [] s"

text \<open>\<open>str.split(sep)\<close> for a separator of one character: never empty.\<close>

fun split_char_aux :: "char \<Rightarrow> string \<Rightarrow> string \<Rightarrow> string list" where
  "split_char_aux sep cur [] = [cur]"
| "split_char_aux sep cur (c # s) =
     (if c = sep then cur # split_char_aux sep [] s else split_char_aux sep (cur @ [c]) s)"

definition split_char :: "char \<Rightarrow> string \<Rightarrow> string list" where
  "split_char sep s = split_char_aux sep [] s"

text \<open>\<open>str.split(sep, 1)\<close>: the text before the first separator, and the text after it if there is one.\<close>

definition split_char_1 :: "char \<Rightarrow> string \<Rightarrow> string list" where
  "split_char_1 sep s =
     (case dropWhile (\<lambda>c. c \<noteq> sep) s of
        [] \<Rightarrow> [s]
      | _ # rest \<Rightarrow> [takeWhile (\<lambda>c. c \<noteq> sep) s, rest])"

text \<open>\<open>xs[i]\<close> for \<open>i = 0\<close>, \<open>i = 1\<close> and \<open>i = -1\<close>; out of range is \<open>IndexError\<close>.\<close>

definition item0 :: "'a list \<Rightarrow> error + 'a" where
  "item0 xs = (case xs of [] \<Rightarrow> Inl IndexError | x # _ \<Rightarrow> Inr x)"

definition item1 :: "'a list \<Rightarrow> error + 'a" where
  "item1 xs = (case xs of x # y # _ \<Rightarrow> Inr y | _ \<Rightarrow> Inl IndexError)"

definition item_last :: "'a list \<Rightarrow> error + 'a" where
  "item_last xs = (if xs = [] then Inl IndexError else Inr (last xs))"

text \<open>\<open>str.startswith\<close> and the substring test \<open>x in s\<close>.\<close>

fun startswith :: "'a list \<Rightarrow> 'a list \<Rightarrow> bool" where
  "startswith s [] = True"
| "startswith [] (p # ps) = False"
| "startswith (c # s) (p # ps) = (c = p \<and> startswith s ps)"

fun contains :: "'a list \<Rightarrow> 'a list \<Rightarrow> bool" where
  "contains [] x = (x = [])"
| "contains (c # s) x = (startswith (c # s) x \<or> contains s x)"

text \<open>\<open>str.isdigit\<close>.\<close>

definition isdigit :: "string \<Rightarrow> bool" where
  "isdigit s = (s \<noteq> [] \<and> list_all is_digit_str s)"

text \<open>The number a text of decimal digits writes, and the decimal writing of a number.\<close>

definition int_of_digits :: "string \<Rightarrow> int" where
  "int_of_digits s = foldl (\<lambda>n c. 10 * n + (codigo c - 48)) 0 s"

function decimal :: "int \<Rightarrow> string" where
  "decimal n = (if n < 10 then [char_of (48 + n)] else decimal (n div 10) @ [char_of (48 + n mod 10)])"
  by pat_completeness auto
termination
  by (relation "measure nat") auto

text \<open>
  \<open>int(s)\<close> for a text \<open>s\<close> for which \<open>str.isdigit\<close> holds, the only texts the source
  gives it. It reads the decimal digits at the start of the text. When there are more
  than 4300 of them (the limit \<open>sys.get_int_max_str_digits()\<close> has by default) it raises
  \<open>ValueError\<close> with the message of the limit; when they are not the whole text (a
  superscript follows) it raises \<open>ValueError\<close> with the message of the invalid literal,
  which shows the first 200 characters of the text in quotes.
\<close>

definition int_max_str_digits :: int where
  "int_max_str_digits = 4300"

definition msg_int_limite :: "int \<Rightarrow> string" where
  "msg_int_limite n =
     ''Exceeds the limit (4300 digits) for integer string conversion: value has '' @ decimal n @
     '' digits; use sys.set_int_max_str_digits() to increase the limit''"

definition msg_int_literal :: "string \<Rightarrow> string" where
  "msg_int_literal s =
     ''invalid literal for int() with base 10: '' @ take 200 ([CHR 0x27] @ s @ [CHR 0x27])"

definition int_str :: "string \<Rightarrow> error + int" where
  "int_str s =
     (let n = int (length (takeWhile is_digit s)) in
      if n > int_max_str_digits then Inl (ValueError (msg_int_limite n))
      else if n < int (length s) \<or> s = [] then Inl (ValueError (msg_int_literal s))
      else Inr (int_of_digits s))"

text \<open>Truth value of an optional integer and of an optional string, as Python's \<open>if x\<close>.\<close>

fun truthy_int :: "int option \<Rightarrow> bool" where
  "truthy_int None = False"
| "truthy_int (Some n) = (n \<noteq> 0)"

fun truthy_str :: "string option \<Rightarrow> bool" where
  "truthy_str None = False"
| "truthy_str (Some s) = (s \<noteq> [])"

text \<open>\<open>str.replace\<close> of one character by another.\<close>

definition replace_char :: "char \<Rightarrow> char \<Rightarrow> string \<Rightarrow> string" where
  "replace_char a b s = map (\<lambda>c. if c = a then b else c) s"

section \<open>Regular expressions (Python's \<open>re\<close>)\<close>

text \<open>
  The patterns of the source, as syntax trees, and a backtracking matcher that returns
  the ways a pattern matches at a position in the order Python tries them: an earlier
  alternative first, a longer repetition first. Every repetition in the source is over a
  single character class, so \<open>Star\<close> and \<open>Plus\<close> take a class.
\<close>

datatype citem = Ch char | Rng char char | Dig | Spc | Wrd

datatype atom = One "citem list" | Non "citem list" | Dot

datatype rx =
    Eps
  | A atom
  | Star atom
  | Plus atom
  | Seq rx rx
  | Alt rx rx
  | Opt rx
  | Grp rx
  | Bnd

record flags =
  ignorecase :: bool
  dotall :: bool

definition sin_flags :: flags where
  "sin_flags = \<lparr>ignorecase = False, dotall = False\<rparr>"

definition flag_I :: flags where
  "flag_I = \<lparr>ignorecase = True, dotall = False\<rparr>"

definition flag_S :: flags where
  "flag_S = \<lparr>ignorecase = False, dotall = True\<rparr>"

fun citem_has :: "citem \<Rightarrow> char \<Rightarrow> bool" where
  "citem_has (Ch x) c = (c = x)"
| "citem_has (Rng a b) c = (codigo a \<le> codigo c \<and> codigo c \<le> codigo b)"
| "citem_has Dig c = is_digit c"
| "citem_has Spc c = is_space c"
| "citem_has Wrd c = is_word c"

text \<open>Under \<open>re.I\<close> a character is in a class when it, its lower case or its upper case is.\<close>

definition in_class :: "flags \<Rightarrow> citem list \<Rightarrow> char \<Rightarrow> bool" where
  "in_class fl items c =
     list_ex (\<lambda>i. citem_has i c \<or>
                 (ignorecase fl \<and> (citem_has i (lower_char c) \<or> citem_has i (upper_char c)))) items"

fun atom_ok :: "flags \<Rightarrow> atom \<Rightarrow> char \<Rightarrow> bool" where
  "atom_ok fl (One items) c = in_class fl items c"
| "atom_ok fl (Non items) c = (\<not> in_class fl items c)"
| "atom_ok fl Dot c = (dotall fl \<or> c \<noteq> CHR 0x0A)"

text \<open>
  A position of the matcher: the character before it (for \<open>\b\<close>), the text that is left,
  and the groups closed so far.
\<close>

type_synonym pos = "char option \<times> string \<times> string list"

fun star_run :: "flags \<Rightarrow> atom \<Rightarrow> string list \<Rightarrow> char option \<Rightarrow> string \<Rightarrow> pos list" where
  "star_run fl a g p [] = [(p, [], g)]"
| "star_run fl a g p (c # s) =
     (if atom_ok fl a c then star_run fl a g (Some c) s else []) @ [(p, c # s, g)]"

definition word_before :: "char option \<Rightarrow> bool" where
  "word_before p = (case p of None \<Rightarrow> False | Some c \<Rightarrow> is_word c)"

definition word_after :: "string \<Rightarrow> bool" where
  "word_after s = (case s of [] \<Rightarrow> False | c # _ \<Rightarrow> is_word c)"

fun rx_run :: "flags \<Rightarrow> rx \<Rightarrow> pos \<Rightarrow> pos list" where
  "rx_run fl Eps st = [st]"
| "rx_run fl (A a) (p, s, g) =
     (case s of [] \<Rightarrow> [] | c # s' \<Rightarrow> if atom_ok fl a c then [(Some c, s', g)] else [])"
| "rx_run fl (Star a) (p, s, g) = star_run fl a g p s"
| "rx_run fl (Plus a) (p, s, g) =
     (case s of [] \<Rightarrow> [] | c # s' \<Rightarrow> if atom_ok fl a c then star_run fl a g (Some c) s' else [])"
| "rx_run fl (Seq r1 r2) st = concat (map (rx_run fl r2) (rx_run fl r1 st))"
| "rx_run fl (Alt r1 r2) st = rx_run fl r1 st @ rx_run fl r2 st"
| "rx_run fl (Opt r) st = rx_run fl r st @ [st]"
| "rx_run fl (Grp r) (p, s, g) =
     map (\<lambda>(p', s', g'). (p', s', g' @ [take (length s - length s') s])) (rx_run fl r (p, s, g))"
| "rx_run fl Bnd (p, s, g) = (if word_before p \<noteq> word_after s then [(p, s, g)] else [])"

text \<open>Shorthands to write the patterns: a literal text, a sequence, a choice, a class.\<close>

definition lit :: "string \<Rightarrow> rx" where
  "lit s = foldr (\<lambda>c r. Seq (A (One [Ch c])) r) s Eps"

definition seqs :: "rx list \<Rightarrow> rx" where
  "seqs rs = foldr Seq rs Eps"

fun alts :: "rx list \<Rightarrow> rx" where
  "alts [] = Eps"
| "alts [r] = r"
| "alts (r # rs) = Alt r (alts rs)"

fun rep :: "nat \<Rightarrow> rx \<Rightarrow> rx" where
  "rep 0 r = Eps"
| "rep (Suc n) r = Seq r (rep n r)"

text \<open>
  A match object: the text from the start of the match, the text after its end, and the
  groups. \<open>group0\<close> is the text matched.
\<close>

record rmatch =
  m_desde :: string
  m_resto :: string
  m_grupos :: "string list"

definition group0 :: "rmatch \<Rightarrow> string" where
  "group0 m = take (length (m_desde m) - length (m_resto m)) (m_desde m)"

definition group1 :: "rmatch \<Rightarrow> string" where
  "group1 m = (case m_grupos m of [] \<Rightarrow> [] | x # _ \<Rightarrow> x)"

text \<open>\<open>re.match\<close>: the first way the pattern matches at the start of the text.\<close>

definition re_match_at :: "flags \<Rightarrow> rx \<Rightarrow> char option \<Rightarrow> string \<Rightarrow> rmatch option" where
  "re_match_at fl r p s =
     (case rx_run fl r (p, s, []) of
        [] \<Rightarrow> None
      | (p', s', g) # _ \<Rightarrow> Some \<lparr>m_desde = s, m_resto = s', m_grupos = g\<rparr>)"

definition re_match :: "flags \<Rightarrow> rx \<Rightarrow> string \<Rightarrow> rmatch option" where
  "re_match fl r s = re_match_at fl r None s"

text \<open>\<open>re.search\<close>: the match at the leftmost position that has one.\<close>

fun re_search_at :: "flags \<Rightarrow> rx \<Rightarrow> char option \<Rightarrow> string \<Rightarrow> rmatch option" where
  "re_search_at fl r p [] = re_match_at fl r p []"
| "re_search_at fl r p (c # s) =
     (case re_match_at fl r p (c # s) of
        Some m \<Rightarrow> Some m
      | None \<Rightarrow> re_search_at fl r (Some c) s)"

definition re_search :: "flags \<Rightarrow> rx \<Rightarrow> string \<Rightarrow> rmatch option" where
  "re_search fl r s = re_search_at fl r None s"

text \<open>\<open>re.fullmatch\<close>: the first way the pattern matches the whole text.\<close>

definition re_fullmatch :: "flags \<Rightarrow> rx \<Rightarrow> string \<Rightarrow> bool" where
  "re_fullmatch fl r s = list_ex (\<lambda>(p', s', g). s' = []) (rx_run fl r (None, s, []))"

text \<open>
  \<open>re.findall\<close> for a pattern without groups: the texts matched, left to right, without
  overlap. \<open>skip\<close> counts the characters of the last match still to pass.
\<close>

fun re_findall_at :: "flags \<Rightarrow> rx \<Rightarrow> nat \<Rightarrow> char option \<Rightarrow> string \<Rightarrow> string list" where
  "re_findall_at fl r skip p [] =
     (if skip = 0 \<and> re_match_at fl r p [] \<noteq> None then [[]] else [])"
| "re_findall_at fl r skip p (c # s) =
     (if skip > 0 then re_findall_at fl r (skip - 1) (Some c) s
      else case re_match_at fl r p (c # s) of
             None \<Rightarrow> re_findall_at fl r 0 (Some c) s
           | Some m \<Rightarrow> group0 m # re_findall_at fl r (length (group0 m) - 1) (Some c) s)"

definition re_findall :: "flags \<Rightarrow> rx \<Rightarrow> string \<Rightarrow> string list" where
  "re_findall fl r s = re_findall_at fl r 0 None s"

text \<open>\<open>re.sub(pattern, "", s)\<close> for a pattern of one character class: the characters it matches go.\<close>

definition re_sub_vacio :: "flags \<Rightarrow> atom \<Rightarrow> string \<Rightarrow> string" where
  "re_sub_vacio fl a s = filter (\<lambda>c. \<not> atom_ok fl a c) s"

section \<open>The text normalizer and the extractors (email_utils.py)\<close>

subsection \<open>detectar_carrier_por_remitente\<close>

text \<open>\<open>carrier_map\<close>: the pattern \<open>.*telxius.*\<close> names the carrier TELXIUS.\<close>

definition carrier_map :: "(rx \<times> string) list" where
  "carrier_map = [(seqs [Star Dot, lit ''telxius'', Star Dot], ''TELXIUS'')]"

fun buscar_en_mapa :: "(rx \<times> string) list \<Rightarrow> string \<Rightarrow> string option" where
  "buscar_en_mapa [] rem = None"
| "buscar_en_mapa ((patron, nombre) # resto) rem =
     (if re_search sin_flags patron rem \<noteq> None then Some nombre else buscar_en_mapa resto rem)"

definition detectar_carrier_por_remitente :: "string \<Rightarrow> string option" where
  "detectar_carrier_por_remitente remitente = buscar_en_mapa carrier_map (lower remitente)"

subsection \<open>_limpiar_correo\<close>

text \<open>
  The pattern of line 69:
  \<open>disclaimer|confidencial|aviso legal|confidentiality notice|correo(?:\s+electronico)?\s*(?:es\s+)?privado\<close>.
\<close>

definition patron_aviso :: rx where
  "patron_aviso =
     alts [lit ''disclaimer'', lit ''confidencial'', lit ''aviso legal'',
           lit ''confidentiality notice'',
           seqs [lit ''correo'', Opt (seqs [Plus (One [Spc]), lit ''electronico'']),
                 Star (One [Spc]), Opt (seqs [lit ''es'', Plus (One [Spc])]), lit ''privado'']]"

definition es_aviso :: "string \<Rightarrow> bool" where
  "es_aviso l = (re_search flag_I patron_aviso l \<noteq> None)"

text \<open>The loop of lines 64-75: a blank line is skipped, the first notice line ends the loop.\<close>

fun limpiar_lineas :: "string list \<Rightarrow> string list" where
  "limpiar_lineas [] = []"
| "limpiar_lineas (linea # resto) =
     (let l = strip linea in
      if l = [] then limpiar_lineas resto
      else if es_aviso l then []
      else l # limpiar_lineas resto)"

definition limpiar_correo :: "string \<Rightarrow> string" where
  "limpiar_correo texto = join [CHR 0x0A] (limpiar_lineas (splitlines texto))"

subsection \<open>_extraer_por_regex\<close>

text \<open>The record both extractors produce: the keys inicio, fin, tipo, afectacion, descripcion, ids.\<close>

record datos =
  d_inicio :: string
  d_fin :: string
  d_tipo :: string
  d_afectacion :: "string option"
  d_descripcion :: "string option"
  d_ids :: "string list"

definition sep_campo :: atom where
  "sep_campo = One [Ch CHR '':'', Spc, Ch CHR ''-'']"

definition no_salto :: atom where
  "no_salto = Non [Ch CHR 0x0A, Ch CHR 0x0D]"

text \<open>\<open>inicio[:\s-]+([^\n\r]+)\<close>, \<open>fin[:\s-]+([^\n\r]+)\<close> and
  \<open>servicios?(?:\s+afectados)?[:\s-]+([A-Z0-9,\- ]+)\<close>, all under \<open>re.I\<close>.\<close>

definition patron_inicio :: rx where
  "patron_inicio = seqs [lit ''inicio'', Plus sep_campo, Grp (Plus no_salto)]"

definition patron_fin :: rx where
  "patron_fin = seqs [lit ''fin'', Plus sep_campo, Grp (Plus no_salto)]"

definition patron_servicios :: rx where
  "patron_servicios =
     seqs [lit ''servicio'', Opt (lit ''s''), Opt (seqs [Plus (One [Spc]), lit ''afectados'']),
           Plus sep_campo,
           Grp (Plus (One [Rng CHR ''A'' CHR ''Z'', Rng CHR ''0'' CHR ''9'', Ch CHR '','',
                           Ch CHR ''-'', Ch CHR '' '']))]"

definition partir_ids :: "string \<Rightarrow> string list" where
  "partir_ids g = filter (\<lambda>i. i \<noteq> []) (map strip (split_char CHR '','' g))"

definition extraer_por_regex :: "string \<Rightarrow> datos option" where
  "extraer_por_regex texto =
     (case (re_search flag_I patron_inicio texto, re_search flag_I patron_fin texto,
            re_search flag_I patron_servicios texto) of
        (Some inicio_m, Some fin_m, Some ids_m) \<Rightarrow>
          Some \<lparr>d_inicio = strip (group1 inicio_m), d_fin = strip (group1 fin_m),
                d_tipo = ''Mantenimiento'', d_afectacion = None, d_descripcion = None,
                d_ids = partir_ids (group1 ids_m)\<rparr>
      | _ \<Rightarrow> None)"

subsection \<open>_detectar_datos_correo\<close>

record detectados =
  det_carrier :: "string option"
  det_id_interno :: "string option"
  det_ids :: "string list"
  det_tipo :: string

definition no_lf :: atom where
  "no_lf = Non [Ch CHR 0x0A]"

definition patron_from :: rx where
  "patron_from = seqs [lit ''From:'', Star (One [Spc]), Grp (Plus no_lf)]"

definition patron_name :: rx where
  "patron_name = seqs [lit ''Name:'', Star (One [Spc]), Grp (Plus no_lf)]"

definition patron_metrotel :: rx where
  "patron_metrotel =
     seqs [Grp (Plus (Non [Ch CHR ''-''])), lit ''-'', Star (One [Spc]), lit ''METROTEL'']"

definition patron_swx :: rx where
  "patron_swx = seqs [lit ''SWX'', rep 7 (A (One [Dig]))]"

definition patron_crt :: rx where
  "patron_crt = seqs [lit ''CRT-'', rep 6 (A (One [Dig]))]"

definition patron_id :: rx where
  "patron_id = seqs [lit ''ID'', Plus (One [Wrd])]"

definition patron_numero :: rx where
  "patron_numero = seqs [Bnd, Plus (One [Dig]), Bnd]"

text \<open>Lines 709-715: the subject is the first line, without its \<open>Subject:\<close> label.\<close>

definition asunto_de :: "string \<Rightarrow> error + string" where
  "asunto_de texto =
     (case splitlines texto of
        [] \<Rightarrow> Inr []
      | l0 # _ \<Rightarrow>
          if startswith (lower l0) ''subject:''
          then (case item1 (split_char_1 CHR '':'' l0) of
                  Inl e \<Rightarrow> Inl e
                | Inr x \<Rightarrow> Inr (strip x))
          else Inr (strip l0))"

text \<open>Lines 717-727: the carrier named by the sender.\<close>

definition carrier_de_remitente :: "string \<Rightarrow> error + string option" where
  "carrier_de_remitente texto =
     (case (case re_search flag_I patron_from texto of
              Some m \<Rightarrow> Some m
            | None \<Rightarrow> re_search flag_I patron_name texto) of
        None \<Rightarrow> Inr None
      | Some m \<Rightarrow>
          (case item_last (split_ws (strip (group1 m))) of
             Inl e \<Rightarrow> Inl e
           | Inr ultimo \<Rightarrow>
               (let correo = strip_chars (\<lambda>c. c = CHR ''<'' \<or> c = CHR ''>'') ultimo in
                case detectar_carrier_por_remitente correo of
                  Some carrier_rem \<Rightarrow> Inr (Some carrier_rem)
                | None \<Rightarrow>
                    if contains correo ''@''
                    then (case item0 (split_char CHR ''@'' correo) of
                            Inl e \<Rightarrow> Inl e
                          | Inr antes \<Rightarrow>
                              (case item0 (split_ws antes) of
                                 Inl e \<Rightarrow> Inl e
                               | Inr x \<Rightarrow> Inr (Some x)))
                    else Inr None)))"

text \<open>Lines 729-732: else the carrier named before \<open>- METROTEL\<close> in the subject.\<close>

definition carrier_de_asunto :: "string \<Rightarrow> error + string option" where
  "carrier_de_asunto asunto =
     (case re_match flag_I patron_metrotel asunto of
        None \<Rightarrow> Inr None
      | Some m \<Rightarrow>
          (case item0 (split_ws (strip (group1 m))) of
             Inl e \<Rightarrow> Inl e
           | Inr x \<Rightarrow> Inr (Some x)))"

definition detectar_datos_correo :: "string \<Rightarrow> error + detectados" where
  "detectar_datos_correo texto =
     (case asunto_de texto of
        Inl e \<Rightarrow> Inl e
      | Inr asunto \<Rightarrow>
     (case carrier_de_remitente texto of
        Inl e \<Rightarrow> Inl e
      | Inr c1 \<Rightarrow>
     (case (if \<not> truthy_str c1 \<and> asunto \<noteq> []
            then (case carrier_de_asunto asunto of
                    Inl e \<Rightarrow> Inl e
                  | Inr None \<Rightarrow> Inr c1
                  | Inr (Some x) \<Rightarrow> Inr (Some x))
            else Inr c1) of
        Inl e \<Rightarrow> Inl e
      | Inr c2 \<Rightarrow>
          (let carrier_norm = upper (case c2 of None \<Rightarrow> [] | Some x \<Rightarrow> x);
               id_pat = (if carrier_norm = puntos ''TELXIUS'' then patron_swx else patron_id);
               srv_pat = (if carrier_norm = puntos ''TELXIUS'' then patron_crt else patron_numero)
           in Inr \<lparr>det_carrier = c2,
                   det_id_interno = map_option group0 (re_search sin_flags id_pat texto),
                   det_ids = re_findall sin_flags srv_pat texto,
                   det_tipo = (if contains (upper asunto) (puntos ''EMERGENCY'')
                               then ''Emergencia'' else ''Programada'')\<rparr>))))"

section \<open>Dates\<close>

text \<open>
  A \<open>datetime\<close> of Python: the civil fields, and the offset from UTC in microseconds
  when the value is timezone-aware (\<open>None\<close> for a naive value).
\<close>

record datetime =
  dt_year :: int
  dt_month :: int
  dt_day :: int
  dt_hour :: int
  dt_minute :: int
  dt_second :: int
  dt_microsecond :: int
  dt_utcoffset :: "int option"

definition is_leap :: "int \<Rightarrow> bool" where
  "is_leap y = (y mod 4 = 0 \<and> (y mod 400 = 0 \<or> y mod 100 \<noteq> 0))"

definition days_in_month :: "int \<Rightarrow> int \<Rightarrow> int" where
  "days_in_month y m =
     (if m = 2 then (if is_leap y then 29 else 28)
      else if m = 4 \<or> m = 6 \<or> m = 9 \<or> m = 11 then 30 else 31)"

text \<open>The checks of the \<open>datetime\<close> constructor; it raises \<open>ValueError\<close> when one fails.\<close>

definition fecha_valida :: "datetime \<Rightarrow> bool" where
  "fecha_valida d =
     (1 \<le> dt_year d \<and> dt_year d \<le> 9999 \<and> 1 \<le> dt_month d \<and> dt_month d \<le> 12 \<and>
      1 \<le> dt_day d \<and> dt_day d \<le> days_in_month (dt_year d) (dt_month d) \<and>
      0 \<le> dt_hour d \<and> dt_hour d \<le> 23 \<and> 0 \<le> dt_minute d \<and> dt_minute d \<le> 59 \<and>
      0 \<le> dt_second d \<and> dt_second d \<le> 59 \<and>
      0 \<le> dt_microsecond d \<and> dt_microsecond d \<le> 999999)"

text \<open>
  Comparison. Two naive values compare by their fields, two aware values by their
  instants; a naive value against an aware one raises \<open>TypeError\<close>.
\<close>

fun lex_less :: "int list \<Rightarrow> int list \<Rightarrow> bool" where
  "lex_less [] ys = (ys \<noteq> [])"
| "lex_less (x # xs) [] = False"
| "lex_less (x # xs) (y # ys) = (x < y \<or> (x = y \<and> lex_less xs ys))"

definition dt_campos :: "datetime \<Rightarrow> int list" where
  "dt_campos d = [dt_year d, dt_month d, dt_day d, dt_hour d, dt_minute d, dt_second d,
                  dt_microsecond d]"

definition days_before_year :: "int \<Rightarrow> int" where
  "days_before_year y =
     (let z = y - 1 in z * 365 + z div 4 - z div 100 + z div 400)"

definition days_before_month :: "int \<Rightarrow> int \<Rightarrow> int" where
  "days_before_month y m = sum_list (map (days_in_month y) [1..m - 1])"

definition dt_micros :: "datetime \<Rightarrow> int" where
  "dt_micros d =
     ((((days_before_year (dt_year d) + days_before_month (dt_year d) (dt_month d)
         + dt_day d) * 24 + dt_hour d) * 60 + dt_minute d) * 60
       + dt_second d) * 1000000 + dt_microsecond d"

definition dt_ge :: "datetime \<Rightarrow> datetime \<Rightarrow> error + bool" where
  "dt_ge a b =
     (case (dt_utcoffset a, dt_utcoffset b) of
        (None, None) \<Rightarrow> Inr (\<not> lex_less (dt_campos a) (dt_campos b))
      | (Some oa, Some ob) \<Rightarrow> Inr (dt_micros b - ob \<le> dt_micros a - oa)
      | _ \<Rightarrow> Inl TypeError)"

subsection \<open>datetime.strptime\<close>

text \<open>
  \<open>strptime\<close> turns the format into a pattern: a directive becomes a group, a run of
  spaces becomes \<open>\s+\<close>, any other character stands for itself. The pattern must match
  at the start of the text and use all of it. The directives the source uses:
  \<open>%Y  \d\d\d\d\<close>,
  \<open>%m  1[0-2]|0[1-9]|[1-9]\<close>,
  \<open>%d  3[0-1]|[1-2]\d|0[1-9]|[1-9]| [1-9]\<close>,
  \<open>%H  2[0-3]|[0-1]\d|\d\<close>,
  \<open>%M  [0-5]\d|\d\<close>,
  \<open>%S  6[0-1]|[0-5]\d|\d\<close>.
\<close>

definition dig :: rx where
  "dig = A (One [Dig])"

definition entre :: "char \<Rightarrow> char \<Rightarrow> rx" where
  "entre a b = A (One [Rng a b])"

definition directiva :: "char \<Rightarrow> rx option" where
  "directiva c =
     (if c = CHR ''Y'' then Some (seqs [dig, dig, dig, dig])
      else if c = CHR ''m'' then
        Some (alts [seqs [lit ''1'', entre CHR ''0'' CHR ''2''],
                    seqs [lit ''0'', entre CHR ''1'' CHR ''9''],
                    entre CHR ''1'' CHR ''9''])
      else if c = CHR ''d'' then
        Some (alts [seqs [lit ''3'', entre CHR ''0'' CHR ''1''],
                    seqs [entre CHR ''1'' CHR ''2'', dig],
                    seqs [lit ''0'', entre CHR ''1'' CHR ''9''],
                    entre CHR ''1'' CHR ''9'',
                    seqs [lit '' '', entre CHR ''1'' CHR ''9'']])
      else if c = CHR ''H'' then
        Some (alts [seqs [lit ''2'', entre CHR ''0'' CHR ''3''],
                    seqs [entre CHR ''0'' CHR ''1'', dig],
                    dig])
      else if c = CHR ''M'' then
        Some (alts [seqs [entre CHR ''0'' CHR ''5'', dig], dig])
      else if c = CHR ''S'' then
        Some (alts [seqs [lit ''6'', entre CHR ''0'' CHR ''1''],
                    seqs [entre CHR ''0'' CHR ''5'', dig],
                    dig])
      else None)"

text \<open>The pattern of a format and its directives in order; \<open>None\<close> for a format strptime refuses.\<close>

fun formato_regex :: "string \<Rightarrow> (rx \<times> string) option" where
  "formato_regex [] = Some (Eps, [])"
| "formato_regex [c] =
     (if c = CHR ''%'' then None
      else if is_space c then Some (Plus (One [Spc]), [])
      else Some (A (One [Ch c]), []))"
| "formato_regex (c # d # s) =
     (if c = CHR ''%'' then
        (case directiva d of
           None \<Rightarrow> None
         | Some r \<Rightarrow> map_option (\<lambda>(r', ds). (Seq (Grp r) r', d # ds)) (formato_regex s))
      else if is_space c then
        (if is_space d then formato_regex (d # s)
         else map_option (\<lambda>(r', ds). (Seq (Plus (One [Spc])) r', ds)) (formato_regex (d # s)))
      else map_option (\<lambda>(r', ds). (Seq (A (One [Ch c])) r', ds)) (formato_regex (d # s)))"

text \<open>The number a directive read, or its default.\<close>

definition campo :: "char \<Rightarrow> string \<Rightarrow> string list \<Rightarrow> int \<Rightarrow> int" where
  "campo c ds gs def =
     (case map_of (zip ds gs) c of
        None \<Rightarrow> def
      | Some g \<Rightarrow> int_of_digits (strip g))"

definition strptime :: "string \<Rightarrow> string \<Rightarrow> datetime option" where
  "strptime data fmt =
     (case formato_regex fmt of
        None \<Rightarrow> None
      | Some (r, ds) \<Rightarrow>
          (case re_match flag_I r data of
             None \<Rightarrow> None
           | Some m \<Rightarrow>
               if m_resto m \<noteq> [] then None
               else (let gs = m_grupos m;
                         dt = \<lparr>dt_year = campo CHR ''Y'' ds gs 1900,
                               dt_month = campo CHR ''m'' ds gs 1,
                               dt_day = campo CHR ''d'' ds gs 1,
                               dt_hour = campo CHR ''H'' ds gs 0,
                               dt_minute = campo CHR ''M'' ds gs 0,
                               dt_second = campo CHR ''S'' ds gs 0,
                               dt_microsecond = 0,
                               dt_utcoffset = None\<rparr>
                     in if fecha_valida dt then Some dt else None)))"

subsection \<open>_parse_fecha\<close>

definition formatos :: "string list" where
  "formatos = [''%Y-%m-%d %H:%M'', ''%Y-%m-%d %H:%M:%S'', ''%d/%m/%Y %H:%M'',
               ''%d/%m/%Y %H:%M:%S'', ''%d/%m %H:%M'', ''%d/%m %H:%M:%S'']"

text \<open>
  The loop of lines 540-547. A format that fails is passed over; a value read without a
  year gets the current year (\<open>replace\<close> checks the date again).
\<close>

fun probar_formatos :: "int \<Rightarrow> string list \<Rightarrow> string \<Rightarrow> datetime option" where
  "probar_formatos anio [] valor = None"
| "probar_formatos anio (fmt # resto) valor =
     (case strptime valor fmt of
        None \<Rightarrow> probar_formatos anio resto valor
      | Some dt \<Rightarrow>
          if \<not> contains fmt ''%Y''
          then (let dt' = dt\<lparr>dt_year := anio\<rparr>
                in if fecha_valida dt' then Some dt' else probar_formatos anio resto valor)
          else Some dt)"

text \<open>
  \<open>_parse_fecha\<close>: \<open>fromiso\<close> is \<open>datetime.fromisoformat\<close> of the standard library, whose
  grammar depends on the Python version; \<open>None\<close> is its \<open>ValueError\<close>. \<open>anio\<close> is
  \<open>datetime.now().year\<close>.
\<close>

definition parse_fecha :: "(string \<Rightarrow> datetime option) \<Rightarrow> int \<Rightarrow> string \<Rightarrow> datetime option" where
  "parse_fecha fromiso anio valor0 =
     (let valor = strip (replace_char CHR ''T'' CHR '' '' valor0)
      in case probar_formatos anio formatos valor of
           Some dt \<Rightarrow> Some dt
         | None \<Rightarrow> fromiso valor)"

section \<open>The store (database.py)\<close>

text \<open>
  One record per mapped class, with the columns the pipeline reads or writes. A table is
  the list of its rows in the order the store returns them, so \<open>.first()\<close> is the first
  row of the list that passes the filter. A nullable column is an \<open>option\<close>.
\<close>

record cliente =
  cli_id :: int
  cli_nombre :: string

record carrier =
  car_id :: int
  car_nombre :: string

record servicio =
  srv_id :: int
  srv_carrier :: "string option"
  srv_id_carrier :: "string option"
  srv_carrier_id :: "int option"

record tarea_programada =
  tp_id :: int
  tp_fecha_inicio :: datetime
  tp_fecha_fin :: datetime
  tp_tipo_tarea :: string
  tp_tiempo_afectacion :: "string option"
  tp_descripcion :: "string option"
  tp_carrier_id :: "int option"
  tp_id_interno :: "string option"

record tarea_servicio =
  ts_id :: int
  ts_tarea_id :: int
  ts_servicio_id :: int

record servicio_pendiente =
  sp_id :: int
  sp_tarea_id :: int
  sp_id_carrier :: string

record db =
  clientes :: "cliente list"
  carriers :: "carrier list"
  servicios :: "servicio list"
  tareas_programadas :: "tarea_programada list"
  tareas_servicio :: "tarea_servicio list"
  servicios_pendientes :: "servicio_pendiente list"

definition db_vacia :: db where
  "db_vacia = \<lparr>clientes = [], carriers = [], servicios = [], tareas_programadas = [],
     tareas_servicio = [], servicios_pendientes = []\<rparr>"

text \<open>
  The key of a new row: the store hands out a key no row of the table has (the sequence of
  the serial column, modelled as one more than the largest key in use, and at least 1).
\<close>

definition nuevo_id :: "int list \<Rightarrow> int" where
  "nuevo_id ids = fold max ids 0 + 1"

text \<open>\<open>first\<close> of a filtered query.\<close>

fun first :: "('a \<Rightarrow> bool) \<Rightarrow> 'a list \<Rightarrow> 'a option" where
  "first P [] = None"
| "first P (x # xs) = (if P x then Some x else first P xs)"

text \<open>\<open>list(dict.fromkeys(xs))\<close>: a dictionary keeps each key at its first insertion.\<close>

definition dict_fromkeys :: "'a list \<Rightarrow> 'a list" where
  "dict_fromkeys xs = fold (\<lambda>x acc. if x \<in> set acc then acc else acc @ [x]) xs []"

subsection \<open>Constraints of the schema\<close>

text \<open>
  \<open>uix_carrier_interno\<close>: two rows of \<open>tareas_programadas\<close> never agree on
  \<open>(carrier_id, id_interno)\<close> when both columns are set (a NULL never collides).
\<close>

definition choca_uix_carrier_interno :: "db \<Rightarrow> int option \<Rightarrow> string option \<Rightarrow> bool" where
  "choca_uix_carrier_interno d c i =
     (c \<noteq> None \<and> i \<noteq> None \<and>
      list_ex (\<lambda>t. tp_carrier_id t = c \<and> tp_id_interno t = i) (tareas_programadas d))"

text \<open>The foreign keys \<open>carriers.id\<close> and \<open>servicios.id\<close>.\<close>

definition existe_carrier :: "db \<Rightarrow> int option \<Rightarrow> bool" where
  "existe_carrier d c = (case c of None \<Rightarrow> True | Some k \<Rightarrow> k \<in> set (map car_id (carriers d)))"

definition existe_servicio :: "db \<Rightarrow> int \<Rightarrow> bool" where
  "existe_servicio d k = (k \<in> set (map srv_id (servicios d)))"

subsection \<open>crear_tarea_programada\<close>

record args_tarea =
  a_fecha_inicio :: datetime
  a_fecha_fin :: datetime
  a_tipo_tarea :: string
  a_servicios :: "int list"
  a_carrier_id :: "int option"
  a_tiempo_afectacion :: "string option"
  a_descripcion :: "string option"
  a_id_interno :: "string option"

text \<open>Lines 830-840: the lookup by \<open>(carrier_id, id_interno)\<close>, made only when both are truthy.\<close>

definition buscar_tarea :: "db \<Rightarrow> args_tarea \<Rightarrow> tarea_programada option" where
  "buscar_tarea d a =
     (if truthy_int (a_carrier_id a) \<and> truthy_str (a_id_interno a)
      then first (\<lambda>t. tp_carrier_id t = a_carrier_id a \<and> tp_id_interno t = a_id_interno a)
             (tareas_programadas d)
      else None)"

text \<open>
  Lines 841-861: update the row found, or add a new one; then the first commit. The
  result is the store after the commit, the row and \<open>creada\<close>.
\<close>

definition guardar_tarea ::
  "db \<Rightarrow> tarea_programada option \<Rightarrow> args_tarea \<Rightarrow> error + (db \<times> tarea_programada \<times> bool)" where
  "guardar_tarea d encontrada a =
     (case encontrada of
        Some t \<Rightarrow>
          (let t' = t\<lparr>tp_fecha_inicio := a_fecha_inicio a, tp_fecha_fin := a_fecha_fin a,
                      tp_tipo_tarea := a_tipo_tarea a,
                      tp_tiempo_afectacion := a_tiempo_afectacion a,
                      tp_descripcion := a_descripcion a\<rparr>
           in if list_ex (\<lambda>r. tp_id r = tp_id t) (tareas_programadas d)
              then Inr (d\<lparr>tareas_programadas :=
                            map (\<lambda>r. if tp_id r = tp_id t then t' else r) (tareas_programadas d)\<rparr>,
                        t', False)
              else Inl StaleDataError)
      | None \<Rightarrow>
          (let t' = \<lparr>tp_id = nuevo_id (map tp_id (tareas_programadas d)),
                     tp_fecha_inicio = a_fecha_inicio a, tp_fecha_fin = a_fecha_fin a,
                     tp_tipo_tarea = a_tipo_tarea a,
                     tp_tiempo_afectacion = a_tiempo_afectacion a,
                     tp_descripcion = a_descripcion a,
                     tp_carrier_id = a_carrier_id a,
                     tp_id_interno = a_id_interno a\<rparr>
           in if choca_uix_carrier_interno d (a_carrier_id a) (a_id_interno a)
                 \<or> \<not> existe_carrier d (a_carrier_id a)
              then Inl IntegrityError
              else Inr (d\<lparr>tareas_programadas := tareas_programadas d @ [t']\<rparr>, t', True)))"

text \<open>
  Lines 863-869: the links of the task are deleted and one link per service of the
  de-duplicated list is added; then the second commit. A service that does not exist
  breaks the foreign key, and the commit fails.
\<close>

fun nuevas_relaciones :: "int \<Rightarrow> int \<Rightarrow> int list \<Rightarrow> tarea_servicio list" where
  "nuevas_relaciones k tid [] = []"
| "nuevas_relaciones k tid (sid # sids) =
     \<lparr>ts_id = k, ts_tarea_id = tid, ts_servicio_id = sid\<rparr> # nuevas_relaciones (k + 1) tid sids"

definition reemplazar_relaciones :: "db \<Rightarrow> int \<Rightarrow> int list \<Rightarrow> error + db" where
  "reemplazar_relaciones d tid servs =
     (let servs' = dict_fromkeys servs;
          resto = filter (\<lambda>l. ts_tarea_id l \<noteq> tid) (tareas_servicio d);
          relaciones = nuevas_relaciones (nuevo_id (map ts_id (tareas_servicio d))) tid servs'
      in if list_all (existe_servicio d) servs'
         then Inr (d\<lparr>tareas_servicio := resto @ relaciones\<rparr>)
         else Inl IntegrityError)"

text \<open>
  The whole function. An exception leaves the store as the last commit made it, so the
  store is returned beside the error too.
\<close>

definition crear_tarea_programada ::
  "db \<Rightarrow> args_tarea \<Rightarrow> db \<times> (error + (tarea_programada \<times> bool))" where
  "crear_tarea_programada d a =
     (case guardar_tarea d (buscar_tarea d a) a of
        Inl e \<Rightarrow> (d, Inl e)
      | Inr (d1, tarea, creada) \<Rightarrow>
          (case reemplazar_relaciones d1 (tp_id tarea) (a_servicios a) of
             Inl e \<Rightarrow> (d1, Inl e)
           | Inr d2 \<Rightarrow> (d2, Inr (tarea, creada))))"

subsection \<open>crear_servicio_pendiente\<close>

definition crear_servicio_pendiente :: "db \<Rightarrow> string \<Rightarrow> int \<Rightarrow> db \<times> (error + servicio_pendiente)" where
  "crear_servicio_pendiente d id_carrier tarea_id =
     (let pendiente = \<lparr>sp_id = nuevo_id (map sp_id (servicios_pendientes d)),
                        sp_tarea_id = tarea_id, sp_id_carrier = id_carrier\<rparr>
      in if tarea_id \<in> set (map tp_id (tareas_programadas d))
         then (d\<lparr>servicios_pendientes := servicios_pendientes d @ [pendiente]\<rparr>, Inr pendiente)
         else (d, Inl IntegrityError))"

subsection \<open>obtener_cliente_por_nombre\<close>

definition obtener_cliente_por_nombre :: "db \<Rightarrow> string \<Rightarrow> cliente option" where
  "obtener_cliente_por_nombre d nombre = first (\<lambda>c. cli_nombre c = nombre) (clientes d)"

section \<open>The pipeline (procesar_correo_a_tarea)\<close>

subsection \<open>Lines 563-581: the filter of identifiers\<close>

definition patron_4_digitos :: rx where
  "patron_4_digitos = rep 4 (A (One [Dig]))"

definition es_telxius :: "string option \<Rightarrow> bool" where
  "es_telxius carrier_nombre =
     (case carrier_nombre of None \<Rightarrow> False | Some n \<Rightarrow> n \<noteq> [] \<and> upper n = puntos ''TELXIUS'')"

text \<open>Both loops append to \<open>ids_filtrados\<close> or to \<open>descartados\<close>; the state is the pair of lists.\<close>

definition paso_telxius :: "string list \<times> string list \<Rightarrow> string \<Rightarrow> string list \<times> string list" where
  "paso_telxius st i =
     (case st of (ids_filtrados, descartados) \<Rightarrow>
        if re_fullmatch sin_flags patron_crt i then (ids_filtrados @ [i], descartados)
        else (ids_filtrados, descartados @ [i]))"

definition paso_otros :: "string list \<times> string list \<Rightarrow> string \<Rightarrow> string list \<times> string list" where
  "paso_otros st i =
     (case st of (ids_filtrados, descartados) \<Rightarrow>
        if re_fullmatch sin_flags patron_4_digitos i then (ids_filtrados, descartados @ [i])
        else if isdigit i \<and> length i < 6 then (ids_filtrados, descartados @ [i])
        else (ids_filtrados @ [i], descartados))"

definition filtrar_ids :: "string option \<Rightarrow> string list \<Rightarrow> string list \<times> string list" where
  "filtrar_ids carrier_nombre ids_brutos =
     (if es_telxius carrier_nombre then foldl paso_telxius ([], []) ids_brutos
      else foldl paso_otros ([], []) ids_brutos)"

subsection \<open>Lines 612-637: the resolution of identifiers\<close>

definition session_get_servicio :: "db \<Rightarrow> int \<Rightarrow> servicio option" where
  "session_get_servicio d k = first (\<lambda>s. srv_id s = k) (servicios d)"

definition servicio_por_id_carrier :: "db \<Rightarrow> string \<Rightarrow> servicio option" where
  "servicio_por_id_carrier d x = first (\<lambda>s. srv_id_carrier s = Some x) (servicios d)"

text \<open>
  The body of the loop for one identifier: \<open>srv\<close> is assigned as in the source. The
  \<open>ValueError\<close> of \<open>int\<close> is not caught: it ends the loop and the pipeline.
\<close>

definition get_por_numero :: "db \<Rightarrow> string \<Rightarrow> error + servicio option" where
  "get_por_numero d txt =
     (case int_str txt of Inl e \<Rightarrow> Inl e | Inr k \<Rightarrow> Inr (session_get_servicio d k))"

definition resolver_ident :: "db \<Rightarrow> string \<Rightarrow> error + servicio option" where
  "resolver_ident d ident =
     (case (if isdigit ident then get_por_numero d ident else Inr None) of
        Inl e \<Rightarrow> Inl e
      | Inr srv \<Rightarrow>
          (let srv = (if srv = None then servicio_por_id_carrier d ident else srv)
           in if srv = None then
                (let ident_dig = re_sub_vacio sin_flags (Non [Dig]) ident in
                 if ident_dig \<noteq> [] then
                   (case (if isdigit ident_dig then get_por_numero d ident_dig else Inr srv) of
                      Inl e \<Rightarrow> Inl e
                    | Inr srv \<Rightarrow>
                        Inr (if srv = None then servicio_por_id_carrier d ident_dig else srv))
                 else Inr srv)
              else Inr srv))"

text \<open>The loop of lines 614-637: the services found and the identifiers left pending.\<close>

fun resolver_lista ::
  "db \<Rightarrow> servicio list \<times> string list \<Rightarrow> string list \<Rightarrow> error + (servicio list \<times> string list)" where
  "resolver_lista d st [] = Inr st"
| "resolver_lista d st (ident # resto) =
     (case resolver_ident d ident of
        Inl e \<Rightarrow> Inl e
      | Inr (Some srv) \<Rightarrow> resolver_lista d (fst st @ [srv], snd st) resto
      | Inr None \<Rightarrow> resolver_lista d (fst st, snd st @ [ident]) resto)"

definition resolver_ids :: "db \<Rightarrow> string list \<Rightarrow> error + (servicio list \<times> string list)" where
  "resolver_ids d ids_brutos = resolver_lista d ([], []) ids_brutos"

subsection \<open>The prompts\<close>

definition comillas :: "string \<Rightarrow> string" where
  "comillas s = [CHR 0x22] @ s @ [CHR 0x22]"

definition ejemplo :: string where
  "ejemplo =
     ''Ejemplo correo:\<newline>'' @
     ''Inicio: 02/01/2024 08:00\<newline>'' @
     ''Fin: 02/01/2024 10:00\<newline>'' @
     ''Trabajo: Actualizaci'' @ [CHR 0xF3] @ ''n de equipos\<newline>'' @
     ''Servicios: 76208, 78333\<newline>'' @
     ''\<newline>Respuesta esperada:\<newline>'' @
     ''{'' @ comillas ''inicio'' @ '': '' @ comillas ''2024-01-02 08:00'' @ '', '' @
     comillas ''fin'' @ '': '' @ comillas ''2024-01-02 10:00'' @ '', '' @
     comillas ''tipo'' @ '': '' @ comillas (''Actualizaci'' @ [CHR 0xF3] @ ''n de equipos'') @ '', '' @
     comillas ''afectacion'' @ '': null, '' @
     comillas ''descripcion'' @ '': null, '' @
     comillas ''ids'' @ '': ['' @ comillas ''76208'' @ '', '' @ comillas ''78333'' @ '']}''"

definition prompt :: "string \<Rightarrow> string" where
  "prompt texto_limpio =
     ''Sos un analista que extrae datos de mantenimientos programados. '' @
     ''Devolv'' @ [CHR 0xE9] @ '' '' @ [CHR 0xFA] @ ''nicamente un JSON con las claves inicio, fin, tipo, '' @
     ''afectacion, descripcion e ids (lista de servicios).\<newline>\<newline>'' @
     ejemplo @ ''\<newline>\<newline>Correo:\<newline>'' @ texto_limpio"

definition prompt_2 :: "string \<Rightarrow> string" where
  "prompt_2 texto_limpio =
     ''Devuelveme '' @ [CHR 0xDA] @ ''NICAMENTE el JSON (sin '' @ replicate 3 (CHR 0x60) @
     '' ni explicaciones) con las '' @
     ''claves inicio, fin, tipo, afectacion, descripcion, ids.\<newline>\<newline>'' @
     ''Correo:\<newline>'' @ texto_limpio"

subsection \<open>What the pipeline is given\<close>

text \<open>
  The objects the function uses that the files of the repository under study do not
  define:
  \<^item> \<open>consultar_gpt\<close>, the method of the GPT handler, over a state \<open>'g\<close> of the handler:
    it takes the prompt and the \<open>cache\<close> flag, and returns the answer or raises;
  \<^item> \<open>procesar_json_response\<close>, applied to the schema of lines 488-499 (inicio, fin, tipo
    and ids required): the validated object, or \<open>None\<close> for every failure (a raise, a
    \<open>None\<close> or an empty object: lines 522-528 treat the three alike);
  \<^item> \<open>fromisoformat\<close> of the standard library;
  \<^item> \<open>anio_actual\<close>, the year of \<open>datetime.now()\<close>.
\<close>

record 'g entorno =
  consultar_gpt :: "'g \<Rightarrow> string \<Rightarrow> bool \<Rightarrow> 'g \<times> (error + string)"
  procesar_json_response :: "string \<Rightarrow> datos option"
  fromisoformat :: "string \<Rightarrow> datetime option"
  anio_actual :: int

definition msg_extraccion :: string where
  "msg_extraccion = ''No se pudo extraer la tarea del correo''"

definition msg_fechas :: string where
  "msg_fechas = ''Fechas con formato inv'' @ [CHR 0xE1] @ ''lido''"

definition msg_rango :: string where
  "msg_rango = ''La fecha de inicio debe ser anterior al fin''"

subsection \<open>Lines 501-528: the fallback extractor\<close>

text \<open>\<open>\{.*\}\<close> under \<open>re.S\<close>.\<close>

definition patron_json :: rx where
  "patron_json = seqs [lit ''{'', Star Dot, lit ''}'']"

definition buscar_json :: "string \<Rightarrow> string option" where
  "buscar_json respuesta = map_option group0 (re_search flag_S patron_json respuesta)"

definition validar_json :: "'g entorno \<Rightarrow> string \<Rightarrow> error + datos" where
  "validar_json env txt =
     (case procesar_json_response env txt of
        None \<Rightarrow> Inl (ValueError (''JSON inv'' @ [CHR 0xE1] @ ''lido''))
      | Some datos \<Rightarrow> Inr datos)"

text \<open>The body of the \<open>try\<close> when the fast path gave nothing.\<close>

definition consultar_y_extraer :: "'g entorno \<Rightarrow> 'g \<Rightarrow> string \<Rightarrow> 'g \<times> (error + datos)" where
  "consultar_y_extraer env g texto_limpio =
     (case consultar_gpt env g (prompt texto_limpio) False of
        (g1, Inl e) \<Rightarrow> (g1, Inl e)
      | (g1, Inr respuesta) \<Rightarrow>
          (case buscar_json respuesta of
             Some j \<Rightarrow> (g1, validar_json env j)
           | None \<Rightarrow>
               (case consultar_gpt env g1 (prompt_2 texto_limpio) False of
                  (g2, Inl e) \<Rightarrow> (g2, Inl e)
                | (g2, Inr respuesta_2) \<Rightarrow>
                    (case buscar_json respuesta_2 of
                       None \<Rightarrow> (g2, Inl (ValueError (''JSON no encontrado en ning'' @ [CHR 0xFA] @ ''n intento GPT'')))
                     | Some j \<Rightarrow> (g2, validar_json env j)))))"

text \<open>
  Lines 457-462 and 501-528: the fast path first; the fallback only when it gave nothing.
  \<open>except Exception\<close> turns every failure of the fallback into the one \<open>ValueError\<close>.
\<close>

definition extraer_datos :: "'g entorno \<Rightarrow> 'g \<Rightarrow> string \<Rightarrow> 'g \<times> (error + datos)" where
  "extraer_datos env g texto_limpio =
     (case extraer_por_regex texto_limpio of
        Some datos \<Rightarrow> (g, Inr datos)
      | None \<Rightarrow>
          (case consultar_y_extraer env g texto_limpio of
             (g', Inl e) \<Rightarrow> (g', Inl (ValueError msg_extraccion))
           | (g', Inr datos) \<Rightarrow> (g', Inr datos)))"

subsection \<open>Lines 550-556: the dates\<close>

definition leer_fechas :: "'g entorno \<Rightarrow> datos \<Rightarrow> error + (datetime \<times> datetime)" where
  "leer_fechas env datos =
     (case (parse_fecha (fromisoformat env) (anio_actual env) (d_inicio datos),
            parse_fecha (fromisoformat env) (anio_actual env) (d_fin datos)) of
        (Some inicio, Some fin) \<Rightarrow>
          (case dt_ge inicio fin of
             Inl e \<Rightarrow> Inl e
           | Inr True \<Rightarrow> Inl (ValueError msg_rango)
           | Inr False \<Rightarrow> Inr (inicio, fin))
      | _ \<Rightarrow> Inl (ValueError msg_fechas))"

subsection \<open>Lines 453-467: the name of the carrier\<close>

definition patron_carrier :: rx where
  "patron_carrier = seqs [lit ''carrier'', Plus sep_campo, Grp (Plus no_salto)]"

definition nombre_carrier :: "string option \<Rightarrow> detectados \<Rightarrow> string \<Rightarrow> string option" where
  "nombre_carrier carrier_nombre det texto_limpio =
     (let c1 = (if \<not> truthy_str carrier_nombre then det_carrier det else carrier_nombre)
      in if \<not> truthy_str c1
         then (case re_search flag_I patron_carrier texto_limpio of
                 Some m \<Rightarrow> Some (strip (group1 m))
               | None \<Rightarrow> c1)
         else c1)"

subsection \<open>Lines 593-678: the store\<close>

definition obtener_o_crear_cliente :: "db \<Rightarrow> string \<Rightarrow> db \<times> cliente" where
  "obtener_o_crear_cliente d cliente_nombre =
     (case obtener_cliente_por_nombre d cliente_nombre of
        Some c \<Rightarrow> (d, c)
      | None \<Rightarrow>
          (let c = \<lparr>cli_id = nuevo_id (map cli_id (clientes d)), cli_nombre = cliente_nombre\<rparr>
           in (d\<lparr>clientes := clientes d @ [c]\<rparr>, c)))"

definition obtener_o_crear_carrier :: "db \<Rightarrow> string option \<Rightarrow> db \<times> carrier option" where
  "obtener_o_crear_carrier d carrier_nombre =
     (case carrier_nombre of
        None \<Rightarrow> (d, None)
      | Some n \<Rightarrow>
          if n = [] then (d, None)
          else (case first (\<lambda>c. car_nombre c = n) (carriers d) of
                  Some c \<Rightarrow> (d, Some c)
                | None \<Rightarrow>
                    (let c = \<lparr>car_id = nuevo_id (map car_id (carriers d)), car_nombre = n\<rparr>
                     in (d\<lparr>carriers := carriers d @ [c]\<rparr>, Some c))))"

text \<open>Lines 652-657: every matched service is handed to the carrier of the task.\<close>

definition asignar_carrier :: "db \<Rightarrow> carrier option \<Rightarrow> servicio list \<Rightarrow> db" where
  "asignar_carrier d c servs =
     (case c of
        None \<Rightarrow> d
      | Some car \<Rightarrow>
          d\<lparr>servicios :=
               map (\<lambda>s. if srv_id s \<in> set (map srv_id servs)
                         then s\<lparr>srv_carrier_id := Some (car_id car),
                                srv_carrier := Some (car_nombre car)\<rparr>
                         else s) (servicios d)\<rparr>)"

text \<open>Lines 659-661: one pending row per identifier not resolved.\<close>

fun crear_pendientes :: "db \<Rightarrow> string list \<Rightarrow> int \<Rightarrow> db \<times> (error + unit)" where
  "crear_pendientes d [] tarea_id = (d, Inr ())"
| "crear_pendientes d (token # resto) tarea_id =
     (case crear_servicio_pendiente d token tarea_id of
        (d', Inl e) \<Rightarrow> (d', Inl e)
      | (d', Inr _) \<Rightarrow> crear_pendientes d' resto tarea_id)"

definition guardar_todo ::
  "db \<Rightarrow> string \<Rightarrow> string option \<Rightarrow> datetime \<Rightarrow> datetime \<Rightarrow> string \<Rightarrow> string list \<Rightarrow>
   string option \<Rightarrow> string option \<Rightarrow> string option \<Rightarrow>
   db \<times> (error + (tarea_programada \<times> bool \<times> string list))" where
  "guardar_todo d cliente_nombre carrier_nombre inicio fin tipo ids_brutos id_interno
     afectacion descripcion =
     (case obtener_o_crear_cliente d cliente_nombre of (d1, cli) \<Rightarrow>
      case obtener_o_crear_carrier d1 carrier_nombre of (d2, car) \<Rightarrow>
      case resolver_ids d2 ids_brutos of
        Inl e \<Rightarrow> (d2, Inl e)
      | Inr (servs, ids_pendientes) \<Rightarrow>
      case crear_tarea_programada d2
             \<lparr>a_fecha_inicio = inicio, a_fecha_fin = fin, a_tipo_tarea = tipo,
              a_servicios = map srv_id servs,
              a_carrier_id = map_option car_id car,
              a_tiempo_afectacion = afectacion, a_descripcion = descripcion,
              a_id_interno = id_interno\<rparr> of
        (d3, Inl e) \<Rightarrow> (d3, Inl e)
      | (d3, Inr (tarea, creada_nueva)) \<Rightarrow>
          (case crear_pendientes (asignar_carrier d3 car servs) ids_pendientes (tp_id tarea) of
             (d4, Inl e) \<Rightarrow> (d4, Inl e)
           | (d4, Inr _) \<Rightarrow> (d4, Inr (tarea, creada_nueva, ids_pendientes))))"

subsection \<open>The function\<close>

text \<open>
  \<open>procesar_correo_a_tarea\<close> with \<open>generar_msg=False\<close> (the notice of \<open>generar_msg=True\<close>
  is written after the task is stored and changes neither the store nor the three values
  returned here). The state is the state of the GPT handler and the store.
\<close>

definition tipo_de :: "datos \<Rightarrow> detectados \<Rightarrow> string" where
  "tipo_de datos det =
     (if d_tipo datos \<noteq> [] then d_tipo datos
      else if det_tipo det \<noteq> [] then det_tipo det
      else ''Programada'')"

definition unir_ids :: "datos \<Rightarrow> detectados \<Rightarrow> string list" where
  "unir_ids datos det = d_ids datos @ filter (\<lambda>s. s \<notin> set (d_ids datos)) (det_ids det)"

definition procesar_correo_a_tarea ::
  "'g entorno \<Rightarrow> 'g \<times> db \<Rightarrow> string \<Rightarrow> string \<Rightarrow> string option \<Rightarrow>
   ('g \<times> db) \<times> (error + (tarea_programada \<times> bool \<times> string list))" where
  "procesar_correo_a_tarea env st texto cliente_nombre carrier_nombre0 =
     (case st of (g, d) \<Rightarrow>
      let texto_limpio = limpiar_correo texto in
      case detectar_datos_correo texto_limpio of
        Inl e \<Rightarrow> ((g, d), Inl e)
      | Inr det \<Rightarrow>
     (case extraer_datos env g texto_limpio of
        (g', Inl e) \<Rightarrow> ((g', d), Inl e)
      | (g', Inr datos) \<Rightarrow>
     (case leer_fechas env datos of
        Inl e \<Rightarrow> ((g', d), Inl e)
      | Inr (inicio, fin) \<Rightarrow>
          (let carrier_nombre = nombre_carrier carrier_nombre0 det texto_limpio;
               ids_brutos = fst (filtrar_ids carrier_nombre (unir_ids datos det))
           in case guardar_todo d cliente_nombre carrier_nombre inicio fin (tipo_de datos det)
                     ids_brutos (det_id_interno det) (d_afectacion datos) (d_descripcion datos) of
                (d', r) \<Rightarrow> ((g', d'), r)))))"

section \<open>The GPT handler\<close>

text \<open>
  Modelled from the spec: \<open>consultar_gpt\<close> of gpt_handler.py is not among the files under
  study. The spec gives the completion service one operation,
  \<open>complete(prompt, cache) -> string\<close>, and says that with caching disabled every call
  gets a fresh answer; the test of the cache shows that with caching on a second call
  with the same prompt is answered from the cache. The external service is a function
  of the number of calls made before and the prompt.
\<close>

record gpt_handler =
  gh_cache :: "(string \<times> string) list"
  gh_llamadas :: nat

definition consultar_gpt_spec ::
  "(nat \<Rightarrow> string \<Rightarrow> string) \<Rightarrow> gpt_handler \<Rightarrow> string \<Rightarrow> bool \<Rightarrow> gpt_handler \<times> (error + string)" where
  "consultar_gpt_spec servicio h p cache =
     (case (if cache then map_of (gh_cache h) p else None) of
        Some r \<Rightarrow> (h, Inr r)
      | None \<Rightarrow>
          (let r = servicio (gh_llamadas h) p
           in (h\<lparr>gh_cache := (if cache then (p, r) # gh_cache h else gh_cache h),
                  gh_llamadas := gh_llamadas h + 1\<rparr>, Inr r)))"

text \<open>Several mails, one after the other, each on the state the one before left.\<close>

fun procesar_varios ::
  "'g entorno \<Rightarrow> 'g \<times> db \<Rightarrow> (string \<times> string \<times> string option) list \<Rightarrow> 'g \<times> db" where
  "procesar_varios env st [] = st"
| "procesar_varios env st ((texto, cliente_nombre, carrier_nombre) # resto) =
     procesar_varios env (fst (procesar_correo_a_tarea env st texto cliente_nombre carrier_nombre)) resto"

section \<open>Example data\<close>

definition fecha_ej :: "int \<Rightarrow> datetime" where
  "fecha_ej h = \<lparr>dt_year = 2024, dt_month = 1, dt_day = 2, dt_hour = h, dt_minute = 0,
     dt_second = 0, dt_microsecond = 0, dt_utcoffset = None\<rparr>"

definition servicio_ej :: "int \<Rightarrow> string option \<Rightarrow> servicio" where
  "servicio_ej k codigo_carrier =
     \<lparr>srv_id = k, srv_carrier = None, srv_id_carrier = codigo_carrier, srv_carrier_id = None\<rparr>"

definition db_ej :: db where
  "db_ej = db_vacia\<lparr>carriers := [\<lparr>car_id = 1, car_nombre = ''TELXIUS''\<rparr>],
     servicios := map (\<lambda>k. servicio_ej k None) [1, 2, 3, 4]\<rparr>"

definition args_ej :: "int list \<Rightarrow> string option \<Rightarrow> string option \<Rightarrow> args_tarea" where
  "args_ej servs interno descr = \<lparr>a_fecha_inicio = fecha_ej 8, a_fecha_fin = fecha_ej 10,
     a_tipo_tarea = ''Mantenimiento'', a_servicios = servs, a_carrier_id = Some 1,
     a_tiempo_afectacion = None, a_descripcion = descr, a_id_interno = interno\<rparr>"

definition tarea_ej :: "string option \<Rightarrow> string option \<Rightarrow> tarea_programada" where
  "tarea_ej interno descr = \<lparr>tp_id = 1, tp_fecha_inicio = fecha_ej 8, tp_fecha_fin = fecha_ej 10,
     tp_tipo_tarea = ''Mantenimiento'', tp_tiempo_afectacion = None, tp_descripcion = descr,
     tp_carrier_id = Some 1, tp_id_interno = interno\<rparr>"

definition db_res :: db where
  "db_res = db_vacia\<lparr>servicios := [servicio_ej 5 (Some ''762080''), servicio_ej 762080 None,
                                   servicio_ej 77 (Some ''CRT-000123'')]\<rparr>"

text \<open>
  A stand-in for the GPT handler that records every call (the prompt and the \<open>cache\<close>
  flag) and answers with \<open>servicio\<close>, a function of the number of calls made before
  and of the prompt.
\<close>

definition gpt_registro ::
  "(nat \<Rightarrow> string \<Rightarrow> error + string) \<Rightarrow> (string \<times> bool) list \<Rightarrow> string \<Rightarrow> bool \<Rightarrow>
   (string \<times> bool) list \<times> (error + string)" where
  "gpt_registro servicio llamadas p cache = (llamadas @ [(p, cache)], servicio (length llamadas) p)"

definition env_ej ::
  "(nat \<Rightarrow> string \<Rightarrow> error + string) \<Rightarrow> (string \<Rightarrow> datos option) \<Rightarrow> (string \<times> bool) list entorno" where
  "env_ej servicio validar =
     \<lparr>consultar_gpt = gpt_registro servicio, procesar_json_response = validar,
      fromisoformat = (\<lambda>_. None), anio_actual = 2026\<rparr>"

definition correo_ej :: string where
  "correo_ej = ''Inicio: 02/01/2024 08:00\<newline>Fin: 02/01/2024 10:00\<newline>Servicios: 762080, AB-77''"

definition datos_ej :: datos where
  "datos_ej = \<lparr>d_inicio = ''2024-01-02 08:00'', d_fin = ''2024-01-02 10:00'', d_tipo = ''Corte'',
     d_afectacion = None, d_descripcion = None, d_ids = [''762080'']\<rparr>"


definition servicio_sin_json :: "nat \<Rightarrow> string \<Rightarrow> error + string" where
  "servicio_sin_json n p = Inr ''no tengo datos''"

definition servicio_json :: "nat \<Rightarrow> string \<Rightarrow> error + string" where
  "servicio_json n p = Inr ''Respuesta: {a} y {b}.''"


definition servicio_json_tarde :: "nat \<Rightarrow> string \<Rightarrow> error + string" where
  "servicio_json_tarde n p = (if n = 0 then Inr ''no tengo datos'' else Inr ''{b}'')"

text \<open>The environment whose handler is the one modelled from the spec.\<close>

definition env_spec ::
  "(nat \<Rightarrow> string \<Rightarrow> string) \<Rightarrow> (string \<Rightarrow> datos option) \<Rightarrow> gpt_handler entorno" where
  "env_spec servicio validar =
     \<lparr>consultar_gpt = consultar_gpt_spec servicio, procesar_json_response = validar,
      fromisoformat = (\<lambda>_. None), anio_actual = 2026\<rparr>"

text \<open>
  A mail reaches the fallback when the sniffer of line 451 does not raise and the fast
  path of line 457 gives nothing.
\<close>

definition llega_al_fallback :: "string \<Rightarrow> bool" where
  "llega_al_fallback texto =
     ((case detectar_datos_correo (limpiar_correo texto) of Inl _ \<Rightarrow> False | Inr _ \<Rightarrow> True) \<and>
      extraer_por_regex (limpiar_correo texto) = None)"

definition correo_mal :: string where
  "correo_mal = ''Inicio: pronto\<newline>Fin: 02/01/2024 10:00\<newline>Servicios: 762080''"

definition correo_rango :: string where
  "correo_rango = ''Inicio: 02/01/2024 10:00\<newline>Fin: 2024-01-02 08:00\<newline>Servicios: 762080''"

section \<open>The language of a pattern\<close>

text \<open>
  The strings a pattern can consume, as a set, for the patterns without a word boundary;
  \<open>restos\<close> collects what the matcher leaves unread.  They serve to state what
  \<open>re.search\<close> finds, independently of the order of the matches.
\<close>

fun sin_bnd :: "rx \<Rightarrow> bool" where
  "sin_bnd Bnd = False"
| "sin_bnd (Seq r1 r2) = (sin_bnd r1 \<and> sin_bnd r2)"
| "sin_bnd (Alt r1 r2) = (sin_bnd r1 \<and> sin_bnd r2)"
| "sin_bnd (Opt r) = sin_bnd r"
| "sin_bnd (Grp r) = sin_bnd r"
| "sin_bnd r = True"

fun lang :: "flags \<Rightarrow> rx \<Rightarrow> string set" where
  "lang fl Eps = {[]}"
| "lang fl (A a) = {w. \<exists>c. w = [c] \<and> atom_ok fl a c}"
| "lang fl (Star a) = {w. list_all (atom_ok fl a) w}"
| "lang fl (Plus a) = {w. w \<noteq> [] \<and> list_all (atom_ok fl a) w}"
| "lang fl (Seq r1 r2) = {w. \<exists>u v. w = u @ v \<and> u \<in> lang fl r1 \<and> v \<in> lang fl r2}"
| "lang fl (Alt r1 r2) = lang fl r1 \<union> lang fl r2"
| "lang fl (Opt r) = insert [] (lang fl r)"
| "lang fl (Grp r) = lang fl r"
| "lang fl Bnd = {}"

text \<open>
  The same with the groups: the pairs of a string the pattern can consume and the texts
  its groups capture on the way, in the order the groups close.
\<close>

fun sin_grp :: "rx \<Rightarrow> bool" where
  "sin_grp (Grp r) = False"
| "sin_grp (Seq r1 r2) = (sin_grp r1 \<and> sin_grp r2)"
| "sin_grp (Alt r1 r2) = (sin_grp r1 \<and> sin_grp r2)"
| "sin_grp (Opt r) = sin_grp r"
| "sin_grp r = True"

fun langg :: "flags \<Rightarrow> rx \<Rightarrow> (string \<times> string list) set" where
  "langg fl Eps = {([], [])}"
| "langg fl (A a) = {x. \<exists>c. x = ([c], []) \<and> atom_ok fl a c}"
| "langg fl (Star a) = {x. \<exists>w. x = (w, []) \<and> list_all (atom_ok fl a) w}"
| "langg fl (Plus a) = {x. \<exists>w. x = (w, []) \<and> w \<noteq> [] \<and> list_all (atom_ok fl a) w}"
| "langg fl (Seq r1 r2) =
     {x. \<exists>u v gu gv. x = (u @ v, gu @ gv) \<and> (u, gu) \<in> langg fl r1 \<and> (v, gv) \<in> langg fl r2}"
| "langg fl (Alt r1 r2) = langg fl r1 \<union> langg fl r2"
| "langg fl (Opt r) = insert ([], []) (langg fl r)"
| "langg fl (Grp r) = {x. \<exists>w gs. x = (w, gs @ [w]) \<and> (w, gs) \<in> langg fl r}"
| "langg fl Bnd = {}"

definition restos :: "pos list \<Rightarrow> string set" where
  "restos sts = (\<lambda>st. fst (snd st)) ` set sts"

section \<open>Facts about the store\<close>

lemma fold_max_ge: "(a::int) \<le> fold max xs a"
proof (induction xs arbitrary: a)
  case Nil
  then show ?case by simp
next
  case (Cons y ys)
  have "a \<le> max y a" by simp
  also have "\<dots> \<le> fold max ys (max y a)" by (rule Cons.IH)
  finally show ?case by simp
qed

lemma fold_max_mem: "x \<in> set xs \<Longrightarrow> (x::int) \<le> fold max xs a"
proof (induction xs arbitrary: a)
  case Nil
  then show ?case by simp
next
  case (Cons y ys)
  show ?case
  proof (cases "x = y")
    case True
    have "max y a \<le> fold max ys (max y a)" by (rule fold_max_ge)
    with True show ?thesis by simp
  next
    case False
    with Cons show ?thesis by simp
  qed
qed

lemma nuevo_id_fresh: "nuevo_id ids \<notin> set ids"
  using fold_max_mem[of "nuevo_id ids" ids 0] by (auto simp: nuevo_id_def)

text \<open>\<open>dict.fromkeys\<close> keeps the first occurrence of every element, in order.\<close>

lemma remdups_snoc: "remdups (zs @ [x]) = remdups (filter (\<lambda>y. y \<noteq> x) zs) @ [x]"
  by (induction zs) auto

lemma dict_fromkeys_fold:
  "fold (\<lambda>x acc. if x \<in> set acc then acc else acc @ [x]) xs acc
     = acc @ rev (remdups (rev (filter (\<lambda>x. x \<notin> set acc) xs)))"
proof (induction xs arbitrary: acc)
  case Nil
  then show ?case by simp
next
  case (Cons x xs)
  show ?case
  proof (cases "x \<in> set acc")
    case True
    with Cons show ?thesis by simp
  next
    case False
    have f: "filter (\<lambda>y. y \<notin> set (acc @ [x])) xs
               = filter (\<lambda>y. y \<noteq> x) (filter (\<lambda>y. y \<notin> set acc) xs)"
      by (induction xs) auto
    have r: "rev (remdups (rev (x # ys))) = x # rev (remdups (rev (filter (\<lambda>y. y \<noteq> x) ys)))"
      for ys :: "'a list"
      using remdups_snoc[of "rev ys" x] by (simp add: rev_filter)
    have "fold (\<lambda>x acc. if x \<in> set acc then acc else acc @ [x]) (x # xs) acc
        = (acc @ [x]) @ rev (remdups (rev (filter (\<lambda>y. y \<notin> set (acc @ [x])) xs)))"
      using Cons.IH[of "acc @ [x]"] False by simp
    also have "\<dots> = acc @ rev (remdups (rev (x # filter (\<lambda>y. y \<notin> set acc) xs)))"
      unfolding f r by simp
    also have "x # filter (\<lambda>y. y \<notin> set acc) xs = filter (\<lambda>y. y \<notin> set acc) (x # xs)"
      using False by simp
    finally show ?thesis .
  qed
qed

lemma dict_fromkeys_eq: "dict_fromkeys xs = rev (remdups (rev xs))"
  using dict_fromkeys_fold[of xs "[]"] by (simp add: dict_fromkeys_def)

lemma first_None_iff: "first P xs = None \<longleftrightarrow> \<not> list_ex P xs"
  by (induction xs) auto

lemma first_Some_P: "first P xs = Some x \<Longrightarrow> P x \<and> x \<in> set xs"
  by (induction xs) (auto split: if_splits)

lemma first_append_new: "\<not> list_ex P xs \<Longrightarrow> P y \<Longrightarrow> first P (xs @ [y]) = Some y"
  by (induction xs) auto

lemma filter_append_new: "\<not> list_ex P xs \<Longrightarrow> P y \<Longrightarrow> filter P (xs @ [y]) = [y]"
  by (induction xs) auto

lemma map_nuevas: "map ts_servicio_id (nuevas_relaciones k tid sids) = sids"
  by (induction sids arbitrary: k) auto

lemma tarea_nuevas:
  "filter (\<lambda>l. ts_tarea_id l = tid) (nuevas_relaciones k tid sids) = nuevas_relaciones k tid sids"
  by (induction sids arbitrary: k) auto

lemma tarea_nuevas_neq: "filter (\<lambda>l. ts_tarea_id l \<noteq> tid) (nuevas_relaciones k tid sids) = []"
  by (induction sids arbitrary: k) auto

lemma reemplazar_links:
  assumes "reemplazar_relaciones d tid servs = Inr d'"
  shows "map ts_servicio_id (filter (\<lambda>l. ts_tarea_id l = tid) (tareas_servicio d'))
           = rev (remdups (rev servs))"
    and "filter (\<lambda>l. ts_tarea_id l \<noteq> tid) (tareas_servicio d')
           = filter (\<lambda>l. ts_tarea_id l \<noteq> tid) (tareas_servicio d)"
  using assms
  by (auto simp: reemplazar_relaciones_def Let_def tarea_nuevas tarea_nuevas_neq map_nuevas
      dict_fromkeys_eq split: if_splits)

lemma reemplazar_ok:
  "list_all (existe_servicio d) servs \<Longrightarrow>
   \<exists>d'. reemplazar_relaciones d tid servs = Inr d' \<and>
     tareas_programadas d' = tareas_programadas d \<and> carriers d' = carriers d \<and>
     servicios d' = servicios d"
  by (simp add: reemplazar_relaciones_def Let_def dict_fromkeys_eq list_all_iff)

section \<open>The upsert\<close>

text \<open>
  C1, as the code has it. Two calls with the same carrier id and internal id, both truthy
  (a carrier id other than 0, an internal id other than the empty text), on a store that
  has no task with that pair and has the carrier and the services the calls name: the
  first call returns \<open>creada = True\<close>, the second \<open>creada = False\<close>; afterwards the store
  holds exactly one task with that pair, it is the task both calls returned, its
  description is the one of the second call, and one row was added in all.
\<close>

theorem upsert_idempotent:
  assumes c: "a_carrier_id a1 = Some c" "a_carrier_id a2 = Some c" "c \<noteq> 0"
      and i: "a_id_interno a1 = Some i" "a_id_interno a2 = Some i" "i \<noteq> []"
      and fresh: "\<not> list_ex (\<lambda>t. tp_carrier_id t = Some c \<and> tp_id_interno t = Some i)
                        (tareas_programadas d)"
      and fk: "c \<in> set (map car_id (carriers d))"
              "list_all (existe_servicio d) (a_servicios a1)"
              "list_all (existe_servicio d) (a_servicios a2)"
  shows "\<exists>d1 t1 d2 t2.
           crear_tarea_programada d a1 = (d1, Inr (t1, True)) \<and>
           crear_tarea_programada d1 a2 = (d2, Inr (t2, False)) \<and>
           filter (\<lambda>t. tp_carrier_id t = Some c \<and> tp_id_interno t = Some i)
             (tareas_programadas d2) = [t2] \<and>
           tp_descripcion t2 = a_descripcion a2 \<and> tp_id t2 = tp_id t1 \<and>
           length (tareas_programadas d2) = length (tareas_programadas d) + 1"
proof -
  let ?K = "\<lambda>t. tp_carrier_id t = Some c \<and> tp_id_interno t = Some i"
  define t1 where "t1 = \<lparr>tp_id = nuevo_id (map tp_id (tareas_programadas d)),
                     tp_fecha_inicio = a_fecha_inicio a1, tp_fecha_fin = a_fecha_fin a1,
                     tp_tipo_tarea = a_tipo_tarea a1,
                     tp_tiempo_afectacion = a_tiempo_afectacion a1,
                     tp_descripcion = a_descripcion a1,
                     tp_carrier_id = a_carrier_id a1,
                     tp_id_interno = a_id_interno a1\<rparr>"
  define dg where "dg = d\<lparr>tareas_programadas := tareas_programadas d @ [t1]\<rparr>"
  have K1: "?K t1" by (simp add: t1_def c i)
  have b1: "buscar_tarea d a1 = None"
    using fresh by (simp add: buscar_tarea_def c i first_None_iff)
  have g1: "guardar_tarea d None a1 = Inr (dg, t1, True)"
    using fresh fk(1) by (simp add: guardar_tarea_def Let_def choca_uix_carrier_interno_def
        existe_carrier_def c i t1_def dg_def)
  have fk1: "list_all (existe_servicio dg) (a_servicios a1)"
    using fk(2) by (simp add: dg_def existe_servicio_def list_all_iff)
  obtain d1 where r1: "reemplazar_relaciones dg (tp_id t1) (a_servicios a1) = Inr d1"
    and d1: "tareas_programadas d1 = tareas_programadas dg" "servicios d1 = servicios dg"
    using reemplazar_ok[OF fk1] by blast
  have call1: "crear_tarea_programada d a1 = (d1, Inr (t1, True))"
    by (simp add: crear_tarea_programada_def b1 g1 r1)
  have tp1: "tareas_programadas d1 = tareas_programadas d @ [t1]"
    by (simp add: d1 dg_def)
  have idfresh: "tp_id t1 \<notin> set (map tp_id (tareas_programadas d))"
    using nuevo_id_fresh[of "map tp_id (tareas_programadas d)"] by (simp add: t1_def)
  have b2: "buscar_tarea d1 a2 = Some t1"
    using first_append_new[of ?K "tareas_programadas d" t1] fresh K1
    by (simp add: buscar_tarea_def c i tp1)
  define t2 where "t2 = t1\<lparr>tp_fecha_inicio := a_fecha_inicio a2, tp_fecha_fin := a_fecha_fin a2,
                      tp_tipo_tarea := a_tipo_tarea a2,
                      tp_tiempo_afectacion := a_tiempo_afectacion a2,
                      tp_descripcion := a_descripcion a2\<rparr>"
  define dh where "dh = d1\<lparr>tareas_programadas := tareas_programadas d @ [t2]\<rparr>"
  have m: "map (\<lambda>r. if tp_id r = tp_id t1 then t2 else r) (tareas_programadas d)
             = tareas_programadas d"
    using idfresh by (intro map_idI) (auto simp: image_iff)
  have g2: "guardar_tarea d1 (Some t1) a2 = Inr (dh, t2, False)"
    by (simp add: guardar_tarea_def Let_def tp1 t2_def[symmetric] m dh_def)
  have fk2: "list_all (existe_servicio dh) (a_servicios a2)"
    using fk(3) by (simp add: dh_def dg_def d1 existe_servicio_def list_all_iff)
  obtain d2 where r2: "reemplazar_relaciones dh (tp_id t2) (a_servicios a2) = Inr d2"
    and d2: "tareas_programadas d2 = tareas_programadas dh"
    using reemplazar_ok[OF fk2] by blast
  have call2: "crear_tarea_programada d1 a2 = (d2, Inr (t2, False))"
    by (simp add: crear_tarea_programada_def b2 g2 r2)
  have K2: "?K t2" using K1 by (simp add: t2_def)
  have f2: "filter ?K (tareas_programadas d2) = [t2]"
    using filter_append_new[of ?K "tareas_programadas d" t2] fresh K2 by (simp add: d2 dh_def)
  show ?thesis
    using call1 call2 f2 by (auto simp: t2_def d2 dh_def)
qed

text \<open>
  The theorem at a store with carrier 1 and services 1 to 4: the same task reported
  twice, first with the description "a", then with "b".
\<close>

theorem upsert_idempotent_witness:
  "\<exists>d1 t1 d2 t2.
     crear_tarea_programada db_ej (args_ej [1, 2] (Some ''SWX0000001'') (Some ''a''))
       = (d1, Inr (t1, True)) \<and>
     crear_tarea_programada d1 (args_ej [2, 3] (Some ''SWX0000001'') (Some ''b''))
       = (d2, Inr (t2, False)) \<and>
     filter (\<lambda>t. tp_carrier_id t = Some 1 \<and> tp_id_interno t = Some ''SWX0000001'')
       (tareas_programadas d2) = [t2] \<and>
     tp_descripcion t2 = Some ''b'' \<and> tp_id t2 = tp_id t1 \<and>
     length (tareas_programadas d2) = 1"
  using upsert_idempotent[of "args_ej [1, 2] (Some ''SWX0000001'') (Some ''a'')" 1
      "args_ej [2, 3] (Some ''SWX0000001'') (Some ''b'')" "''SWX0000001''" db_ej]
  by (simp add: args_ej_def db_ej_def db_vacia_def existe_servicio_def servicio_ej_def)

text \<open>
  The claim as it is written asks only for ids that are not null. An internal id that is
  the empty text is not null, yet line 832 takes it for absent: the lookup is skipped,
  the first call adds a row, and the second call adds the same pair again and is refused
  by \<open>uix_carrier_interno\<close>.
\<close>

theorem upsert_non_null_counterexample:
  "a_carrier_id (args_ej [] (Some []) (Some ''a'')) = Some 1 \<and>
   a_id_interno (args_ej [] (Some []) (Some ''a'')) = Some [] \<and>
   snd (crear_tarea_programada db_ej (args_ej [] (Some []) (Some ''a'')))
     = Inr (tarea_ej (Some []) (Some ''a''), True) \<and>
   snd (crear_tarea_programada
          (fst (crear_tarea_programada db_ej (args_ej [] (Some []) (Some ''a''))))
          (args_ej [] (Some []) (Some ''b'')))
     = Inl IntegrityError"
  by (simp add: crear_tarea_programada_def db_ej_def db_vacia_def args_ej_def tarea_ej_def
      buscar_tarea_def guardar_tarea_def reemplazar_relaciones_def Let_def nuevo_id_def
      dict_fromkeys_def choca_uix_carrier_interno_def existe_carrier_def)

text \<open>
  C2. When the upsert returns a task, the links of that task in the store are, in order,
  the services of the call without repetitions, the first occurrence of each kept; the
  links of every other task are as they were.
\<close>

theorem links_replaced:
  assumes "crear_tarea_programada d a = (d', Inr (t, creada))"
  shows "map ts_servicio_id (filter (\<lambda>l. ts_tarea_id l = tp_id t) (tareas_servicio d'))
           = rev (remdups (rev (a_servicios a))) \<and>
         filter (\<lambda>l. ts_tarea_id l \<noteq> tp_id t) (tareas_servicio d')
           = filter (\<lambda>l. ts_tarea_id l \<noteq> tp_id t) (tareas_servicio d)"
proof -
  from assms obtain d1 where g: "guardar_tarea d (buscar_tarea d a) a = Inr (d1, t, creada)"
    and r: "reemplazar_relaciones d1 (tp_id t) (a_servicios a) = Inr d'"
    by (auto simp: crear_tarea_programada_def split: sum.splits)
  have "tareas_servicio d1 = tareas_servicio d"
    using g by (auto simp: guardar_tarea_def Let_def split: option.splits if_splits)
  with reemplazar_links[OF r] show ?thesis by simp
qed

text \<open>
  The example of the spec: the task is stored with the services 1, 2, 3 and then again
  with 2, 3, 4 (3 named twice); its links are then 2, 3 and 4.
\<close>

theorem links_replaced_witness:
  "map ts_servicio_id
     (filter (\<lambda>l. ts_tarea_id l = 1)
        (tareas_servicio
           (fst (crear_tarea_programada
                   (fst (crear_tarea_programada db_ej (args_ej [1, 2, 3] (Some ''SWX0000001'') None)))
                   (args_ej [2, 3, 4, 3] (Some ''SWX0000001'') None)))))
     = [2, 3, 4]"
proof -
  let ?d1 = "fst (crear_tarea_programada db_ej (args_ej [1, 2, 3] (Some ''SWX0000001'') None))"
  let ?a2 = "args_ej [2, 3, 4, 3] (Some ''SWX0000001'') None"
  have s: "snd (crear_tarea_programada ?d1 ?a2) = Inr (tarea_ej (Some ''SWX0000001'') None, False)"
    by (simp add: crear_tarea_programada_def db_ej_def db_vacia_def args_ej_def tarea_ej_def
      buscar_tarea_def guardar_tarea_def reemplazar_relaciones_def Let_def nuevo_id_def
      dict_fromkeys_def choca_uix_carrier_interno_def existe_carrier_def existe_servicio_def
      servicio_ej_def)
  have h: "crear_tarea_programada ?d1 ?a2
             = (fst (crear_tarea_programada ?d1 ?a2), Inr (tarea_ej (Some ''SWX0000001'') None, False))"
    using s by (simp add: prod_eq_iff)
  from links_replaced[OF h] show ?thesis
    by (simp add: tarea_ej_def args_ej_def)
qed

text \<open>
  C9. The upsert has no handler for the violation of \<open>uix_carrier_interno\<close>. When another
  writer stores a task with the same pair after the lookup of lines 832-840 and before
  the commit of line 860, the insert is refused and the error reaches the caller. Here
  the lookup runs on the store \<open>db_ej\<close>, and the insert on the store the other writer
  left.
\<close>

theorem upsert_race_surfaces:
  "buscar_tarea db_ej (args_ej [] (Some ''SWX0000001'') None) = None \<and>
   guardar_tarea
     (db_ej\<lparr>tareas_programadas := [tarea_ej (Some ''SWX0000001'') (Some ''otro'')]\<rparr>)
     (buscar_tarea db_ej (args_ej [] (Some ''SWX0000001'') None))
     (args_ej [] (Some ''SWX0000001'') None)
     = Inl IntegrityError"
  by (simp add: db_ej_def db_vacia_def args_ej_def tarea_ej_def buscar_tarea_def
      guardar_tarea_def Let_def choca_uix_carrier_interno_def)

section \<open>Facts about the matcher\<close>

lemma in_class_sin_flags [simp]:
  "in_class sin_flags items c = list_ex (\<lambda>i. citem_has i c) items"
  by (simp add: in_class_def sin_flags_def)

lemma concat_map_concat: "concat (map f (concat xss)) = concat (map (\<lambda>xs. concat (map f xs)) xss)"
  by (induction xss) auto

lemma concat_map_single: "concat (map (\<lambda>x. [x]) xs) = xs"
  by (induction xs) auto

lemma rx_run_Seq_A:
  "rx_run fl (Seq (A a) r) (p, s, g) =
     (case s of [] \<Rightarrow> [] | c # s' \<Rightarrow> if atom_ok fl a c then rx_run fl r (Some c, s', g) else [])"
  by (cases s) auto

lemma rx_run_Seq_Seq: "rx_run fl (Seq (Seq r1 r2) r3) st = rx_run fl (Seq r1 (Seq r2 r3)) st"
proof -
  have e: "rx_run fl (Seq r2 r3) = (\<lambda>x. concat (map (rx_run fl r3) (rx_run fl r2 x)))"
    by (rule ext) simp
  show ?thesis by (simp add: concat_map_concat e comp_def)
qed

lemma rx_run_Seq_Eps: "rx_run fl (Seq Eps r) st = rx_run fl r st"
  by simp

lemma rx_run_Seq_Eps2: "rx_run fl (Seq r Eps) st = rx_run fl r st"
proof -
  have e: "rx_run fl Eps = (\<lambda>x. [x])"
    by (rule ext) simp
  show ?thesis by (simp add: concat_map_single e)
qed

lemmas rx_norm = rx_run_Seq_Seq rx_run_Seq_Eps rx_run_Seq_Eps2 rx_run_Seq_A rx_run.simps(1)

subsection \<open>What the matcher finds\<close>

lemma restos_simps [simp]:
  "restos [] = {}"
  "restos ((p, s, g) # sts) = insert s (restos sts)"
  "restos (xs @ ys) = restos xs \<union> restos ys"
  by (auto simp: restos_def)

lemma restos_concat: "restos (concat xss) = (\<Union>xs \<in> set xss. restos xs)"
  by (induction xss) auto

lemma restos_star:
  "s' \<in> restos (star_run fl a g p s) \<longleftrightarrow> (\<exists>w. s = w @ s' \<and> list_all (atom_ok fl a) w)"
proof (induction s arbitrary: p)
  case Nil
  then show ?case by auto
next
  case (Cons c s)
  show ?case
  proof
    assume "s' \<in> restos (star_run fl a g p (c # s))"
    then consider "atom_ok fl a c" "s' \<in> restos (star_run fl a g (Some c) s)" | "s' = c # s"
      by (auto split: if_splits)
    then show "\<exists>w. c # s = w @ s' \<and> list_all (atom_ok fl a) w"
    proof cases
      case 1
      from 1(2) Cons.IH[of "Some c"] obtain w where "s = w @ s'" "list_all (atom_ok fl a) w" by blast
      with 1(1) have "c # s = (c # w) @ s' \<and> list_all (atom_ok fl a) (c # w)" by simp
      then show ?thesis by blast
    next
      case 2
      then have "c # s = [] @ s' \<and> list_all (atom_ok fl a) []" by simp
      then show ?thesis by blast
    qed
  next
    assume "\<exists>w. c # s = w @ s' \<and> list_all (atom_ok fl a) w"
    then obtain w where w: "c # s = w @ s'" "list_all (atom_ok fl a) w" by blast
    show "s' \<in> restos (star_run fl a g p (c # s))"
    proof (cases w)
      case Nil
      with w have e: "s' = c # s" by simp
      have "c # s \<in> restos (star_run fl a g p (c # s))" by simp
      then show ?thesis unfolding e .
    next
      case (Cons x w')
      with w have "x = c" "s = w' @ s'" "atom_ok fl a c" "list_all (atom_ok fl a) w'" by simp_all
      then have "s' \<in> restos (star_run fl a g (Some c) s)"
        using Cons.IH[of "Some c"] by blast
      with \<open>atom_ok fl a c\<close> show ?thesis by simp
    qed
  qed
qed

lemma restos_lang:
  "sin_bnd r \<Longrightarrow> s' \<in> restos (rx_run fl r (p, s, g)) \<longleftrightarrow> (\<exists>w \<in> lang fl r. s = w @ s')"
proof (induction r arbitrary: p s g s')
  case Eps
  then show ?case by auto
next
  case (A a)
  then show ?case by (cases s) auto
next
  case (Star a)
  show ?case using restos_star[of s' fl a g p s] by auto
next
  case (Plus a)
  show ?case
  proof (cases s)
    case Nil
    then show ?thesis by auto
  next
    case (Cons c t)
    have "s' \<in> restos (rx_run fl (Plus a) (p, s, g)) \<longleftrightarrow>
            atom_ok fl a c \<and> (\<exists>w. t = w @ s' \<and> list_all (atom_ok fl a) w)"
      by (simp add: Cons restos_star)
    also have "\<dots> \<longleftrightarrow> (\<exists>w. w \<noteq> [] \<and> list_all (atom_ok fl a) w \<and> s = w @ s')"
    proof
      assume "atom_ok fl a c \<and> (\<exists>w. t = w @ s' \<and> list_all (atom_ok fl a) w)"
      then obtain w where "atom_ok fl a c" "t = w @ s'" "list_all (atom_ok fl a) w" by blast
      then have "c # w \<noteq> [] \<and> list_all (atom_ok fl a) (c # w) \<and> s = (c # w) @ s'"
        by (simp add: Cons)
      then show "\<exists>w. w \<noteq> [] \<and> list_all (atom_ok fl a) w \<and> s = w @ s'" by blast
    next
      assume "\<exists>w. w \<noteq> [] \<and> list_all (atom_ok fl a) w \<and> s = w @ s'"
      then obtain w where w: "w \<noteq> []" "list_all (atom_ok fl a) w" "s = w @ s'" by blast
      then obtain x w' where "w = x # w'" by (cases w) auto
      with w Cons show "atom_ok fl a c \<and> (\<exists>w. t = w @ s' \<and> list_all (atom_ok fl a) w)"
        by auto
    qed
    finally show ?thesis by auto
  qed
next
  case (Seq r1 r2)
  from Seq.prems have b1: "sin_bnd r1" and b2: "sin_bnd r2" by simp_all
  have "s' \<in> restos (rx_run fl (Seq r1 r2) (p, s, g)) \<longleftrightarrow>
          (\<exists>st \<in> set (rx_run fl r1 (p, s, g)). s' \<in> restos (rx_run fl r2 st))"
    by (simp add: restos_concat)
  also have "\<dots> \<longleftrightarrow> (\<exists>st \<in> set (rx_run fl r1 (p, s, g)). \<exists>v \<in> lang fl r2. fst (snd st) = v @ s')"
  proof -
    have "s' \<in> restos (rx_run fl r2 st) \<longleftrightarrow> (\<exists>v \<in> lang fl r2. fst (snd st) = v @ s')" for st
      using Seq.IH(2)[OF b2, of s' "fst st" "fst (snd st)" "snd (snd st)"] by simp
    then show ?thesis by simp
  qed
  also have "\<dots> \<longleftrightarrow> (\<exists>s1 \<in> restos (rx_run fl r1 (p, s, g)). \<exists>v \<in> lang fl r2. s1 = v @ s')"
    by (auto simp: restos_def)
  also have "\<dots> \<longleftrightarrow> (\<exists>s1. (\<exists>u \<in> lang fl r1. s = u @ s1) \<and> (\<exists>v \<in> lang fl r2. s1 = v @ s'))"
    using Seq.IH(1)[OF b1, of _ p s g] by auto
  also have "\<dots> \<longleftrightarrow> (\<exists>w \<in> lang fl (Seq r1 r2). s = w @ s')"
  proof
    assume "\<exists>s1. (\<exists>u \<in> lang fl r1. s = u @ s1) \<and> (\<exists>v \<in> lang fl r2. s1 = v @ s')"
    then obtain u v where "u \<in> lang fl r1" "v \<in> lang fl r2" "s = u @ v @ s'" by blast
    then have "u @ v \<in> lang fl (Seq r1 r2) \<and> s = (u @ v) @ s'" by auto
    then show "\<exists>w \<in> lang fl (Seq r1 r2). s = w @ s'" by blast
  next
    assume "\<exists>w \<in> lang fl (Seq r1 r2). s = w @ s'"
    then obtain u v where uv: "u \<in> lang fl r1" "v \<in> lang fl r2" "s = (u @ v) @ s'" by auto
    then have "(\<exists>u' \<in> lang fl r1. s = u' @ (v @ s')) \<and> (\<exists>v' \<in> lang fl r2. v @ s' = v' @ s')"
      by auto
    then show "\<exists>s1. (\<exists>u \<in> lang fl r1. s = u @ s1) \<and> (\<exists>v \<in> lang fl r2. s1 = v @ s')"
      by blast
  qed
  finally show ?case .
next
  case (Alt r1 r2)
  then show ?case by auto
next
  case (Opt r)
  then show ?case by auto
next
  case (Grp r)
  from Grp.prems have b: "sin_bnd r" by simp
  have "restos (rx_run fl (Grp r) (p, s, g)) = restos (rx_run fl r (p, s, g))"
    by (auto simp: restos_def image_iff split: prod.splits) (metis fst_conv snd_conv)+
  with Grp.IH[OF b] show ?case by simp
next
  case Bnd
  then show ?case by simp
qed

lemma match_lang:
  "sin_bnd r \<Longrightarrow> re_match_at fl r p s \<noteq> None \<longleftrightarrow> (\<exists>w post. s = w @ post \<and> w \<in> lang fl r)"
proof -
  assume b: "sin_bnd r"
  have "re_match_at fl r p s \<noteq> None \<longleftrightarrow> rx_run fl r (p, s, []) \<noteq> []"
    by (auto simp: re_match_at_def split: list.splits)
  also have "\<dots> \<longleftrightarrow> (\<exists>s'. s' \<in> restos (rx_run fl r (p, s, [])))"
    by (cases "rx_run fl r (p, s, [])") (auto simp: restos_def)
  also have "\<dots> \<longleftrightarrow> (\<exists>s'. \<exists>w \<in> lang fl r. s = w @ s')"
    using restos_lang[OF b, of _ fl p s "[]"] by simp
  also have "\<dots> \<longleftrightarrow> (\<exists>w post. s = w @ post \<and> w \<in> lang fl r)"
    by blast
  finally show ?thesis .
qed

lemma search_at_lang:
  "sin_bnd r \<Longrightarrow>
   re_search_at fl r p s \<noteq> None \<longleftrightarrow> (\<exists>pre w post. s = pre @ w @ post \<and> w \<in> lang fl r)"
proof (induction s arbitrary: p)
  case Nil
  show ?case using match_lang[OF Nil, of fl p "[]"] by simp
next
  case (Cons c s)
  have m: "re_match_at fl r p (c # s) \<noteq> None \<longleftrightarrow> (\<exists>w post. c # s = w @ post \<and> w \<in> lang fl r)"
    by (rule match_lang[OF Cons.prems])
  have ih: "re_search_at fl r (Some c) s \<noteq> None \<longleftrightarrow> (\<exists>pre w post. s = pre @ w @ post \<and> w \<in> lang fl r)"
    by (rule Cons.IH[OF Cons.prems])
  have "re_search_at fl r p (c # s) \<noteq> None \<longleftrightarrow>
          re_match_at fl r p (c # s) \<noteq> None \<or> re_search_at fl r (Some c) s \<noteq> None"
    by (cases "re_match_at fl r p (c # s)") simp_all
  also have "\<dots> \<longleftrightarrow> (\<exists>w post. c # s = w @ post \<and> w \<in> lang fl r) \<or>
                     (\<exists>pre w post. s = pre @ w @ post \<and> w \<in> lang fl r)"
    unfolding m ih ..
  also have "\<dots> \<longleftrightarrow> (\<exists>pre w post. c # s = pre @ w @ post \<and> w \<in> lang fl r)"
  proof
    assume "(\<exists>w post. c # s = w @ post \<and> w \<in> lang fl r) \<or>
            (\<exists>pre w post. s = pre @ w @ post \<and> w \<in> lang fl r)"
    then show "\<exists>pre w post. c # s = pre @ w @ post \<and> w \<in> lang fl r"
    proof
      assume "\<exists>w post. c # s = w @ post \<and> w \<in> lang fl r"
      then obtain w post where "c # s = [] @ w @ post \<and> w \<in> lang fl r" by auto
      then show ?thesis by blast
    next
      assume "\<exists>pre w post. s = pre @ w @ post \<and> w \<in> lang fl r"
      then obtain pre w post where "c # s = (c # pre) @ w @ post \<and> w \<in> lang fl r" by auto
      then show ?thesis by blast
    qed
  next
    assume "\<exists>pre w post. c # s = pre @ w @ post \<and> w \<in> lang fl r"
    then obtain pre w post where e: "c # s = pre @ w @ post" and w: "w \<in> lang fl r" by blast
    show "(\<exists>w post. c # s = w @ post \<and> w \<in> lang fl r) \<or>
            (\<exists>pre w post. s = pre @ w @ post \<and> w \<in> lang fl r)"
    proof (cases pre)
      case Nil
      with e w show ?thesis by auto
    next
      case (Cons x pre')
      with e have "s = pre' @ w @ post" by simp
      with w show ?thesis by blast
    qed
  qed
  finally show ?case .
qed

lemma search_lang:
  "sin_bnd r \<Longrightarrow>
   re_search fl r s \<noteq> None \<longleftrightarrow> (\<exists>pre w post. s = pre @ w @ post \<and> w \<in> lang fl r)"
  unfolding re_search_def by (rule search_at_lang)

text \<open>characters\<close>

lemma codigo_char_of: "0 \<le> n \<Longrightarrow> n < 256 \<Longrightarrow> codigo (char_of n) = n"
  by (simp add: codigo_def)

lemma codigo_rango: "0 \<le> codigo c \<and> codigo c < 256"
proof -
  have b: "0 \<le> x mod 256 \<and> x mod 256 < 256" for x :: int by simp
  from b[of "of_char c"] show ?thesis by (simp add: codigo_def)
qed

lemma codigo_inj: "codigo c = codigo d \<longleftrightarrow> c = d"
  by (simp add: codigo_def)

lemma en_lista:
  "c \<in> set s \<longleftrightarrow> codigo c \<in> set (map codigo s)"
  by (auto simp: codigo_inj)

lemma is_space_iff:
  "is_space c \<longleftrightarrow>
     c \<in> set [CHR 0x09, CHR 0x0A, CHR 0x0B, CHR 0x0C, CHR 0x0D, CHR 0x1C, CHR 0x1D, CHR 0x1E,
              CHR 0x1F, CHR 0x20, CHR 0x85, CHR 0xA0]"
proof -
  have m: "map codigo [CHR 0x09, CHR 0x0A, CHR 0x0B, CHR 0x0C, CHR 0x0D, CHR 0x1C, CHR 0x1D, CHR 0x1E,
              CHR 0x1F, CHR 0x20, CHR 0x85, CHR 0xA0] = [9, 10, 11, 12, 13, 28, 29, 30, 31, 32, 133, 160]"
    by (simp add: codigo_def)
  have "is_space c \<longleftrightarrow> codigo c \<in> set [9, 10, 11, 12, 13, 28, 29, 30, 31, 32, 133, 160]"
    unfolding is_space_def Let_def by simp arith
  then show ?thesis unfolding en_lista[of c] m .
qed

lemma is_linebreak_iff:
  "is_linebreak c \<longleftrightarrow>
     c \<in> set [CHR 0x0A, CHR 0x0B, CHR 0x0C, CHR 0x0D, CHR 0x1C, CHR 0x1D, CHR 0x1E, CHR 0x85]"
proof -
  have m: "map codigo [CHR 0x0A, CHR 0x0B, CHR 0x0C, CHR 0x0D, CHR 0x1C, CHR 0x1D, CHR 0x1E, CHR 0x85]
             = [10, 11, 12, 13, 28, 29, 30, 133]"
    by (simp add: codigo_def)
  have "is_linebreak c \<longleftrightarrow> codigo c \<in> set [10, 11, 12, 13, 28, 29, 30, 133]"
    unfolding is_linebreak_def Let_def by simp arith
  then show ?thesis unfolding en_lista[of c] m .
qed

lemma upper_no_lower: "is_upper c \<Longrightarrow> \<not> is_lower c"
  by (auto simp: is_upper_def is_lower_def Let_def)

lemma upper_char_is_upper: "is_lower c \<Longrightarrow> is_upper (upper_char c)"
  by (auto simp: is_upper_def is_lower_def upper_char_def Let_def codigo_char_of)

lemma lower_char_no_upper: "\<not> is_upper (lower_char c)"
  by (auto simp: is_upper_def lower_char_def Let_def codigo_char_of)

lemma in_class_I_Ch:
  assumes "\<not> is_upper c0"
  shows "in_class flag_I [Ch c0] x \<longleftrightarrow> lower_char x = c0"
proof -
  have e: "in_class flag_I [Ch c0] x \<longleftrightarrow> x = c0 \<or> lower_char x = c0 \<or> upper_char x = c0"
    by (simp add: in_class_def flag_I_def)
  show ?thesis
  proof (cases "is_upper x")
    case True
    then have "x \<noteq> c0" using assms by auto
    moreover from True have "upper_char x = x" by (simp add: upper_char_def upper_no_lower)
    ultimately show ?thesis unfolding e by simp
  next
    case False
    then have l: "lower_char x = x" by (simp add: lower_char_def)
    show ?thesis
    proof (cases "is_lower x")
      case True
      then have "upper_char x \<noteq> c0" using upper_char_is_upper[OF True] assms by auto
      then show ?thesis unfolding e l by simp
    next
      case False
      then have "upper_char x = x" by (simp add: upper_char_def)
      then show ?thesis unfolding e l by simp
    qed
  qed
qed

lemma lang_lit_I:
  "list_all (\<lambda>c. \<not> is_upper c) w0 \<Longrightarrow> lang flag_I (lit w0) = {w. lower w = w0}"
proof (induction w0)
  case Nil
  then show ?case by (simp add: lit_def lower_def)
next
  case (Cons c cs)
  from Cons.prems have c: "\<not> is_upper c" and cs: "list_all (\<lambda>c. \<not> is_upper c) cs" by simp_all
  have l: "lit (c # cs) = Seq (A (One [Ch c])) (lit cs)" by (simp add: lit_def)
  show ?case
  proof (rule set_eqI)
    fix w
    have "w \<in> lang flag_I (lit (c # cs)) \<longleftrightarrow>
            (\<exists>u v. w = u @ v \<and> (\<exists>x. u = [x] \<and> lower_char x = c) \<and> lower v = cs)"
      unfolding l using Cons.IH[OF cs] by (simp add: in_class_I_Ch[OF c])
    also have "\<dots> \<longleftrightarrow> (\<exists>x v. w = x # v \<and> lower_char x = c \<and> lower v = cs)"
    proof
      assume "\<exists>u v. w = u @ v \<and> (\<exists>x. u = [x] \<and> lower_char x = c) \<and> lower v = cs"
      then obtain u v x where "w = u @ v" "u = [x]" "lower_char x = c" "lower v = cs" by blast
      then have "w = x # v \<and> lower_char x = c \<and> lower v = cs" by simp
      then show "\<exists>x v. w = x # v \<and> lower_char x = c \<and> lower v = cs" by blast
    next
      assume "\<exists>x v. w = x # v \<and> lower_char x = c \<and> lower v = cs"
      then obtain x v where "w = x # v" "lower_char x = c" "lower v = cs" by blast
      then have "w = [x] @ v \<and> (\<exists>y. [x] = [y] \<and> lower_char y = c) \<and> lower v = cs" by simp
      then show "\<exists>u v. w = u @ v \<and> (\<exists>x. u = [x] \<and> lower_char x = c) \<and> lower v = cs" by blast
    qed
    also have "\<dots> \<longleftrightarrow> lower w = c # cs"
      by (cases w) (auto simp: lower_def)
    finally show "w \<in> lang flag_I (lit (c # cs)) \<longleftrightarrow> w \<in> {w. lower w = c # cs}" by simp
  qed
qed

section \<open>The filter of identifiers\<close>

lemma fullmatch_4_digitos:
  "re_fullmatch sin_flags patron_4_digitos i \<longleftrightarrow> length i = 4 \<and> list_all is_digit i"
  unfolding re_fullmatch_def patron_4_digitos_def
  apply (simp add: eval_nat_numeral rx_norm del: rx_run.simps)
  apply (auto split: list.splits if_splits)
  done

lemma fullmatch_crt:
  "re_fullmatch sin_flags patron_crt i \<longleftrightarrow>
     (\<exists>ds. i = ''CRT-'' @ ds \<and> length ds = 6 \<and> list_all is_digit ds)"
  unfolding re_fullmatch_def patron_crt_def seqs_def lit_def
  apply (simp add: eval_nat_numeral rx_norm del: rx_run.simps)
  apply (auto split: list.splits if_splits)
  done

lemma foldl_partition:
  assumes "\<And>f d i. paso (f, d) i = (if P i then (f @ [i], d) else (f, d @ [i]))"
  shows "foldl paso (f, d) ids = (f @ filter P ids, d @ filter (\<lambda>i. \<not> P i) ids)"
  by (induction ids arbitrary: f d) (simp_all add: assms)

lemma es_telxius_iff: "es_telxius c \<longleftrightarrow> (\<exists>n. c = Some n \<and> upper n = puntos ''TELXIUS'')"
  by (cases c) (auto simp: es_telxius_def upper_def puntos_def)

lemma upper_puntos_letra:
  assumes "65 \<le> codigo u" "codigo u \<le> 90" "codigo l = codigo u + 32"
  shows "upper_puntos c = [codigo u] \<longleftrightarrow> c = u \<or> c = l"
proof -
  have "upper_puntos c = [codigo u] \<longleftrightarrow> codigo c = codigo u \<or> codigo c = codigo l"
    using assms codigo_rango[of c]
    by (auto simp: upper_puntos_def upper_char_def is_lower_def Let_def codigo_char_of)
  then show ?thesis by (simp add: codigo_inj)
qed

lemma upper_puntos_formas:
  "upper_puntos c = [83, 83] \<or> (\<exists>x. upper_puntos c = [x])"
  by (simp add: upper_puntos_def Let_def)

lemma upper_eq_iff:
  assumes "list_all (\<lambda>p. 65 \<le> codigo (fst p) \<and> codigo (fst p) \<le> 90 \<and> codigo (snd p) = codigo (fst p) + 32) ps"
      and "distinct_adj (map fst ps)"
  shows "upper s = puntos (map fst ps) \<longleftrightarrow> list_all2 (\<lambda>c p. c = fst p \<or> c = snd p) s ps"
  using assms
proof (induction s arbitrary: ps)
  case Nil
  then show ?case by (auto simp: upper_def puntos_def)
next
  case (Cons c s)
  show ?case
  proof (cases ps)
    case Nil
    with upper_puntos_formas[of c] show ?thesis by (auto simp: upper_def puntos_def)
  next
    case ps: (Cons p ps')
    from Cons.prems ps have p: "65 \<le> codigo (fst p)" "codigo (fst p) \<le> 90" "codigo (snd p) = codigo (fst p) + 32"
      and ps': "list_all (\<lambda>p. 65 \<le> codigo (fst p) \<and> codigo (fst p) \<le> 90 \<and> codigo (snd p) = codigo (fst p) + 32) ps'"
      and da: "distinct_adj (map fst ps')"
      by (auto simp: distinct_adj_Cons)
    note IH = Cons.IH[OF ps' da]
    note L = upper_puntos_letra[OF p, of c]
    have u: "upper (c # s) = upper_puntos c @ upper s" by (simp add: upper_def)
    from upper_puntos_formas[of c] show ?thesis
    proof
      assume ss: "upper_puntos c = [83, 83]"
      have "upper (c # s) \<noteq> puntos (map fst (p # ps'))"
      proof
        assume e: "upper (c # s) = puntos (map fst (p # ps'))"
        then have "codigo (fst p) = 83" and r: "83 # upper s = puntos (map fst ps')"
          by (simp_all add: u ss puntos_def)
        from r obtain q qs where q: "ps' = q # qs" and "codigo (fst q) = 83"
          by (cases ps') (auto simp: puntos_def)
        with \<open>codigo (fst p) = 83\<close> have "fst p = fst q" by (simp add: codigo_inj[symmetric])
        with Cons.prems(2) ps q show False by simp
      qed
      moreover from ss L have "\<not> (c = fst p \<or> c = snd p)" by auto
      ultimately show ?thesis by (simp add: ps)
    next
      assume "\<exists>x. upper_puntos c = [x]"
      then obtain x where x: "upper_puntos c = [x]" by blast
      have "upper (c # s) = puntos (map fst (p # ps')) \<longleftrightarrow> x = codigo (fst p) \<and> upper s = puntos (map fst ps')"
        by (simp add: u x puntos_def)
      also have "\<dots> \<longleftrightarrow> (c = fst p \<or> c = snd p) \<and> list_all2 (\<lambda>c p. c = fst p \<or> c = snd p) s ps'"
        using L x IH by auto
      finally show ?thesis by (simp add: ps)
    qed
  qed
qed

lemma upper_telxius:
  "upper n = puntos ''TELXIUS'' \<longleftrightarrow>
     list_all2 (\<lambda>c p. c = fst p \<or> c = snd p) n (zip ''TELXIUS'' ''telxius'')"
  using upper_eq_iff[of "zip ''TELXIUS'' ''telxius''" n] by (simp add: codigo_def)

lemma is_digit_iff: "is_digit c \<longleftrightarrow> c \<in> set ''0123456789''"
proof
  assume "is_digit c"
  then have "48 \<le> codigo c" "codigo c \<le> 57"
    by (simp_all add: is_digit_def Let_def)
  then have "codigo c = 48 \<or> codigo c = 49 \<or> codigo c = 50 \<or> codigo c = 51 \<or> codigo c = 52 \<or>
             codigo c = 53 \<or> codigo c = 54 \<or> codigo c = 55 \<or> codigo c = 56 \<or> codigo c = 57"
    by arith
  then have "codigo c \<in> {48, 49, 50, 51, 52, 53, 54, 55, 56, 57}"
    by simp
  then have "codigo c \<in> codigo ` set ''0123456789''"
    by (simp add: codigo_def)
  then show "c \<in> set ''0123456789''"
    by (auto simp: codigo_inj)
next
  assume "c \<in> set ''0123456789''"
  then show "is_digit c" by (auto simp: is_digit_def codigo_def)
qed

lemma is_digit_str_iff:
  "is_digit_str c \<longleftrightarrow> c \<in> set ''0123456789'' \<or> c \<in> {CHR 0xB2, CHR 0xB3, CHR 0xB9}"
proof -
  have "is_digit_str c \<longleftrightarrow> is_digit c \<or> codigo c \<in> codigo ` {CHR 0xB2, CHR 0xB3, CHR 0xB9}"
    by (auto simp: is_digit_str_def is_digit_def Let_def codigo_def)
  also have "\<dots> \<longleftrightarrow> is_digit c \<or> c \<in> {CHR 0xB2, CHR 0xB3, CHR 0xB9}"
    by (auto simp: codigo_inj)
  finally show ?thesis by (simp add: is_digit_iff)
qed

lemma isdigit_iff:
  "isdigit i \<longleftrightarrow>
     i \<noteq> [] \<and> list_all (\<lambda>c. c \<in> set ''0123456789'' \<or> c \<in> {CHR 0xB2, CHR 0xB3, CHR 0xB9}) i"
  unfolding isdigit_def is_digit_str_iff ..

lemma filtrar_ej_telxius:
  "filtrar_ids (Some ''TELXIUS'') [''CRT-000123'', ''76208''] = ([''CRT-000123''], [''76208''])"
  by code_simp

lemma filtrar_ej_telxius_minusculas:
  "filtrar_ids (Some ''Telxius'') [''CRT-000123'', ''crt-000124'', ''CRT-12345'']
     = ([''CRT-000123''], [''crt-000124'', ''CRT-12345''])"
  by code_simp

lemma filtrar_ej_otros:
  "filtrar_ids None [''1234'', ''123456''] = ([''123456''], [''1234''])"
  by code_simp

lemma filtrar_ej_superindice:
  "filtrar_ids None [''12'' @ [CHR 0xB2], ''12345'' @ [CHR 0xB2], ''AB-77''] =
     ([''12345'' @ [CHR 0xB2], ''AB-77''], [''12'' @ [CHR 0xB2]])"
  by code_simp

text \<open>
  C4. The pair returned is (kept, discarded), each in the order of the input. The name of
  the carrier equals TELXIUS without regard to case when it has seven characters, each the
  capital or the small letter of its place. Then an identifier is kept exactly when it is
  \<open>CRT-\<close> followed by six decimal digits. For any other name, and for no name, an
  identifier is discarded exactly when it is four decimal digits, or when it is purely
  numeric and shorter than six characters; purely numeric is \<open>str.isdigit\<close>: not empty
  and made of decimal digits and of the superscripts one, two and three, the digits
  Python knows among the characters of the model. The examples of the spec follow, the
  first also with the name in small letters.
\<close>

theorem filtrar_ids_spec:
  "filtrar_ids carrier_nombre ids =
     (if \<exists>n. carrier_nombre = Some n \<and>
              list_all2 (\<lambda>c p. c = fst p \<or> c = snd p) n (zip ''TELXIUS'' ''telxius'')
      then (filter (\<lambda>i. \<exists>ds. i = ''CRT-'' @ ds \<and> length ds = 6 \<and>
                            list_all (\<lambda>c. c \<in> set ''0123456789'') ds) ids,
            filter (\<lambda>i. \<not> (\<exists>ds. i = ''CRT-'' @ ds \<and> length ds = 6 \<and>
                               list_all (\<lambda>c. c \<in> set ''0123456789'') ds)) ids)
      else (filter (\<lambda>i. \<not> ((length i = 4 \<and> list_all (\<lambda>c. c \<in> set ''0123456789'') i) \<or>
                             (i \<noteq> [] \<and>
                              list_all (\<lambda>c. c \<in> set ''0123456789'' \<or>
                                            c \<in> {CHR 0xB2, CHR 0xB3, CHR 0xB9}) i \<and>
                              length i < 6))) ids,
            filter (\<lambda>i. (length i = 4 \<and> list_all (\<lambda>c. c \<in> set ''0123456789'') i) \<or>
                          (i \<noteq> [] \<and>
                           list_all (\<lambda>c. c \<in> set ''0123456789'' \<or>
                                         c \<in> {CHR 0xB2, CHR 0xB3, CHR 0xB9}) i \<and>
                           length i < 6)) ids)) \<and>
   filtrar_ids (Some ''TELXIUS'') [''CRT-000123'', ''76208''] = ([''CRT-000123''], [''76208'']) \<and>
   filtrar_ids (Some ''telxius'') [''CRT-000123'', ''76208''] = ([''CRT-000123''], [''76208'']) \<and>
   filtrar_ids None [''1234'', ''123456''] = ([''123456''], [''1234''])"
proof -
  let ?dig = "\<lambda>c. c \<in> set ''0123456789''"
  let ?crt = "\<lambda>i. \<exists>ds. i = ''CRT-'' @ ds \<and> length ds = 6 \<and> list_all ?dig ds"
  let ?corto = "\<lambda>i. (length i = 4 \<and> list_all ?dig i) \<or>
                     (i \<noteq> [] \<and> list_all (\<lambda>c. ?dig c \<or> c \<in> {CHR 0xB2, CHR 0xB3, CHR 0xB9}) i \<and>
                      length i < 6)"
  let ?telxius = "\<exists>n. carrier_nombre = Some n \<and>
                      list_all2 (\<lambda>c p. c = fst p \<or> c = snd p) n (zip ''TELXIUS'' ''telxius'')"
  have d: "is_digit = ?dig"
    by (rule ext) (rule is_digit_iff)
  have t: "foldl paso_telxius ([], []) ids = ([] @ filter ?crt ids, [] @ filter (\<lambda>i. \<not> ?crt i) ids)"
    by (rule foldl_partition) (simp add: paso_telxius_def fullmatch_crt d)
  have o: "foldl paso_otros ([], []) ids
             = ([] @ filter (\<lambda>i. \<not> ?corto i) ids, [] @ filter (\<lambda>i. \<not> \<not> ?corto i) ids)"
    by (rule foldl_partition) (auto simp: paso_otros_def fullmatch_4_digitos d isdigit_iff)
  have e: "es_telxius carrier_nombre \<longleftrightarrow> ?telxius"
    unfolding es_telxius_iff upper_telxius ..
  have "filtrar_ids carrier_nombre ids =
     (if ?telxius then (filter ?crt ids, filter (\<lambda>i. \<not> ?crt i) ids)
      else (filter (\<lambda>i. \<not> ?corto i) ids, filter ?corto ids))"
  proof (cases "es_telxius carrier_nombre")
    case True
    then have "filtrar_ids carrier_nombre ids = (filter ?crt ids, filter (\<lambda>i. \<not> ?crt i) ids)"
      using t by (simp only: filtrar_ids_def if_True append_Nil)
    moreover from True have ?telxius
      unfolding e .
    ultimately show ?thesis by (simp only: if_True)
  next
    case False
    then have "filtrar_ids carrier_nombre ids = (filter (\<lambda>i. \<not> ?corto i) ids, filter ?corto ids)"
      using o by (simp only: filtrar_ids_def if_False append_Nil not_not)
    moreover from False have "\<not> ?telxius"
      unfolding e .
    ultimately show ?thesis by (simp only: if_False)
  qed
  moreover have "filtrar_ids (Some ''telxius'') [''CRT-000123'', ''76208''] = ([''CRT-000123''], [''76208''])"
    by code_simp
  ultimately show ?thesis
    using filtrar_ej_telxius filtrar_ej_otros by (intro conjI)
qed

section \<open>The resolution of identifiers\<close>









lemma superindice_hechos:
  "fst (filtrar_ids None [''12345'' @ [CHR 0xB2]]) = [''12345'' @ [CHR 0xB2]]"
  "isdigit (''12345'' @ [CHR 0xB2])"
  "servicio_por_id_carrier db_res (''12345'' @ [CHR 0xB2]) = None"
  by code_simp+




section \<open>The fast path\<close>

subsection \<open>The groups of a match\<close>

lemma star_run_grupos:
  "(p', s', g') \<in> set (star_run fl a g p s) \<Longrightarrow>
     g' = g \<and> (\<exists>w. s = w @ s' \<and> list_all (atom_ok fl a) w)"
proof (induction s arbitrary: p)
  case Nil
  then show ?case by simp
next
  case (Cons c s)
  from Cons.prems consider
      (a) "atom_ok fl a c" "(p', s', g') \<in> set (star_run fl a g (Some c) s)"
    | (b) "(p', s', g') = (p, c # s, g)"
    by (auto split: if_splits)
  then show ?case
  proof cases
    case a
    from Cons.IH[OF a(2)] obtain w where "g' = g" "s = w @ s'" "list_all (atom_ok fl a) w" by blast
    with a(1) have "c # s = (c # w) @ s' \<and> list_all (atom_ok fl a) (c # w)" by simp
    with \<open>g' = g\<close> show ?thesis by blast
  next
    case b
    then have "c # s = [] @ s' \<and> list_all (atom_ok fl a) []" by simp
    with b show ?thesis by blast
  qed
qed

lemma rx_run_grupos:
  "sin_bnd r \<Longrightarrow> (p', s', g') \<in> set (rx_run fl r (p, s, g)) \<Longrightarrow>
     \<exists>w gs. s = w @ s' \<and> g' = g @ gs \<and> (w, gs) \<in> langg fl r"
proof (induction r arbitrary: p s g p' s' g')
  case Eps
  then show ?case by simp
next
  case (A a)
  then show ?case by (auto split: list.splits if_splits)
next
  case (Star a)
  from Star.prems(2) have "(p', s', g') \<in> set (star_run fl a g p s)" by simp
  from star_run_grupos[OF this] show ?case by auto
next
  case (Plus a)
  from Plus.prems(2) obtain c s0 where s: "s = c # s0" and ok: "atom_ok fl a c"
    and m: "(p', s', g') \<in> set (star_run fl a g (Some c) s0)"
    by (auto split: list.splits if_splits)
  from star_run_grupos[OF m] obtain w where "g' = g" "s0 = w @ s'" "list_all (atom_ok fl a) w"
    by blast
  with s ok have "s = (c # w) @ s' \<and> g' = g @ [] \<and> c # w \<noteq> [] \<and> list_all (atom_ok fl a) (c # w)"
    by simp
  then show ?case by auto
next
  case (Seq r1 r2)
  from Seq.prems have b1: "sin_bnd r1" and b2: "sin_bnd r2" by simp_all
  from Seq.prems(2) obtain st where st: "st \<in> set (rx_run fl r1 (p, s, g))"
    and m: "(p', s', g') \<in> set (rx_run fl r2 st)"
    by auto
  obtain p1 s1 g1 where st1: "st = (p1, s1, g1)" by (cases st)
  from Seq.IH(1)[OF b1 st[unfolded st1]] obtain u gu where
    u: "s = u @ s1" "g1 = g @ gu" "(u, gu) \<in> langg fl r1" by blast
  from Seq.IH(2)[OF b2 m[unfolded st1]] obtain v gv where
    v: "s1 = v @ s'" "g' = g1 @ gv" "(v, gv) \<in> langg fl r2" by blast
  from u v have "s = (u @ v) @ s' \<and> g' = g @ (gu @ gv) \<and> (u @ v, gu @ gv) \<in> langg fl (Seq r1 r2)"
    by auto
  then show ?case by blast
next
  case (Alt r1 r2)
  from Alt.prems(2) consider "(p', s', g') \<in> set (rx_run fl r1 (p, s, g))"
    | "(p', s', g') \<in> set (rx_run fl r2 (p, s, g))" by auto
  then show ?case
  proof cases
    case 1
    from Alt.IH(1)[OF _ 1] Alt.prems(1) show ?thesis by auto
  next
    case 2
    from Alt.IH(2)[OF _ 2] Alt.prems(1) show ?thesis by auto
  qed
next
  case (Opt r)
  from Opt.prems(2) consider "(p', s', g') \<in> set (rx_run fl r (p, s, g))"
    | "(p', s', g') = (p, s, g)" by auto
  then show ?case
  proof cases
    case 1
    from Opt.IH[OF _ 1] Opt.prems(1) show ?thesis by auto
  next
    case 2
    then have "s = [] @ s' \<and> g' = g @ [] \<and> ([], []) \<in> langg fl (Opt r)" by simp
    then show ?thesis by blast
  qed
next
  case (Grp r)
  from Grp.prems(2) obtain g0 where m: "(p', s', g0) \<in> set (rx_run fl r (p, s, g))"
    and g': "g' = g0 @ [take (length s - length s') s]"
    by auto
  from Grp.IH[OF _ m] Grp.prems(1) obtain w gs where
    w: "s = w @ s'" "g0 = g @ gs" "(w, gs) \<in> langg fl r" by auto
  from w(1) have "take (length s - length s') s = w" by simp
  with g' w have "s = w @ s' \<and> g' = g @ (gs @ [w]) \<and> (w, gs @ [w]) \<in> langg fl (Grp r)"
    by simp
  then show ?case by blast
next
  case Bnd
  then show ?case by simp
qed

lemma match_grupos:
  assumes "sin_bnd r" "re_match_at fl r p s = Some m"
  shows "\<exists>w. s = w @ m_resto m \<and> m_desde m = s \<and> (w, m_grupos m) \<in> langg fl r"
proof -
  from assms(2) obtain p' s' g' rest where
    r: "rx_run fl r (p, s, []) = (p', s', g') # rest"
    and m: "m = \<lparr>m_desde = s, m_resto = s', m_grupos = g'\<rparr>"
    by (auto simp: re_match_at_def split: list.splits)
  from r have "(p', s', g') \<in> set (rx_run fl r (p, s, []))" by simp
  from rx_run_grupos[OF assms(1) this] m show ?thesis by auto
qed

lemma search_at_grupos:
  assumes "sin_bnd r"
  shows "re_search_at fl r p s = Some m \<Longrightarrow>
     \<exists>pre w. s = pre @ w @ m_resto m \<and> m_desde m = w @ m_resto m \<and> (w, m_grupos m) \<in> langg fl r"
proof (induction s arbitrary: p)
  case Nil
  then have "re_match_at fl r p [] = Some m" by simp
  from match_grupos[OF assms this] obtain w where
    "[] = w @ m_resto m" "m_desde m = []" "(w, m_grupos m) \<in> langg fl r" by blast
  then have "[] = [] @ w @ m_resto m \<and> m_desde m = w @ m_resto m \<and> (w, m_grupos m) \<in> langg fl r"
    by simp
  then show ?case by blast
next
  case (Cons c s)
  show ?case
  proof (cases "re_match_at fl r p (c # s)")
    case (Some m0)
    with Cons.prems have "m0 = m" by simp
    with Some match_grupos[OF assms, of fl p "c # s" m] obtain w where
      "c # s = w @ m_resto m" "m_desde m = c # s" "(w, m_grupos m) \<in> langg fl r" by blast
    then have "c # s = [] @ w @ m_resto m \<and> m_desde m = w @ m_resto m \<and> (w, m_grupos m) \<in> langg fl r"
      by simp
    then show ?thesis by blast
  next
    case None
    with Cons.prems have "re_search_at fl r (Some c) s = Some m" by simp
    from Cons.IH[OF this] obtain pre w where
      "s = pre @ w @ m_resto m" "m_desde m = w @ m_resto m" "(w, m_grupos m) \<in> langg fl r" by blast
    then have "c # s = (c # pre) @ w @ m_resto m \<and> m_desde m = w @ m_resto m \<and> (w, m_grupos m) \<in> langg fl r"
      by simp
    then show ?thesis by blast
  qed
qed

lemma search_grupos:
  assumes "sin_bnd r" "re_search fl r s = Some m"
  shows "\<exists>pre w post. s = pre @ w @ post \<and> (w, m_grupos m) \<in> langg fl r"
  using search_at_grupos[OF assms(1), of fl None s m] assms(2) unfolding re_search_def by blast

lemma lang_langg: "w \<in> lang fl r \<longleftrightarrow> (\<exists>gs. (w, gs) \<in> langg fl r)"
proof (induction r arbitrary: w)
  case (Seq r1 r2)
  have "w \<in> lang fl (Seq r1 r2) \<longleftrightarrow>
          (\<exists>u v. w = u @ v \<and> (\<exists>gu. (u, gu) \<in> langg fl r1) \<and> (\<exists>gv. (v, gv) \<in> langg fl r2))"
    by (simp add: Seq.IH)
  also have "\<dots> \<longleftrightarrow> (\<exists>gs. (w, gs) \<in> langg fl (Seq r1 r2))"
    by simp blast
  finally show ?case .
next
  case (Alt r1 r2)
  then show ?case by simp blast
next
  case (Opt r)
  then show ?case by simp blast
next
  case (Grp r)
  then show ?case by simp
qed simp_all

lemma langg_sin_grp: "sin_grp r \<Longrightarrow> (w, gs) \<in> langg fl r \<longleftrightarrow> gs = [] \<and> w \<in> lang fl r"
proof (induction r arbitrary: w gs)
  case (Seq r1 r2)
  then have 1: "\<And>w gs. (w, gs) \<in> langg fl r1 \<longleftrightarrow> gs = [] \<and> w \<in> lang fl r1"
    and 2: "\<And>w gs. (w, gs) \<in> langg fl r2 \<longleftrightarrow> gs = [] \<and> w \<in> lang fl r2"
    by simp_all
  show ?case by (simp add: 1 2) blast
next
  case (Alt r1 r2)
  then show ?case by simp blast
next
  case (Opt r)
  then show ?case by simp blast
qed auto

lemma sin_grp_lit: "sin_grp (lit s)"
  by (induction s) (simp_all add: lit_def)

lemma sin_bnd_lit: "sin_bnd (lit s)"
  by (induction s) (simp_all add: lit_def)

subsection \<open>The classes under \<open>re.I\<close>\<close>

lemma is_space_lower_char: "is_space (lower_char x) \<longleftrightarrow> is_space x"
  by (auto simp: is_space_def lower_char_def is_upper_def Let_def codigo_char_of)

lemma is_space_upper_char: "is_space (upper_char x) \<longleftrightarrow> is_space x"
  by (auto simp: is_space_def upper_char_def is_lower_def Let_def codigo_char_of)

lemma in_class_Cons:
  "in_class fl (i # items) c \<longleftrightarrow> in_class fl [i] c \<or> in_class fl items c"
  by (simp add: in_class_def)

lemma in_class_Nil: "\<not> in_class fl [] c"
  by (simp add: in_class_def)

lemma in_class_I_Spc: "in_class flag_I [Spc] x \<longleftrightarrow> is_space x"
  by (auto simp: in_class_def is_space_lower_char is_space_upper_char)

lemma atom_ok_I_Spc: "atom_ok flag_I (One [Spc]) = is_space"
  by (rule ext) (simp add: in_class_I_Spc)

lemma lower_char_is_lower: "is_upper x \<Longrightarrow> is_lower (lower_char x)"
  by (auto simp: is_upper_def is_lower_def lower_char_def Let_def codigo_char_of)

lemma in_class_I_signo:
  assumes "\<not> is_upper c0" "\<not> is_lower c0"
  shows "in_class flag_I [Ch c0] x \<longleftrightarrow> x = c0"
proof -
  have "lower_char x = c0 \<longleftrightarrow> x = c0"
  proof (cases "is_upper x")
    case True
    with lower_char_is_lower[OF True] assms show ?thesis by auto
  next
    case False
    then show ?thesis by (simp add: lower_char_def)
  qed
  with in_class_I_Ch[OF assms(1)] show ?thesis by simp
qed

lemma en_rango:
  assumes "map codigo s = [a..b]"
  shows "c \<in> set s \<longleftrightarrow> a \<le> codigo c \<and> codigo c \<le> b"
proof -
  have "c \<in> set s \<longleftrightarrow> codigo c \<in> codigo ` set s"
    by (auto simp: codigo_inj)
  also have "\<dots> \<longleftrightarrow> codigo c \<in> set (map codigo s)" by simp
  also have "\<dots> \<longleftrightarrow> a \<le> codigo c \<and> codigo c \<le> b" unfolding assms by simp
  finally show ?thesis .
qed

lemma codigos_letras:
  "map codigo ''ABCDEFGHIJKLMNOPQRSTUVWXYZ'' = [65..90]"
  "map codigo ''abcdefghijklmnopqrstuvwxyz'' = [97..122]"
  "map codigo ''0123456789'' = [48..57]"
  by code_simp+

lemmas es_mayuscula = en_rango[OF codigos_letras(1)]
lemmas es_minuscula = en_rango[OF codigos_letras(2)]
lemmas es_cifra = en_rango[OF codigos_letras(3)]

lemma in_class_I_AZ:
  "in_class flag_I [Rng CHR ''A'' CHR ''Z''] x \<longleftrightarrow>
     x \<in> set ''ABCDEFGHIJKLMNOPQRSTUVWXYZ'' \<or> x \<in> set ''abcdefghijklmnopqrstuvwxyz''"
  unfolding es_mayuscula es_minuscula
  using codigo_rango[of x]
  by (auto simp: in_class_def flag_I_def lower_char_def upper_char_def is_upper_def is_lower_def
      Let_def codigo_char_of codigo_def[of "CHR ''A''"] codigo_def[of "CHR ''Z''"])

lemma in_class_I_09:
  "in_class flag_I [Rng CHR ''0'' CHR ''9''] x \<longleftrightarrow> x \<in> set ''0123456789''"
  unfolding es_cifra
  using codigo_rango[of x]
  by (auto simp: in_class_def flag_I_def lower_char_def upper_char_def is_upper_def is_lower_def
      Let_def codigo_char_of codigo_def[of "CHR ''0''"] codigo_def[of "CHR ''9''"])

lemma no_letra:
  "\<not> is_upper CHR '':''" "\<not> is_lower CHR '':''" "\<not> is_upper CHR ''-''" "\<not> is_lower CHR ''-''"
  "\<not> is_upper CHR '',''" "\<not> is_lower CHR '',''" "\<not> is_upper CHR '' ''" "\<not> is_lower CHR '' ''"
  "\<not> is_upper CHR 0x0A" "\<not> is_lower CHR 0x0A" "\<not> is_upper CHR 0x0D" "\<not> is_lower CHR 0x0D"
  by (simp_all add: is_upper_def is_lower_def codigo_def)

lemma atom_ok_sep_campo:
  "atom_ok flag_I sep_campo = (\<lambda>c. c = CHR '':'' \<or> is_space c \<or> c = CHR ''-'')"
  by (rule ext)
     (simp add: sep_campo_def in_class_Cons[of _ _ "_ # _"] in_class_I_signo no_letra in_class_I_Spc)

lemma atom_ok_no_salto:
  "atom_ok flag_I no_salto = (\<lambda>c. c \<noteq> CHR 0x0A \<and> c \<noteq> CHR 0x0D)"
  by (rule ext)
     (simp add: no_salto_def in_class_Cons[of _ _ "_ # _"] in_class_I_signo no_letra)

lemma atom_ok_clase_ids:
  "atom_ok flag_I (One [Rng CHR ''A'' CHR ''Z'', Rng CHR ''0'' CHR ''9'', Ch CHR '','',
                        Ch CHR ''-'', Ch CHR '' '']) =
     (\<lambda>c. c \<in> set ''ABCDEFGHIJKLMNOPQRSTUVWXYZ'' \<or> c \<in> set ''abcdefghijklmnopqrstuvwxyz'' \<or>
          c \<in> set ''0123456789'' \<or> c \<in> set '',- '')"
  by (rule ext)
     (simp add: in_class_Cons[of _ _ "_ # _"] in_class_I_signo no_letra in_class_I_AZ in_class_I_09
        del: set_simps, auto)

subsection \<open>The patterns of the three fields\<close>

lemma sin_mayusculas:
  "list_all (\<lambda>c. \<not> is_upper c) ''disclaimer''"
  "list_all (\<lambda>c. \<not> is_upper c) ''confidencial''"
  "list_all (\<lambda>c. \<not> is_upper c) ''aviso legal''"
  "list_all (\<lambda>c. \<not> is_upper c) ''confidentiality notice''"
  "list_all (\<lambda>c. \<not> is_upper c) ''correo''"
  "list_all (\<lambda>c. \<not> is_upper c) ''electronico''"
  "list_all (\<lambda>c. \<not> is_upper c) ''es''"
  "list_all (\<lambda>c. \<not> is_upper c) ''privado''"
  "list_all (\<lambda>c. \<not> is_upper c) ''inicio''"
  "list_all (\<lambda>c. \<not> is_upper c) ''fin''"
  "list_all (\<lambda>c. \<not> is_upper c) ''servicio''"
  "list_all (\<lambda>c. \<not> is_upper c) ''s''"
  "list_all (\<lambda>c. \<not> is_upper c) ''afectados''"
  by code_simp+

lemmas lang_lits = sin_mayusculas[THEN lang_lit_I]

lemma langg_Seq_sin_grp:
  assumes "sin_grp r1"
  shows "(w, gs) \<in> langg fl (Seq r1 r2) \<longleftrightarrow>
           (\<exists>u v. w = u @ v \<and> u \<in> lang fl r1 \<and> (v, gs) \<in> langg fl r2)"
  by (simp add: langg_sin_grp[OF assms])

lemma langg_cola:
  "(w, gs) \<in> langg flag_I (Seq (Plus sep_campo) (Seq (Grp (Plus a)) Eps)) \<longleftrightarrow>
     (\<exists>seps v. w = seps @ v \<and> gs = [v] \<and> seps \<noteq> [] \<and>
        list_all (\<lambda>c. c = CHR '':'' \<or> is_space c \<or> c = CHR ''-'') seps \<and>
        v \<noteq> [] \<and> list_all (atom_ok flag_I a) v)"
  by (simp add: atom_ok_sep_campo)

lemma langg_campo:
  assumes "list_all (\<lambda>c. \<not> is_upper c) kw"
  shows "(w, gs) \<in> langg flag_I (seqs [lit kw, Plus sep_campo, Grp (Plus no_salto)]) \<longleftrightarrow>
     (\<exists>k seps v. w = k @ seps @ v \<and> gs = [v] \<and> lower k = kw \<and> seps \<noteq> [] \<and>
        list_all (\<lambda>c. c = CHR '':'' \<or> is_space c \<or> c = CHR ''-'') seps \<and>
        v \<noteq> [] \<and> list_all (\<lambda>c. c \<noteq> CHR 0x0A \<and> c \<noteq> CHR 0x0D) v)"
  unfolding seqs_def foldr.simps comp_def id_def langg_Seq_sin_grp[OF sin_grp_lit] langg_cola
    lang_lit_I[OF assms] atom_ok_no_salto mem_Collect_eq
  by blast

lemma lang_opt_s: "u \<in> lang flag_I (Opt (lit ''s'')) \<longleftrightarrow> u = [] \<or> lower u = ''s''"
  by (simp add: lang_lits)

lemma lang_opt_afectados:
  "u \<in> lang flag_I (Opt (seqs [Plus (One [Spc]), lit ''afectados''])) \<longleftrightarrow>
     u = [] \<or> (\<exists>ws a. u = ws @ a \<and> ws \<noteq> [] \<and> list_all is_space ws \<and> lower a = ''afectados'')"
  by (auto simp: seqs_def lang_lits atom_ok_I_Spc)

lemma sin_grp_opts:
  "sin_grp (Opt (lit ''s''))" "sin_grp (Opt (seqs [Plus (One [Spc]), lit ''afectados'']))"
  by (simp_all add: sin_grp_lit seqs_def)

lemma langg_servicios:
  "(w, gs) \<in> langg flag_I patron_servicios \<longleftrightarrow>
     (\<exists>k s af seps v. w = k @ s @ af @ seps @ v \<and> gs = [v] \<and> lower k = ''servicio'' \<and>
        (s = [] \<or> lower s = ''s'') \<and>
        (af = [] \<or> (\<exists>ws a. af = ws @ a \<and> ws \<noteq> [] \<and> list_all is_space ws \<and>
                            lower a = ''afectados'')) \<and>
        seps \<noteq> [] \<and> list_all (\<lambda>c. c = CHR '':'' \<or> is_space c \<or> c = CHR ''-'') seps \<and>
        v \<noteq> [] \<and>
        list_all (\<lambda>c. c \<in> set ''ABCDEFGHIJKLMNOPQRSTUVWXYZ'' \<or>
                      c \<in> set ''abcdefghijklmnopqrstuvwxyz'' \<or>
                      c \<in> set ''0123456789'' \<or> c \<in> set '',- '') v)"
proof -
  have e: "patron_servicios =
     Seq (lit ''servicio'') (Seq (Opt (lit ''s''))
       (Seq (Opt (seqs [Plus (One [Spc]), lit ''afectados'']))
         (Seq (Plus sep_campo)
            (Seq (Grp (Plus (One [Rng CHR ''A'' CHR ''Z'', Rng CHR ''0'' CHR ''9'', Ch CHR '','',
                                  Ch CHR ''-'', Ch CHR '' '']))) Eps))))"
    by (simp add: patron_servicios_def seqs_def)
  show ?thesis
    unfolding e langg_Seq_sin_grp[OF sin_grp_lit] langg_Seq_sin_grp[OF sin_grp_opts(1)]
      langg_Seq_sin_grp[OF sin_grp_opts(2)] langg_cola lang_lits mem_Collect_eq
      lang_opt_s lang_opt_afectados atom_ok_clase_ids
    by blast
qed

lemma sin_bnd_campos:
  "sin_bnd patron_inicio" "sin_bnd patron_fin" "sin_bnd patron_servicios"
  by code_simp+

lemma search_langg:
  assumes "sin_bnd r"
  shows "re_search fl r s \<noteq> None \<longleftrightarrow> (\<exists>pre w post gs. s = pre @ w @ post \<and> (w, gs) \<in> langg fl r)"
  unfolding search_lang[OF assms] lang_langg by blast

lemma sin_bnd_campo: "sin_bnd (seqs [lit kw, Plus sep_campo, Grp (Plus no_salto)])"
  by (simp add: seqs_def sin_bnd_lit)

lemma ex_campo:
  "(\<exists>pre w post gs. t = pre @ w @ post \<and> (\<exists>k seps v. w = k @ seps @ v \<and> gs = [v] \<and> P k seps v))
     \<longleftrightarrow> (\<exists>pre k seps v post. t = pre @ k @ seps @ v @ post \<and> P k seps v)"
proof
  assume "\<exists>pre w post gs. t = pre @ w @ post \<and> (\<exists>k seps v. w = k @ seps @ v \<and> gs = [v] \<and> P k seps v)"
  then obtain pre w post k seps v where "t = pre @ w @ post" "w = k @ seps @ v" "P k seps v"
    by blast
  then have "t = pre @ k @ seps @ v @ post \<and> P k seps v" by simp
  then show "\<exists>pre k seps v post. t = pre @ k @ seps @ v @ post \<and> P k seps v" by blast
next
  assume "\<exists>pre k seps v post. t = pre @ k @ seps @ v @ post \<and> P k seps v"
  then obtain pre k seps v post where "t = pre @ k @ seps @ v @ post" "P k seps v" by blast
  then have "t = pre @ (k @ seps @ v) @ post \<and>
             (\<exists>k' seps' v'. k @ seps @ v = k' @ seps' @ v' \<and> [v] = [v'] \<and> P k' seps' v')"
    by auto
  then show "\<exists>pre w post gs. t = pre @ w @ post \<and> (\<exists>k seps v. w = k @ seps @ v \<and> gs = [v] \<and> P k seps v)"
    by blast
qed

lemma ex_servicios:
  "(\<exists>pre w post gs. t = pre @ w @ post \<and>
      (\<exists>k s af seps v. w = k @ s @ af @ seps @ v \<and> gs = [v] \<and> P k s af seps v))
     \<longleftrightarrow> (\<exists>pre k s af seps v post. t = pre @ k @ s @ af @ seps @ v @ post \<and> P k s af seps v)"
proof
  assume "\<exists>pre w post gs. t = pre @ w @ post \<and>
      (\<exists>k s af seps v. w = k @ s @ af @ seps @ v \<and> gs = [v] \<and> P k s af seps v)"
  then obtain pre w post k s af seps v where
    "t = pre @ w @ post" "w = k @ s @ af @ seps @ v" "P k s af seps v"
    by blast
  then have "t = pre @ k @ s @ af @ seps @ v @ post \<and> P k s af seps v" by simp
  then show "\<exists>pre k s af seps v post. t = pre @ k @ s @ af @ seps @ v @ post \<and> P k s af seps v"
    by blast
next
  assume "\<exists>pre k s af seps v post. t = pre @ k @ s @ af @ seps @ v @ post \<and> P k s af seps v"
  then obtain pre k s af seps v post where
    "t = pre @ k @ s @ af @ seps @ v @ post" "P k s af seps v" by blast
  then have "t = pre @ (k @ s @ af @ seps @ v) @ post \<and>
             (\<exists>k' s' af' seps' v'. k @ s @ af @ seps @ v = k' @ s' @ af' @ seps' @ v' \<and>
                 [v] = [v'] \<and> P k' s' af' seps' v')"
    by auto
  then show "\<exists>pre w post gs. t = pre @ w @ post \<and>
      (\<exists>k s af seps v. w = k @ s @ af @ seps @ v \<and> gs = [v] \<and> P k s af seps v)"
    by blast
qed

lemma campo_hallado:
  assumes "list_all (\<lambda>c. \<not> is_upper c) kw"
  shows "re_search flag_I (seqs [lit kw, Plus sep_campo, Grp (Plus no_salto)]) t \<noteq> None \<longleftrightarrow>
     (\<exists>pre k seps v post. t = pre @ k @ seps @ v @ post \<and> lower k = kw \<and> seps \<noteq> [] \<and>
        list_all (\<lambda>c. c = CHR '':'' \<or> is_space c \<or> c = CHR ''-'') seps \<and>
        v \<noteq> [] \<and> list_all (\<lambda>c. c \<noteq> CHR 0x0A \<and> c \<noteq> CHR 0x0D) v)"
  unfolding search_langg[OF sin_bnd_campo] langg_campo[OF assms] ex_campo ..

lemma campo_valor:
  assumes kw: "list_all (\<lambda>c. \<not> is_upper c) kw"
      and m: "re_search flag_I (seqs [lit kw, Plus sep_campo, Grp (Plus no_salto)]) t = Some m"
  shows "\<exists>pre k seps v post. t = pre @ k @ seps @ v @ post \<and> lower k = kw \<and> seps \<noteq> [] \<and>
        list_all (\<lambda>c. c = CHR '':'' \<or> is_space c \<or> c = CHR ''-'') seps \<and>
        v \<noteq> [] \<and> list_all (\<lambda>c. c \<noteq> CHR 0x0A \<and> c \<noteq> CHR 0x0D) v \<and> group1 m = v"
proof -
  from search_grupos[OF sin_bnd_campo m] obtain pre w post where
    t: "t = pre @ w @ post"
    and w: "(w, m_grupos m) \<in> langg flag_I (seqs [lit kw, Plus sep_campo, Grp (Plus no_salto)])"
    by blast
  from w[unfolded langg_campo[OF kw]] obtain k seps v where
    "w = k @ seps @ v" "m_grupos m = [v]" "lower k = kw" "seps \<noteq> []"
    "list_all (\<lambda>c. c = CHR '':'' \<or> is_space c \<or> c = CHR ''-'') seps"
    "v \<noteq> []" "list_all (\<lambda>c. c \<noteq> CHR 0x0A \<and> c \<noteq> CHR 0x0D) v"
    by blast
  with t have "t = pre @ k @ seps @ v @ post \<and> lower k = kw \<and> seps \<noteq> [] \<and>
        list_all (\<lambda>c. c = CHR '':'' \<or> is_space c \<or> c = CHR ''-'') seps \<and>
        v \<noteq> [] \<and> list_all (\<lambda>c. c \<noteq> CHR 0x0A \<and> c \<noteq> CHR 0x0D) v \<and> group1 m = v"
    by (simp add: group1_def)
  then show ?thesis by blast
qed

lemma servicios_hallado:
  "re_search flag_I patron_servicios t \<noteq> None \<longleftrightarrow>
     (\<exists>pre k s af seps v post. t = pre @ k @ s @ af @ seps @ v @ post \<and> lower k = ''servicio'' \<and>
        (s = [] \<or> lower s = ''s'') \<and>
        (af = [] \<or> (\<exists>ws a. af = ws @ a \<and> ws \<noteq> [] \<and> list_all is_space ws \<and>
                            lower a = ''afectados'')) \<and>
        seps \<noteq> [] \<and> list_all (\<lambda>c. c = CHR '':'' \<or> is_space c \<or> c = CHR ''-'') seps \<and>
        v \<noteq> [] \<and>
        list_all (\<lambda>c. c \<in> set ''ABCDEFGHIJKLMNOPQRSTUVWXYZ'' \<or>
                      c \<in> set ''abcdefghijklmnopqrstuvwxyz'' \<or>
                      c \<in> set ''0123456789'' \<or> c \<in> set '',- '') v)"
  unfolding search_langg[OF sin_bnd_campos(3)] langg_servicios ex_servicios ..

lemma servicios_valor:
  assumes m: "re_search flag_I patron_servicios t = Some m"
  shows "\<exists>pre k s af seps v post. t = pre @ k @ s @ af @ seps @ v @ post \<and> lower k = ''servicio'' \<and>
        (s = [] \<or> lower s = ''s'') \<and>
        (af = [] \<or> (\<exists>ws a. af = ws @ a \<and> ws \<noteq> [] \<and> list_all is_space ws \<and>
                            lower a = ''afectados'')) \<and>
        seps \<noteq> [] \<and> list_all (\<lambda>c. c = CHR '':'' \<or> is_space c \<or> c = CHR ''-'') seps \<and>
        v \<noteq> [] \<and>
        list_all (\<lambda>c. c \<in> set ''ABCDEFGHIJKLMNOPQRSTUVWXYZ'' \<or>
                      c \<in> set ''abcdefghijklmnopqrstuvwxyz'' \<or>
                      c \<in> set ''0123456789'' \<or> c \<in> set '',- '') v \<and> group1 m = v"
proof -
  from search_grupos[OF sin_bnd_campos(3) m] obtain pre w post where
    t: "t = pre @ w @ post" and w: "(w, m_grupos m) \<in> langg flag_I patron_servicios"
    by blast
  from w[unfolded langg_servicios] obtain k s af seps v where
    "w = k @ s @ af @ seps @ v" "m_grupos m = [v]" "lower k = ''servicio''"
    "s = [] \<or> lower s = ''s''"
    "af = [] \<or> (\<exists>ws a. af = ws @ a \<and> ws \<noteq> [] \<and> list_all is_space ws \<and> lower a = ''afectados'')"
    "seps \<noteq> []" "list_all (\<lambda>c. c = CHR '':'' \<or> is_space c \<or> c = CHR ''-'') seps"
    "v \<noteq> []"
    "list_all (\<lambda>c. c \<in> set ''ABCDEFGHIJKLMNOPQRSTUVWXYZ'' \<or>
                      c \<in> set ''abcdefghijklmnopqrstuvwxyz'' \<or>
                      c \<in> set ''0123456789'' \<or> c \<in> set '',- '') v"
    by blast
  with t have "t = pre @ k @ s @ af @ seps @ v @ post \<and> lower k = ''servicio'' \<and>
        (s = [] \<or> lower s = ''s'') \<and>
        (af = [] \<or> (\<exists>ws a. af = ws @ a \<and> ws \<noteq> [] \<and> list_all is_space ws \<and>
                            lower a = ''afectados'')) \<and>
        seps \<noteq> [] \<and> list_all (\<lambda>c. c = CHR '':'' \<or> is_space c \<or> c = CHR ''-'') seps \<and>
        v \<noteq> [] \<and>
        list_all (\<lambda>c. c \<in> set ''ABCDEFGHIJKLMNOPQRSTUVWXYZ'' \<or>
                      c \<in> set ''abcdefghijklmnopqrstuvwxyz'' \<or>
                      c \<in> set ''0123456789'' \<or> c \<in> set '',- '') v \<and> group1 m = v"
    by (simp add: group1_def del: set_simps)
  then show ?thesis by blast
qed

lemmas inicio_hallado = campo_hallado[OF sin_mayusculas(9), folded patron_inicio_def]
lemmas fin_hallado = campo_hallado[OF sin_mayusculas(10), folded patron_fin_def]
lemmas inicio_valor = campo_valor[OF sin_mayusculas(9), folded patron_inicio_def]
lemmas fin_valor = campo_valor[OF sin_mayusculas(10), folded patron_fin_def]

lemma extraer_no_None:
  "extraer_por_regex t \<noteq> None \<longleftrightarrow>
     re_search flag_I patron_inicio t \<noteq> None \<and> re_search flag_I patron_fin t \<noteq> None \<and>
     re_search flag_I patron_servicios t \<noteq> None"
  by (auto simp: extraer_por_regex_def split: option.splits)

lemma extraer_Some:
  assumes "extraer_por_regex t = Some datos"
  shows "\<exists>inicio_m fin_m ids_m.
           re_search flag_I patron_inicio t = Some inicio_m \<and>
           re_search flag_I patron_fin t = Some fin_m \<and>
           re_search flag_I patron_servicios t = Some ids_m \<and>
           datos = \<lparr>d_inicio = strip (group1 inicio_m), d_fin = strip (group1 fin_m),
                     d_tipo = ''Mantenimiento'', d_afectacion = None, d_descripcion = None,
                     d_ids = filter (\<lambda>i. i \<noteq> []) (map strip (split_char CHR '','' (group1 ids_m)))\<rparr>"
  using assms by (auto simp: extraer_por_regex_def partir_ids_def split: option.splits)

subsection \<open>The extractor and the pipeline\<close>

lemma extraer_datos_regex:
  "extraer_por_regex txt = Some datos \<Longrightarrow> extraer_datos env g txt = (g, Inr datos)"
  by (simp add: extraer_datos_def)

lemma procesar_regex_indep:
  assumes "extraer_por_regex (limpiar_correo texto) \<noteq> None"
  shows "fst (fst (procesar_correo_a_tarea env (g, d) texto cli car)) = g"
    and "procesar_correo_a_tarea (env\<lparr>consultar_gpt := f, procesar_json_response := v\<rparr>) (g, d) texto cli car
         = procesar_correo_a_tarea env (g, d) texto cli car"
proof -
  from assms obtain datos where r: "extraer_por_regex (limpiar_correo texto) = Some datos" by blast
  show "fst (fst (procesar_correo_a_tarea env (g, d) texto cli car)) = g"
    by (simp add: procesar_correo_a_tarea_def Let_def extraer_datos_regex[OF r]
        split: sum.splits prod.splits)
  show "procesar_correo_a_tarea (env\<lparr>consultar_gpt := f, procesar_json_response := v\<rparr>) (g, d) texto cli car
         = procesar_correo_a_tarea env (g, d) texto cli car"
    by (cases "detectar_datos_correo (limpiar_correo texto)")
       (simp_all add: procesar_correo_a_tarea_def Let_def extraer_datos_regex[OF r] leer_fechas_def)
qed

lemma correo_ej_regex:
  "extraer_por_regex (limpiar_correo correo_ej) =
     Some \<lparr>d_inicio = ''02/01/2024 08:00'', d_fin = ''02/01/2024 10:00'',
           d_tipo = ''Mantenimiento'', d_afectacion = None, d_descripcion = None,
           d_ids = [''762080'', ''AB-77'']\<rparr>"
  by code_simp

lemma correo_ej_full:
  "snd (procesar_correo_a_tarea (env_ej (\<lambda>n p. Inr []) (\<lambda>j. None)) ([], db_res) correo_ej ''ACME'' None)
   = Inr (\<lparr>tp_id = 1, tp_fecha_inicio = fecha_ej 8, tp_fecha_fin = fecha_ej 10,
     tp_tipo_tarea = ''Mantenimiento'', tp_tiempo_afectacion = None, tp_descripcion = None,
     tp_carrier_id = None, tp_id_interno = None\<rparr>, True, [])"
  by code_simp

lemma sin_servicios_regex:
  "extraer_por_regex (limpiar_correo ''Inicio: 02/01/2024 08:00\<newline>Fin: 02/01/2024 10:00'') = None"
  by code_simp

lemma espacio_duro_regex:
  "extraer_por_regex (''Inicio:'' @ [CHR 0xA0] @ ''02/01/2024 08:00\<newline>Fin: 02/01/2024 10:00\<newline>Servicios:'' @
                      [CHR 0xA0] @ ''762080'') =
     Some \<lparr>d_inicio = ''02/01/2024 08:00'', d_fin = ''02/01/2024 10:00'',
           d_tipo = ''Mantenimiento'', d_afectacion = None, d_descripcion = None,
           d_ids = [''762080'']\<rparr>"
  by code_simp

text \<open>
  C5. A text has a well-formed line of a field when it holds, in any case of the
  letters, the word of the field (\<open>inicio\<close>, \<open>fin\<close>, or \<open>servicio\<close> with an optional \<open>s\<close>
  and an optional \<open>afectados\<close> after white space), then one or more separators (colon,
  white space, hyphen), then a value of one or more characters: any but line feed and
  carriage return for \<open>inicio\<close> and \<open>fin\<close>; letters A to Z in either case, decimal
  digits, comma, hyphen and space for the services. White space is the twelve
  characters Python takes for it below 256, listed in the last line of the theorem.
  \<^item> The fast path returns a record exactly when the text has a well-formed line of each
    of the three fields; when one is missing it returns nothing.
  \<^item> The record it returns has the type "Mantenimiento" and no affectation and no
    description; its start and its end are the stripped values of a well-formed line
    of \<open>inicio\<close> and of \<open>fin\<close>, and its identifiers are the pieces between commas of the
    value of a well-formed line of services, stripped, the empty ones left out.
  \<^item> When the fast path returns a record for the cleaned mail, the pipeline does not
    call the GPT handler: the state of the handler comes back as it was given, and the
    result is the same whatever \<open>consultar_gpt\<close> and \<open>procesar_json_response\<close> are.
\<close>

theorem fast_path_all_or_nothing:
  "(extraer_por_regex t \<noteq> None \<longleftrightarrow>
      (\<exists>pre k seps v post. t = pre @ k @ seps @ v @ post \<and> lower k = ''inicio'' \<and> seps \<noteq> [] \<and>
         list_all (\<lambda>c. c = CHR '':'' \<or> is_space c \<or> c = CHR ''-'') seps \<and>
         v \<noteq> [] \<and> list_all (\<lambda>c. c \<noteq> CHR 0x0A \<and> c \<noteq> CHR 0x0D) v) \<and>
      (\<exists>pre k seps v post. t = pre @ k @ seps @ v @ post \<and> lower k = ''fin'' \<and> seps \<noteq> [] \<and>
         list_all (\<lambda>c. c = CHR '':'' \<or> is_space c \<or> c = CHR ''-'') seps \<and>
         v \<noteq> [] \<and> list_all (\<lambda>c. c \<noteq> CHR 0x0A \<and> c \<noteq> CHR 0x0D) v) \<and>
      (\<exists>pre k s af seps v post. t = pre @ k @ s @ af @ seps @ v @ post \<and> lower k = ''servicio'' \<and>
         (s = [] \<or> lower s = ''s'') \<and>
         (af = [] \<or> (\<exists>ws a. af = ws @ a \<and> ws \<noteq> [] \<and> list_all is_space ws \<and>
                             lower a = ''afectados'')) \<and>
         seps \<noteq> [] \<and> list_all (\<lambda>c. c = CHR '':'' \<or> is_space c \<or> c = CHR ''-'') seps \<and>
         v \<noteq> [] \<and>
         list_all (\<lambda>c. c \<in> set ''ABCDEFGHIJKLMNOPQRSTUVWXYZ'' \<or>
                       c \<in> set ''abcdefghijklmnopqrstuvwxyz'' \<or>
                       c \<in> set ''0123456789'' \<or> c \<in> set '',- '') v)) \<and>
   (extraer_por_regex t = Some datos \<longrightarrow>
      d_tipo datos = ''Mantenimiento'' \<and> d_afectacion datos = None \<and> d_descripcion datos = None \<and>
      (\<exists>pre k seps v post. t = pre @ k @ seps @ v @ post \<and> lower k = ''inicio'' \<and> seps \<noteq> [] \<and>
         list_all (\<lambda>c. c = CHR '':'' \<or> is_space c \<or> c = CHR ''-'') seps \<and>
         v \<noteq> [] \<and> list_all (\<lambda>c. c \<noteq> CHR 0x0A \<and> c \<noteq> CHR 0x0D) v \<and> d_inicio datos = strip v) \<and>
      (\<exists>pre k seps v post. t = pre @ k @ seps @ v @ post \<and> lower k = ''fin'' \<and> seps \<noteq> [] \<and>
         list_all (\<lambda>c. c = CHR '':'' \<or> is_space c \<or> c = CHR ''-'') seps \<and>
         v \<noteq> [] \<and> list_all (\<lambda>c. c \<noteq> CHR 0x0A \<and> c \<noteq> CHR 0x0D) v \<and> d_fin datos = strip v) \<and>
      (\<exists>pre k s af seps v post. t = pre @ k @ s @ af @ seps @ v @ post \<and> lower k = ''servicio'' \<and>
         (s = [] \<or> lower s = ''s'') \<and>
         (af = [] \<or> (\<exists>ws a. af = ws @ a \<and> ws \<noteq> [] \<and> list_all is_space ws \<and>
                             lower a = ''afectados'')) \<and>
         seps \<noteq> [] \<and> list_all (\<lambda>c. c = CHR '':'' \<or> is_space c \<or> c = CHR ''-'') seps \<and>
         v \<noteq> [] \<and>
         list_all (\<lambda>c. c \<in> set ''ABCDEFGHIJKLMNOPQRSTUVWXYZ'' \<or>
                       c \<in> set ''abcdefghijklmnopqrstuvwxyz'' \<or>
                       c \<in> set ''0123456789'' \<or> c \<in> set '',- '') v \<and>
         d_ids datos = filter (\<lambda>i. i \<noteq> []) (map strip (split_char CHR '','' v)))) \<and>
   (extraer_por_regex (limpiar_correo texto) \<noteq> None \<longrightarrow>
      fst (fst (procesar_correo_a_tarea env (g, d) texto cliente_nombre carrier_nombre)) = g \<and>
      procesar_correo_a_tarea (env\<lparr>consultar_gpt := otro_gpt, procesar_json_response := otro_json\<rparr>)
          (g, d) texto cliente_nombre carrier_nombre
        = procesar_correo_a_tarea env (g, d) texto cliente_nombre carrier_nombre) \<and>
   (is_space x \<longleftrightarrow> x \<in> set [CHR 0x09, CHR 0x0A, CHR 0x0B, CHR 0x0C, CHR 0x0D, CHR 0x1C, CHR 0x1D,
                                CHR 0x1E, CHR 0x1F, CHR 0x20, CHR 0x85, CHR 0xA0])"
proof (intro conjI impI)
  show "extraer_por_regex t \<noteq> None \<longleftrightarrow>
      (\<exists>pre k seps v post. t = pre @ k @ seps @ v @ post \<and> lower k = ''inicio'' \<and> seps \<noteq> [] \<and>
         list_all (\<lambda>c. c = CHR '':'' \<or> is_space c \<or> c = CHR ''-'') seps \<and>
         v \<noteq> [] \<and> list_all (\<lambda>c. c \<noteq> CHR 0x0A \<and> c \<noteq> CHR 0x0D) v) \<and>
      (\<exists>pre k seps v post. t = pre @ k @ seps @ v @ post \<and> lower k = ''fin'' \<and> seps \<noteq> [] \<and>
         list_all (\<lambda>c. c = CHR '':'' \<or> is_space c \<or> c = CHR ''-'') seps \<and>
         v \<noteq> [] \<and> list_all (\<lambda>c. c \<noteq> CHR 0x0A \<and> c \<noteq> CHR 0x0D) v) \<and>
      (\<exists>pre k s af seps v post. t = pre @ k @ s @ af @ seps @ v @ post \<and> lower k = ''servicio'' \<and>
         (s = [] \<or> lower s = ''s'') \<and>
         (af = [] \<or> (\<exists>ws a. af = ws @ a \<and> ws \<noteq> [] \<and> list_all is_space ws \<and>
                             lower a = ''afectados'')) \<and>
         seps \<noteq> [] \<and> list_all (\<lambda>c. c = CHR '':'' \<or> is_space c \<or> c = CHR ''-'') seps \<and>
         v \<noteq> [] \<and>
         list_all (\<lambda>c. c \<in> set ''ABCDEFGHIJKLMNOPQRSTUVWXYZ'' \<or>
                       c \<in> set ''abcdefghijklmnopqrstuvwxyz'' \<or>
                       c \<in> set ''0123456789'' \<or> c \<in> set '',- '') v)"
    unfolding extraer_no_None inicio_hallado fin_hallado servicios_hallado ..
next
  assume a: "extraer_por_regex t = Some datos"
  from extraer_Some[OF a] obtain inicio_m fin_m ids_m where
    i: "re_search flag_I patron_inicio t = Some inicio_m"
    and f: "re_search flag_I patron_fin t = Some fin_m"
    and s: "re_search flag_I patron_servicios t = Some ids_m"
    and dd: "datos = \<lparr>d_inicio = strip (group1 inicio_m), d_fin = strip (group1 fin_m),
                     d_tipo = ''Mantenimiento'', d_afectacion = None, d_descripcion = None,
                     d_ids = filter (\<lambda>i. i \<noteq> []) (map strip (split_char CHR '','' (group1 ids_m)))\<rparr>"
    by blast
  from dd show "d_tipo datos = ''Mantenimiento''" "d_afectacion datos = None" "d_descripcion datos = None"
    by simp_all
  from dd have di: "d_inicio datos = strip (group1 inicio_m)" and df: "d_fin datos = strip (group1 fin_m)"
    and ds: "d_ids datos = filter (\<lambda>i. i \<noteq> []) (map strip (split_char CHR '','' (group1 ids_m)))"
    by simp_all
  show "(\<exists>pre k seps v post. t = pre @ k @ seps @ v @ post \<and> lower k = ''inicio'' \<and> seps \<noteq> [] \<and>
         list_all (\<lambda>c. c = CHR '':'' \<or> is_space c \<or> c = CHR ''-'') seps \<and>
         v \<noteq> [] \<and> list_all (\<lambda>c. c \<noteq> CHR 0x0A \<and> c \<noteq> CHR 0x0D) v \<and> d_inicio datos = strip v)"
    using inicio_valor[OF i] unfolding di by blast
  show "(\<exists>pre k seps v post. t = pre @ k @ seps @ v @ post \<and> lower k = ''fin'' \<and> seps \<noteq> [] \<and>
         list_all (\<lambda>c. c = CHR '':'' \<or> is_space c \<or> c = CHR ''-'') seps \<and>
         v \<noteq> [] \<and> list_all (\<lambda>c. c \<noteq> CHR 0x0A \<and> c \<noteq> CHR 0x0D) v \<and> d_fin datos = strip v)"
    using fin_valor[OF f] unfolding df by blast
  show "(\<exists>pre k s af seps v post. t = pre @ k @ s @ af @ seps @ v @ post \<and> lower k = ''servicio'' \<and>
         (s = [] \<or> lower s = ''s'') \<and>
         (af = [] \<or> (\<exists>ws a. af = ws @ a \<and> ws \<noteq> [] \<and> list_all is_space ws \<and>
                             lower a = ''afectados'')) \<and>
         seps \<noteq> [] \<and> list_all (\<lambda>c. c = CHR '':'' \<or> is_space c \<or> c = CHR ''-'') seps \<and>
         v \<noteq> [] \<and>
         list_all (\<lambda>c. c \<in> set ''ABCDEFGHIJKLMNOPQRSTUVWXYZ'' \<or>
                       c \<in> set ''abcdefghijklmnopqrstuvwxyz'' \<or>
                       c \<in> set ''0123456789'' \<or> c \<in> set '',- '') v \<and>
         d_ids datos = filter (\<lambda>i. i \<noteq> []) (map strip (split_char CHR '','' v)))"
    using servicios_valor[OF s] unfolding ds by blast
next
  assume a: "extraer_por_regex (limpiar_correo texto) \<noteq> None"
  show "fst (fst (procesar_correo_a_tarea env (g, d) texto cliente_nombre carrier_nombre)) = g"
    by (rule procesar_regex_indep(1)[OF a])
  show "procesar_correo_a_tarea (env\<lparr>consultar_gpt := otro_gpt, procesar_json_response := otro_json\<rparr>)
          (g, d) texto cliente_nombre carrier_nombre
        = procesar_correo_a_tarea env (g, d) texto cliente_nombre carrier_nombre"
    by (rule procesar_regex_indep(2)[OF a])
next
  show "is_space x \<longleftrightarrow> x \<in> set [CHR 0x09, CHR 0x0A, CHR 0x0B, CHR 0x0C, CHR 0x0D, CHR 0x1C, CHR 0x1D,
                                CHR 0x1E, CHR 0x1F, CHR 0x20, CHR 0x85, CHR 0xA0]"
    by (rule is_space_iff)
qed

text \<open>
  The mail of the example, with the three lines: its record, and the pipeline, which
  gives the same result and leaves the empty record of calls whatever handler it is
  given. And a mail without the line of services: not all three lines are well-formed.
\<close>

theorem fast_path_all_or_nothing_witness:
  "((\<exists>pre k seps v post. limpiar_correo correo_ej = pre @ k @ seps @ v @ post \<and> lower k = ''inicio'' \<and> seps \<noteq> [] \<and>
         list_all (\<lambda>c. c = CHR '':'' \<or> is_space c \<or> c = CHR ''-'') seps \<and>
         v \<noteq> [] \<and> list_all (\<lambda>c. c \<noteq> CHR 0x0A \<and> c \<noteq> CHR 0x0D) v) \<and>
      (\<exists>pre k seps v post. limpiar_correo correo_ej = pre @ k @ seps @ v @ post \<and> lower k = ''fin'' \<and> seps \<noteq> [] \<and>
         list_all (\<lambda>c. c = CHR '':'' \<or> is_space c \<or> c = CHR ''-'') seps \<and>
         v \<noteq> [] \<and> list_all (\<lambda>c. c \<noteq> CHR 0x0A \<and> c \<noteq> CHR 0x0D) v) \<and>
      (\<exists>pre k s af seps v post. limpiar_correo correo_ej = pre @ k @ s @ af @ seps @ v @ post \<and> lower k = ''servicio'' \<and>
         (s = [] \<or> lower s = ''s'') \<and>
         (af = [] \<or> (\<exists>ws a. af = ws @ a \<and> ws \<noteq> [] \<and> list_all is_space ws \<and>
                             lower a = ''afectados'')) \<and>
         seps \<noteq> [] \<and> list_all (\<lambda>c. c = CHR '':'' \<or> is_space c \<or> c = CHR ''-'') seps \<and>
         v \<noteq> [] \<and>
         list_all (\<lambda>c. c \<in> set ''ABCDEFGHIJKLMNOPQRSTUVWXYZ'' \<or>
                       c \<in> set ''abcdefghijklmnopqrstuvwxyz'' \<or>
                       c \<in> set ''0123456789'' \<or> c \<in> set '',- '') v)) \<and>
   ((\<exists>pre k seps v post. limpiar_correo correo_ej = pre @ k @ seps @ v @ post \<and> lower k = ''inicio'' \<and> seps \<noteq> [] \<and>
         list_all (\<lambda>c. c = CHR '':'' \<or> is_space c \<or> c = CHR ''-'') seps \<and>
         v \<noteq> [] \<and> list_all (\<lambda>c. c \<noteq> CHR 0x0A \<and> c \<noteq> CHR 0x0D) v \<and> ''02/01/2024 08:00'' = strip v) \<and>
      (\<exists>pre k seps v post. limpiar_correo correo_ej = pre @ k @ seps @ v @ post \<and> lower k = ''fin'' \<and> seps \<noteq> [] \<and>
         list_all (\<lambda>c. c = CHR '':'' \<or> is_space c \<or> c = CHR ''-'') seps \<and>
         v \<noteq> [] \<and> list_all (\<lambda>c. c \<noteq> CHR 0x0A \<and> c \<noteq> CHR 0x0D) v \<and> ''02/01/2024 10:00'' = strip v) \<and>
      (\<exists>pre k s af seps v post. limpiar_correo correo_ej = pre @ k @ s @ af @ seps @ v @ post \<and> lower k = ''servicio'' \<and>
         (s = [] \<or> lower s = ''s'') \<and>
         (af = [] \<or> (\<exists>ws a. af = ws @ a \<and> ws \<noteq> [] \<and> list_all is_space ws \<and>
                             lower a = ''afectados'')) \<and>
         seps \<noteq> [] \<and> list_all (\<lambda>c. c = CHR '':'' \<or> is_space c \<or> c = CHR ''-'') seps \<and>
         v \<noteq> [] \<and>
         list_all (\<lambda>c. c \<in> set ''ABCDEFGHIJKLMNOPQRSTUVWXYZ'' \<or>
                       c \<in> set ''abcdefghijklmnopqrstuvwxyz'' \<or>
                       c \<in> set ''0123456789'' \<or> c \<in> set '',- '') v \<and>
         [''762080'', ''AB-77''] = filter (\<lambda>i. i \<noteq> []) (map strip (split_char CHR '','' v)))) \<and>
   fst (fst (procesar_correo_a_tarea (env_ej servicio_json (\<lambda>j. Some datos_ej)) ([], db_res)
               correo_ej ''ACME'' None)) = [] \<and>
   procesar_correo_a_tarea
       ((env_ej servicio_json (\<lambda>j. Some datos_ej))
          \<lparr>consultar_gpt := gpt_registro servicio_sin_json, procesar_json_response := (\<lambda>j. None)\<rparr>)
       ([], db_res) correo_ej ''ACME'' None
     = procesar_correo_a_tarea (env_ej servicio_json (\<lambda>j. Some datos_ej)) ([], db_res)
         correo_ej ''ACME'' None \<and>
   \<not> ((\<exists>pre k seps v post. limpiar_correo ''Inicio: 02/01/2024 08:00\<newline>Fin: 02/01/2024 10:00'' = pre @ k @ seps @ v @ post \<and> lower k = ''inicio'' \<and> seps \<noteq> [] \<and>
         list_all (\<lambda>c. c = CHR '':'' \<or> is_space c \<or> c = CHR ''-'') seps \<and>
         v \<noteq> [] \<and> list_all (\<lambda>c. c \<noteq> CHR 0x0A \<and> c \<noteq> CHR 0x0D) v) \<and>
      (\<exists>pre k seps v post. limpiar_correo ''Inicio: 02/01/2024 08:00\<newline>Fin: 02/01/2024 10:00'' = pre @ k @ seps @ v @ post \<and> lower k = ''fin'' \<and> seps \<noteq> [] \<and>
         list_all (\<lambda>c. c = CHR '':'' \<or> is_space c \<or> c = CHR ''-'') seps \<and>
         v \<noteq> [] \<and> list_all (\<lambda>c. c \<noteq> CHR 0x0A \<and> c \<noteq> CHR 0x0D) v) \<and>
      (\<exists>pre k s af seps v post. limpiar_correo ''Inicio: 02/01/2024 08:00\<newline>Fin: 02/01/2024 10:00'' = pre @ k @ s @ af @ seps @ v @ post \<and> lower k = ''servicio'' \<and>
         (s = [] \<or> lower s = ''s'') \<and>
         (af = [] \<or> (\<exists>ws a. af = ws @ a \<and> ws \<noteq> [] \<and> list_all is_space ws \<and>
                             lower a = ''afectados'')) \<and>
         seps \<noteq> [] \<and> list_all (\<lambda>c. c = CHR '':'' \<or> is_space c \<or> c = CHR ''-'') seps \<and>
         v \<noteq> [] \<and>
         list_all (\<lambda>c. c \<in> set ''ABCDEFGHIJKLMNOPQRSTUVWXYZ'' \<or>
                       c \<in> set ''abcdefghijklmnopqrstuvwxyz'' \<or>
                       c \<in> set ''0123456789'' \<or> c \<in> set '',- '') v))"
proof -
  have n: "extraer_por_regex (limpiar_correo correo_ej) \<noteq> None"
    by (simp add: correo_ej_regex)
  note T = fast_path_all_or_nothing
  note 0 = T[where t = "limpiar_correo correo_ej", THEN conjunct1, THEN iffD1, OF n]
  note 1 = T[where t = "limpiar_correo correo_ej", THEN conjunct2, THEN conjunct1, THEN mp,
      OF correo_ej_regex, THEN conjunct2, THEN conjunct2, THEN conjunct2,
      unfolded datos.select_convs]
  note 23 = T[where texto = correo_ej and env = "env_ej servicio_json (\<lambda>j. Some datos_ej)"
      and g = "[]" and d = db_res and cliente_nombre = "''ACME''" and carrier_nombre = None
      and otro_gpt = "gpt_registro servicio_sin_json" and otro_json = "\<lambda>j. None",
      THEN conjunct2, THEN conjunct2, THEN conjunct1, THEN mp, OF n]
  have s: "\<not> extraer_por_regex (limpiar_correo ''Inicio: 02/01/2024 08:00\<newline>Fin: 02/01/2024 10:00'') \<noteq> None"
    by (simp add: sin_servicios_regex)
  note 4 = s[unfolded T[where t = "limpiar_correo ''Inicio: 02/01/2024 08:00\<newline>Fin: 02/01/2024 10:00''", THEN conjunct1]]
  show ?thesis
    by (rule conjI[OF 0 conjI[OF 1 conjI[OF 23[THEN conjunct1] conjI[OF 23[THEN conjunct2] 4]]]])
qed

section \<open>The fallback\<close>

lemma in_class_flag_S [simp]:
  "in_class flag_S items c = list_ex (\<lambda>i. citem_has i c) items"
  by (simp add: in_class_def flag_S_def)

lemma dotall_flag_S [simp]: "dotall flag_S"
  by (simp add: flag_S_def)

lemma rx_run_Seq_Eps2_fun: "rx_run fl (Seq r Eps) = rx_run fl r"
  by (rule ext) (rule rx_run_Seq_Eps2)

lemma rx_run_Seq_Star:
  "rx_run fl (Seq (Star a) r) (p, s, g) = concat (map (rx_run fl r) (star_run fl a g p s))"
  by simp

lemma star_dot_then_char:
  "(case concat (map (rx_run flag_S (A (One [Ch x]))) (star_run flag_S Dot g p s)) of
      [] \<Rightarrow> x \<notin> set s
    | (p', s', g') # _ \<Rightarrow> x \<in> set s \<and> s' = rev (takeWhile (\<lambda>c. c \<noteq> x) (rev s)) \<and> g' = g)"
proof (induction s arbitrary: p)
  case Nil
  then show ?case by simp
next
  case (Cons c s)
  let ?R = "\<lambda>p s. concat (map (rx_run flag_S (A (One [Ch x]))) (star_run flag_S Dot g p s))"
  have step: "?R p (c # s) = ?R (Some c) s @ (if c = x then [(Some c, s, g)] else [])"
    by simp
  show ?case
  proof (cases "?R (Some c) s")
    case Nil
    with Cons.IH[of "Some c"] have nx: "x \<notin> set s" by simp
    then have tw: "takeWhile (\<lambda>c. c \<noteq> x) (rev s @ [x]) = rev s"
      by (subst takeWhile_append2) auto
    show ?thesis
      unfolding step Nil using nx tw by (cases "c = x") simp_all
  next
    case (Cons st sts)
    obtain p' s' g' where st: "st = (p', s', g')" by (cases st)
    from Cons.IH[of "Some c"] Cons st
    have x: "x \<in> set s" and s': "s' = rev (takeWhile (\<lambda>c. c \<noteq> x) (rev s))" and g': "g' = g"
      by simp_all
    from x have "\<exists>y \<in> set (rev s). \<not> y \<noteq> x" by simp
    then obtain y where "y \<in> set (rev s)" "\<not> y \<noteq> x" by blast
    then have tw: "takeWhile (\<lambda>c. c \<noteq> x) (rev s @ [c]) = takeWhile (\<lambda>c. c \<noteq> x) (rev s)"
      by (rule takeWhile_append1)
    show ?thesis
      unfolding step Cons st using x s' g' tw by simp
  qed
qed

lemma match_json:
  "re_match_at flag_S patron_json p s =
     (case s of
        [] \<Rightarrow> None
      | c # s' \<Rightarrow>
          if c = CHR ''{'' \<and> CHR ''}'' \<in> set s'
          then Some \<lparr>m_desde = s, m_resto = rev (takeWhile (\<lambda>c. c \<noteq> CHR ''}'') (rev s')), m_grupos = []\<rparr>
          else None)"
proof (cases s)
  case Nil
  then show ?thesis
    by (simp add: re_match_at_def patron_json_def seqs_def lit_def rx_norm del: rx_run.simps)
next
  case (Cons c s')
  have r: "rx_run flag_S patron_json (p, c # s', []) =
             (if c = CHR ''{''
              then concat (map (rx_run flag_S (A (One [Ch CHR ''}'']))) (star_run flag_S Dot [] (Some c) s'))
              else [])"
    by (simp add: patron_json_def seqs_def lit_def rx_norm rx_run_Seq_Star rx_run_Seq_Eps2_fun
        del: rx_run.simps)
  show ?thesis
  proof (cases "c = CHR ''{''")
    case False
    then show ?thesis by (simp add: re_match_at_def Cons r)
  next
    case True
    define R where
      "R = concat (map (rx_run flag_S (A (One [Ch CHR ''}'']))) (star_run flag_S Dot [] (Some c) s'))"
    have rr: "rx_run flag_S patron_json (p, c # s', []) = R"
      using r True by (simp add: R_def)
    have k: "(case R of
                [] \<Rightarrow> CHR ''}'' \<notin> set s'
              | (p', s'', g') # _ \<Rightarrow>
                  CHR ''}'' \<in> set s' \<and> s'' = rev (takeWhile (\<lambda>c. c \<noteq> CHR ''}'') (rev s')) \<and> g' = [])"
      unfolding R_def by (rule star_dot_then_char)
    show ?thesis
    proof (cases R)
      case Nil
      with k have "CHR ''}'' \<notin> set s'" by simp
      then show ?thesis
        unfolding re_match_at_def \<open>s = c # s'\<close> rr Nil by simp
    next
      case (Cons st sts)
      obtain p' s'' g' where st: "st = (p', s'', g')" by (cases st)
      from k Cons st have "CHR ''}'' \<in> set s'"
        and "s'' = rev (takeWhile (\<lambda>c. c \<noteq> CHR ''}'') (rev s'))" and "g' = []"
        by simp_all
      then show ?thesis
        unfolding re_match_at_def \<open>s = c # s'\<close> rr Cons st using True by simp
    qed
  qed
qed

lemma search_json:
  "re_search_at flag_S patron_json p s =
     (case dropWhile (\<lambda>c. c \<noteq> CHR ''{'') s of
        [] \<Rightarrow> None
      | b # rest \<Rightarrow>
          if CHR ''}'' \<in> set rest
          then Some \<lparr>m_desde = b # rest,
                     m_resto = rev (takeWhile (\<lambda>c. c \<noteq> CHR ''}'') (rev rest)), m_grupos = []\<rparr>
          else None)"
proof (induction s arbitrary: p)
  case Nil
  then show ?case by (simp add: match_json)
next
  case (Cons c s)
  show ?case
  proof (cases "c = CHR ''{''")
    case False
    then show ?thesis using Cons.IH[of "Some c"] by (simp add: match_json)
  next
    case True
    show ?thesis
    proof (cases "CHR ''}'' \<in> set s")
      case True
      with \<open>c = CHR ''{''\<close> show ?thesis by (simp add: match_json)
    next
      case no: False
      have nd: "CHR ''}'' \<notin> set (dropWhile (\<lambda>c. c \<noteq> CHR ''{'') s)"
        using no by (blast dest: set_dropWhileD)
      have "re_search_at flag_S patron_json (Some c) s = None"
      proof (cases "dropWhile (\<lambda>c. c \<noteq> CHR ''{'') s")
        case Nil
        then show ?thesis by (simp only: Cons.IH list.case)
      next
        case (Cons b rest)
        with nd have "CHR ''}'' \<notin> set rest" by simp
        then show ?thesis by (simp only: Cons.IH Cons list.case if_False)
      qed
      with True no show ?thesis by (simp add: match_json)
    qed
  qed
qed

lemma take_menos_takeWhile:
  "take (length rest - length (takeWhile P (rev rest))) rest = rev (dropWhile P (rev rest))"
proof -
  define tw where "tw = takeWhile P (rev rest)"
  define dw where "dw = dropWhile P (rev rest)"
  have "tw @ dw = rev rest" by (simp add: tw_def dw_def)
  then have "rev (tw @ dw) = rest" by simp
  then have e: "rest = rev dw @ rev tw" by simp
  have "take (length rest - length tw) rest
          = take (length (rev dw @ rev tw) - length tw) (rev dw @ rev tw)"
    using e by simp
  also have "\<dots> = rev dw" by simp
  finally show ?thesis unfolding tw_def dw_def .
qed

lemma buscar_json_eq:
  "buscar_json r =
     (case dropWhile (\<lambda>c. c \<noteq> CHR ''{'') r of
        [] \<Rightarrow> None
      | b # rest \<Rightarrow>
          if CHR ''}'' \<in> set rest
          then Some (b # rev (dropWhile (\<lambda>c. c \<noteq> CHR ''}'') (rev rest)))
          else None)"
proof (cases "dropWhile (\<lambda>c. c \<noteq> CHR ''{'') r")
  case Nil
  then show ?thesis
    by (simp only: buscar_json_def re_search_def search_json list.case option.map)
next
  case (Cons b rest)
  have le: "length (takeWhile (\<lambda>c. c \<noteq> CHR ''}'') (rev rest)) \<le> length rest"
    using length_takeWhile_le[of "\<lambda>c. c \<noteq> CHR ''}''" "rev rest"] by simp
  show ?thesis
  proof (cases "CHR ''}'' \<in> set rest")
    case True
    have "buscar_json r = Some (group0 \<lparr>m_desde = b # rest,
                     m_resto = rev (takeWhile (\<lambda>c. c \<noteq> CHR ''}'') (rev rest)), m_grupos = []\<rparr>)"
      using True by (simp only: buscar_json_def re_search_def search_json Cons list.case if_True option.map)
    also have "\<dots> = Some (b # rev (dropWhile (\<lambda>c. c \<noteq> CHR ''}'') (rev rest)))"
      using le by (simp add: group0_def Suc_diff_le take_menos_takeWhile)
    finally show ?thesis using True by (simp only: Cons list.case if_True)
  next
    case False
    then show ?thesis
      by (simp only: buscar_json_def re_search_def search_json Cons list.case if_False option.map)
  qed
qed

lemma procesar_estado_gpt:
  assumes "detectar_datos_correo (limpiar_correo texto) = Inr det"
  shows "fst (fst (procesar_correo_a_tarea env (g, d) texto cli car))
           = fst (extraer_datos env g (limpiar_correo texto))"
  using assms
  by (simp add: procesar_correo_a_tarea_def Let_def split: sum.splits prod.splits)

lemma procesar_falla_extraccion:
  assumes "detectar_datos_correo (limpiar_correo texto) = Inr det"
      and "extraer_datos env g (limpiar_correo texto) = (g', Inl e)"
  shows "procesar_correo_a_tarea env (g, d) texto cli car = ((g', d), Inl e)"
  using assms by (simp add: procesar_correo_a_tarea_def Let_def)

lemma prompts_distintos: "prompt_2 t \<noteq> prompt t"
  by (simp add: prompt_def prompt_2_def)

lemma hola_det: "detectar_datos_correo (limpiar_correo ''hola'') =
   Inr \<lparr>det_carrier = None, det_id_interno = None, det_ids = [], det_tipo = ''Programada''\<rparr>"
  by code_simp

lemma hola_rx: "extraer_por_regex (limpiar_correo ''hola'') = None"
  by code_simp

lemma buscar_json_ejs:
  "buscar_json ''no tengo datos'' = None"
  "buscar_json ''Respuesta: {a} y {b}.'' = Some ''{a} y {b}''"
  "buscar_json ''{b}'' = Some ''{b}''"
  by code_simp+

text \<open>
  C6, as the code has it. The mail passes the sniffer, the fast path gives nothing, and
  the first call of \<open>consultar_gpt\<close>, with the first prompt and \<open>cache=False\<close>, answers
  \<open>r1\<close> and leaves the handler in \<open>g1\<close>. The text in braces of an answer runs from its
  first \<open>{\<close> to its last \<open>}\<close>; there is none when no \<open>}\<close> follows the first \<open>{\<close>.
  \<^item> If \<open>r1\<close> has a text in braces that \<open>procesar_json_response\<close> refuses, the pipeline
    fails with the extraction error; the handler is left in \<open>g1\<close> (no second call) and
    the store is unchanged.
  \<^item> If \<open>r1\<close> has no text in braces, the second prompt is sent once, again with
    \<open>cache=False\<close>; if its answer \<open>r2\<close> has no text in braces, or one that is refused, the
    pipeline fails with the extraction error, the handler is left in \<open>g2\<close>, the state
    after the second call, and the store is unchanged.
  \<^item> If the answer of the second call has a text in braces that is accepted, that record
    is the result of the extraction.
  \<^item> The second prompt is the text of lines 511-515, which asks for the JSON alone,
    without fences and without explanations, and carries the cleaned mail but not the
    worked example of the first prompt; it differs from the first prompt.
\<close>

theorem fallback_retry_then_fail:
  assumes det: "detectar_datos_correo (limpiar_correo texto) = Inr det"
      and rx: "extraer_por_regex (limpiar_correo texto) = None"
      and c1: "consultar_gpt env g (prompt (limpiar_correo texto)) False = (g1, Inr r1)"
  shows "(buscar_json r1 = Some j \<and> procesar_json_response env j = None \<longrightarrow>
            procesar_correo_a_tarea env (g, d) texto cliente_nombre carrier_nombre
              = ((g1, d), Inl (ValueError msg_extraccion))) \<and>
         (buscar_json r1 = None \<and>
          consultar_gpt env g1 (prompt_2 (limpiar_correo texto)) False = (g2, Inr r2) \<and>
          (buscar_json r2 = None \<or> (buscar_json r2 = Some j \<and> procesar_json_response env j = None)) \<longrightarrow>
            procesar_correo_a_tarea env (g, d) texto cliente_nombre carrier_nombre
              = ((g2, d), Inl (ValueError msg_extraccion))) \<and>
         (buscar_json r1 = None \<and>
          consultar_gpt env g1 (prompt_2 (limpiar_correo texto)) False = (g2, Inr r2) \<and>
          buscar_json r2 = Some j \<and> procesar_json_response env j = Some datos \<longrightarrow>
            extraer_datos env g (limpiar_correo texto) = (g2, Inr datos)) \<and>
         prompt_2 (limpiar_correo texto) =
           ''Devuelveme '' @ [CHR 0xDA] @ ''NICAMENTE el JSON (sin '' @ [CHR 0x60, CHR 0x60, CHR 0x60] @
             '' ni explicaciones) con las claves inicio, fin, tipo, afectacion, descripcion, ids.'' @
             [CHR 0x0A, CHR 0x0A] @ ''Correo:'' @ [CHR 0x0A] @ limpiar_correo texto \<and>
         prompt_2 (limpiar_correo texto) \<noteq> prompt (limpiar_correo texto) \<and>
         buscar_json r =
           (case dropWhile (\<lambda>c. c \<noteq> CHR ''{'') r of
              [] \<Rightarrow> None
            | b # rest \<Rightarrow>
                if CHR ''}'' \<in> set rest
                then Some (b # rev (dropWhile (\<lambda>c. c \<noteq> CHR ''}'') (rev rest)))
                else None)"
proof (intro conjI impI)
  let ?tl = "limpiar_correo texto"
  let ?P = "procesar_correo_a_tarea env (g, d) texto cliente_nombre carrier_nombre"
  {
    assume "buscar_json r1 = Some j \<and> procesar_json_response env j = None"
    then have "extraer_datos env g ?tl = (g1, Inl (ValueError msg_extraccion))"
      by (simp add: extraer_datos_def rx consultar_y_extraer_def c1 validar_json_def)
    from procesar_falla_extraccion[OF det this]
    show "?P = ((g1, d), Inl (ValueError msg_extraccion))" .
  }
  {
    assume "buscar_json r1 = None \<and>
          consultar_gpt env g1 (prompt_2 ?tl) False = (g2, Inr r2) \<and>
          (buscar_json r2 = None \<or> (buscar_json r2 = Some j \<and> procesar_json_response env j = None))"
    then have "extraer_datos env g ?tl = (g2, Inl (ValueError msg_extraccion))"
      by (auto simp: extraer_datos_def rx consultar_y_extraer_def c1 validar_json_def)
    from procesar_falla_extraccion[OF det this]
    show "?P = ((g2, d), Inl (ValueError msg_extraccion))" .
  }
  {
    assume "buscar_json r1 = None \<and>
          consultar_gpt env g1 (prompt_2 ?tl) False = (g2, Inr r2) \<and>
          buscar_json r2 = Some j \<and> procesar_json_response env j = Some datos"
    then show "extraer_datos env g ?tl = (g2, Inr datos)"
      by (simp add: extraer_datos_def rx consultar_y_extraer_def c1 validar_json_def)
  }
  show "prompt_2 ?tl =
           ''Devuelveme '' @ [CHR 0xDA] @ ''NICAMENTE el JSON (sin '' @ [CHR 0x60, CHR 0x60, CHR 0x60] @
             '' ni explicaciones) con las claves inicio, fin, tipo, afectacion, descripcion, ids.'' @
             [CHR 0x0A, CHR 0x0A] @ ''Correo:'' @ [CHR 0x0A] @ ?tl"
    by (simp add: prompt_2_def eval_nat_numeral)
  show "prompt_2 ?tl \<noteq> prompt ?tl" by (rule prompts_distintos)
  show "buscar_json r =
           (case dropWhile (\<lambda>c. c \<noteq> CHR ''{'') r of
              [] \<Rightarrow> None
            | b # rest \<Rightarrow>
                if CHR ''}'' \<in> set rest
                then Some (b # rev (dropWhile (\<lambda>c. c \<noteq> CHR ''}'') (rev rest)))
                else None)"
    by (rule buscar_json_eq)
qed

text \<open>
  With the recording handler, on a mail that says "hola": an answer with braces that is
  refused (one call recorded); two answers without braces (two calls recorded, both
  with \<open>cache=False\<close>); a second answer with braces that is refused; a second answer
  with braces that is accepted. The store is \<open>db_res\<close> before and after.
\<close>

theorem fallback_retry_then_fail_witness:
  "procesar_correo_a_tarea (env_ej servicio_json (\<lambda>j. None)) ([], db_res) ''hola'' ''ACME'' None
     = (([(prompt (limpiar_correo ''hola''), False)], db_res), Inl (ValueError msg_extraccion)) \<and>
   procesar_correo_a_tarea (env_ej servicio_sin_json (\<lambda>j. Some datos_ej)) ([], db_res) ''hola'' ''ACME'' None
     = (([(prompt (limpiar_correo ''hola''), False), (prompt_2 (limpiar_correo ''hola''), False)], db_res),
        Inl (ValueError msg_extraccion)) \<and>
   procesar_correo_a_tarea (env_ej servicio_json_tarde (\<lambda>j. None)) ([], db_res) ''hola'' ''ACME'' None
     = (([(prompt (limpiar_correo ''hola''), False), (prompt_2 (limpiar_correo ''hola''), False)], db_res),
        Inl (ValueError msg_extraccion)) \<and>
   extraer_datos (env_ej servicio_json_tarde (\<lambda>j. Some datos_ej)) [] (limpiar_correo ''hola'')
     = ([(prompt (limpiar_correo ''hola''), False), (prompt_2 (limpiar_correo ''hola''), False)],
        Inr datos_ej)"
proof (intro conjI)
  let ?tl = "limpiar_correo ''hola''"
  let ?g1 = "[(prompt ?tl, False)]"
  let ?g2 = "[(prompt ?tl, False), (prompt_2 ?tl, False)]"
  have a1: "consultar_gpt (env_ej servicio_json (\<lambda>j. None)) [] (prompt ?tl) False
              = (?g1, Inr ''Respuesta: {a} y {b}.'')"
    by (simp add: env_ej_def gpt_registro_def servicio_json_def)
  have a2: "procesar_json_response (env_ej servicio_json (\<lambda>j. None)) ''{a} y {b}'' = None"
    by (simp add: env_ej_def)
  from fallback_retry_then_fail[OF hola_det hola_rx a1, of "''{a} y {b}''" db_res] buscar_json_ejs(2) a2
  show "procesar_correo_a_tarea (env_ej servicio_json (\<lambda>j. None)) ([], db_res) ''hola'' ''ACME'' None
     = ((?g1, db_res), Inl (ValueError msg_extraccion))"
    by blast
  have b1: "consultar_gpt (env_ej servicio_sin_json (\<lambda>j. Some datos_ej)) [] (prompt ?tl) False
              = (?g1, Inr ''no tengo datos'')"
    by (simp add: env_ej_def gpt_registro_def servicio_sin_json_def)
  have b2: "consultar_gpt (env_ej servicio_sin_json (\<lambda>j. Some datos_ej)) ?g1 (prompt_2 ?tl) False
              = (?g2, Inr ''no tengo datos'')"
    by (simp add: env_ej_def gpt_registro_def servicio_sin_json_def)
  from fallback_retry_then_fail[OF hola_det hola_rx b1, where ?g2.0 = ?g2 and ?r2.0 = "''no tengo datos''"
      and d = db_res] buscar_json_ejs(1) b2
  show "procesar_correo_a_tarea (env_ej servicio_sin_json (\<lambda>j. Some datos_ej)) ([], db_res) ''hola'' ''ACME'' None
     = ((?g2, db_res), Inl (ValueError msg_extraccion))"
    by blast
  have c1: "consultar_gpt (env_ej servicio_json_tarde v) [] (prompt ?tl) False
              = (?g1, Inr ''no tengo datos'')" for v
    by (simp add: env_ej_def gpt_registro_def servicio_json_tarde_def)
  have c2: "consultar_gpt (env_ej servicio_json_tarde v) ?g1 (prompt_2 ?tl) False
              = (?g2, Inr ''{b}'')" for v
    by (simp add: env_ej_def gpt_registro_def servicio_json_tarde_def)
  have c3: "procesar_json_response (env_ej servicio_json_tarde (\<lambda>j. None)) ''{b}'' = None"
    by (simp add: env_ej_def)
  from fallback_retry_then_fail[OF hola_det hola_rx c1, where ?g2.0 = ?g2 and ?r2.0 = "''{b}''"
      and j = "''{b}''" and d = db_res and v1 = "\<lambda>j. None"] buscar_json_ejs(1,3) c2 c3
  show "procesar_correo_a_tarea (env_ej servicio_json_tarde (\<lambda>j. None)) ([], db_res) ''hola'' ''ACME'' None
     = ((?g2, db_res), Inl (ValueError msg_extraccion))"
    by blast
  have c4: "procesar_json_response (env_ej servicio_json_tarde (\<lambda>j. Some datos_ej)) ''{b}'' = Some datos_ej"
    by (simp add: env_ej_def)
  from fallback_retry_then_fail[OF hola_det hola_rx c1, where ?g2.0 = ?g2 and ?r2.0 = "''{b}''"
      and j = "''{b}''" and datos = datos_ej and v1 = "\<lambda>j. Some datos_ej"] buscar_json_ejs(1,3) c2 c4
  show "extraer_datos (env_ej servicio_json_tarde (\<lambda>j. Some datos_ej)) [] ?tl = (?g2, Inr datos_ej)"
    by blast
qed

text \<open>
  The claim as it is written has the extractor parse the first text in braces of the
  answer. The answer \<open>Respuesta: {a} y {b}.\<close> has two; the code takes the text from the
  first \<open>{\<close> to the last \<open>}\<close>, which is \<open>{a} y {b}\<close>. With a validator that accepts
  \<open>{a}\<close> and nothing else, the pipeline fails with the extraction error after one call,
  where the first text in braces would have been accepted.
\<close>

theorem fallback_first_braces_counterexample:
  "buscar_json ''Respuesta: {a} y {b}.'' = Some ''{a} y {b}'' \<and>
   (\<lambda>j. if j = ''{a}'' then Some datos_ej else None) ''{a}'' = Some datos_ej \<and>
   procesar_correo_a_tarea (env_ej servicio_json (\<lambda>j. if j = ''{a}'' then Some datos_ej else None))
       ([], db_res) ''hola'' ''ACME'' None
     = (([(prompt (limpiar_correo ''hola''), False)], db_res), Inl (ValueError msg_extraccion))"
  by code_simp

section \<open>The fallback and the cache\<close>

lemma una_llamada:
  assumes env: "consultar_gpt env = consultar_gpt_spec servicio"
      and js: "\<forall>n p. buscar_json (servicio n p) \<noteq> None"
      and fb: "llega_al_fallback texto"
  shows "gh_llamadas (fst (fst (procesar_correo_a_tarea env (h, d) texto cli car))) = gh_llamadas h + 1"
proof -
  from fb obtain det where det: "detectar_datos_correo (limpiar_correo texto) = Inr det"
    and rx: "extraer_por_regex (limpiar_correo texto) = None"
    by (auto simp: llega_al_fallback_def split: sum.splits)
  let ?tl = "limpiar_correo texto"
  let ?h1 = "h\<lparr>gh_cache := gh_cache h, gh_llamadas := gh_llamadas h + 1\<rparr>"
  have c1: "consultar_gpt env h (prompt ?tl) False = (?h1, Inr (servicio (gh_llamadas h) (prompt ?tl)))"
    by (simp add: env consultar_gpt_spec_def Let_def)
  from js obtain j where j: "buscar_json (servicio (gh_llamadas h) (prompt ?tl)) = Some j"
    by blast
  have "fst (extraer_datos env h ?tl) = ?h1"
    by (simp add: extraer_datos_def rx consultar_y_extraer_def c1 j split: sum.splits)
  with procesar_estado_gpt[OF det, of env h d cli car] show ?thesis by simp
qed

lemma hola_fallback: "llega_al_fallback ''hola''"
  by (simp add: llega_al_fallback_def hola_det hola_rx)

text \<open>
  C8, on the handler modelled from the spec. The external service always answers with a
  text in braces. Then every mail that reaches the fallback costs exactly one call to
  the external service, whatever the cache of the handler holds: after the mails of a
  list, processed one after the other, the counter of calls has grown by the length of
  the list.
\<close>

theorem fallback_not_cached:
  assumes env: "consultar_gpt env = consultar_gpt_spec servicio"
      and js: "\<forall>n p. buscar_json (servicio n p) \<noteq> None"
      and fb: "list_all (\<lambda>correo. llega_al_fallback (fst correo)) correos"
  shows "gh_llamadas (fst (procesar_varios env (h, d) correos)) = gh_llamadas h + length correos"
  using fb
proof (induction correos arbitrary: h d)
  case Nil
  then show ?case by simp
next
  case (Cons c cs)
  obtain texto cli car where c: "c = (texto, cli, car)" by (cases c)
  obtain h' d' where st: "fst (procesar_correo_a_tarea env (h, d) texto cli car) = (h', d')"
    by (cases "fst (procesar_correo_a_tarea env (h, d) texto cli car)")
  from Cons.prems c have fb1: "llega_al_fallback texto" and fbs: "list_all (\<lambda>correo. llega_al_fallback (fst correo)) cs"
    by simp_all
  from una_llamada[OF env js fb1, of h d cli car] st have "gh_llamadas h' = gh_llamadas h + 1"
    by simp
  with Cons.IH[OF fbs, of h' d'] show ?case
    by (simp add: c st)
qed

text \<open>Three mails, the same text each time, a service that always answers \<open>{}\<close>: three calls.\<close>

theorem fallback_not_cached_witness:
  "gh_llamadas (fst (procesar_varios (env_spec (\<lambda>n p. ''{}'') (\<lambda>j. Some datos_ej))
      (\<lparr>gh_cache = [], gh_llamadas = 0\<rparr>, db_res)
      [(''hola'', ''ACME'', None), (''hola'', ''ACME'', None), (''hola'', ''ACME'', None)])) = 3"
proof -
  have e: "consultar_gpt (env_spec (\<lambda>n p. ''{}'') (\<lambda>j. Some datos_ej)) = consultar_gpt_spec (\<lambda>n p. ''{}'')"
    by (simp add: env_spec_def)
  have j: "\<forall>n p. buscar_json ((\<lambda>n p. ''{}'') n p) \<noteq> None"
    by (simp add: buscar_json_eq)
  have f: "list_all (\<lambda>correo. llega_al_fallback (fst correo))
             [(''hola'', ''ACME'', None), (''hola'', ''ACME'', None), (''hola'', ''ACME'', None)]"
    by (simp add: hola_fallback)
  from fallback_not_cached[OF e j f, of "\<lparr>gh_cache = [], gh_llamadas = 0\<rparr>" db_res]
  show ?thesis by simp
qed

section \<open>The dates\<close>

lemma parse_ej_dia_mes_anio: "parse_fecha fromiso anio ''02/01/2024 08:00'' = Some (fecha_ej 8)"
  by code_simp

lemma parse_ej_anio_mes_dia: "parse_fecha fromiso anio ''2024-01-02 08:00'' = Some (fecha_ej 8)"
  by code_simp

lemma parse_ej_espacios:
  "parse_fecha fromiso anio (''02/01/2024'' @ [CHR 0xA0] @ ''08:00'') = Some (fecha_ej 8)"
  "parse_fecha fromiso anio ([CHR 0x85] @ ''2024-01-02T08:00'' @ [CHR 0xA0]) = Some (fecha_ej 8)"
  by code_simp+

lemma existe_formato_Cons:
  assumes "\<exists>fmt dt0. fmt \<in> set fs \<and> Q fmt dt0"
  shows "\<exists>fmt dt0. fmt \<in> set (f # fs) \<and> Q fmt dt0"
proof -
  from assms obtain fmt dt0 where "fmt \<in> set fs" "Q fmt dt0" by blast
  then have "fmt \<in> set (f # fs) \<and> Q fmt dt0" by simp
  then show ?thesis by blast
qed

lemma existe_formato_aqui:
  assumes "Q f dt0"
  shows "\<exists>fmt dt0. fmt \<in> set (f # fs) \<and> Q fmt dt0"
proof -
  from assms have "f \<in> set (f # fs) \<and> Q f dt0" by simp
  then show ?thesis by blast
qed

lemma probar_formatos_Some:
  "probar_formatos anio fs v = Some dt \<Longrightarrow>
     \<exists>fmt dt0. fmt \<in> set fs \<and> (strptime v fmt = Some dt0 \<and>
       dt = (if contains fmt ''%Y'' then dt0 else dt0\<lparr>dt_year := anio\<rparr>))"
proof (induction fs)
  case Nil
  then show ?case by simp
next
  case (Cons fmt fs)
  show ?case
  proof (cases "strptime v fmt")
    case None
    with Cons.prems have "probar_formatos anio fs v = Some dt" by simp
    from existe_formato_Cons[OF Cons.IH[OF this]] show ?thesis .
  next
    case (Some dt0)
    show ?thesis
    proof (cases "contains fmt ''%Y''")
      case True
      with Some Cons.prems have "dt = dt0" by simp
      with Some True
      have "strptime v fmt = Some dt0 \<and>
              dt = (if contains fmt ''%Y'' then dt0 else dt0\<lparr>dt_year := anio\<rparr>)" by simp
      then show ?thesis by (rule existe_formato_aqui)
    next
      case False
      show ?thesis
      proof (cases "fecha_valida (dt0\<lparr>dt_year := anio\<rparr>)")
        case True
        with Some False Cons.prems have "dt = dt0\<lparr>dt_year := anio\<rparr>" by (simp add: Let_def)
        with Some False
        have "strptime v fmt = Some dt0 \<and>
                dt = (if contains fmt ''%Y'' then dt0 else dt0\<lparr>dt_year := anio\<rparr>)" by simp
        then show ?thesis by (rule existe_formato_aqui)
      next
        case nv: False
        with Some False Cons.prems have "probar_formatos anio fs v = Some dt" by (simp add: Let_def)
        from existe_formato_Cons[OF Cons.IH[OF this]] show ?thesis .
      qed
    qed
  qed
qed

lemma sin_anio_strptime:
  "strptime ''02/01 08:00'' ''%Y-%m-%d %H:%M'' = None"
  "strptime ''02/01 08:00'' ''%Y-%m-%d %H:%M:%S'' = None"
  "strptime ''02/01 08:00'' ''%d/%m/%Y %H:%M'' = None"
  "strptime ''02/01 08:00'' ''%d/%m/%Y %H:%M:%S'' = None"
  "strptime ''02/01 08:00'' ''%d/%m %H:%M'' = Some ((fecha_ej 8)\<lparr>dt_year := 1900\<rparr>)"
  "strip (replace_char CHR ''T'' CHR '' '' ''02/01 08:00'') = ''02/01 08:00''"
  "contains ''%d/%m %H:%M'' ''%Y'' = False"
  by code_simp+

lemma parse_sin_anio:
  assumes "1 \<le> anio" "anio \<le> 9999"
  shows "parse_fecha fromiso anio ''02/01 08:00'' = Some ((fecha_ej 8)\<lparr>dt_year := anio\<rparr>)"
proof -
  have v: "fecha_valida ((fecha_ej 8)\<lparr>dt_year := anio\<rparr>)"
    using assms by (simp add: fecha_valida_def fecha_ej_def days_in_month_def)
  show ?thesis
    using v by (simp add: parse_fecha_def formatos_def sin_anio_strptime Let_def)
qed

lemma parse_fecha_None:
  "parse_fecha fromiso anio v = None \<longleftrightarrow>
     probar_formatos anio formatos (strip (replace_char CHR ''T'' CHR '' '' v)) = None \<and>
     fromiso (strip (replace_char CHR ''T'' CHR '' '' v)) = None"
  by (simp add: parse_fecha_def Let_def split: option.splits)

lemma procesar_falla_fechas:
  assumes "detectar_datos_correo (limpiar_correo texto) = Inr det"
      and "extraer_datos env g (limpiar_correo texto) = (g', Inr datos)"
      and "leer_fechas env datos = Inl e"
  shows "procesar_correo_a_tarea env (g, d) texto cli car = ((g', d), Inl e)"
  using assms by (simp add: procesar_correo_a_tarea_def Let_def)

lemma lex_less_irrefl: "\<not> lex_less xs xs"
  by (induction xs) simp_all

lemma dt_ge_refl: "dt_ge a a = Inr True"
  by (cases "dt_utcoffset a") (simp_all add: dt_ge_def lex_less_irrefl)

lemma dt_ge_naive:
  "dt_utcoffset a = None \<Longrightarrow> dt_utcoffset b = None \<Longrightarrow>
   dt_ge a b = Inr (\<not> lex_less (dt_campos a) (dt_campos b))"
  by (simp add: dt_ge_def)

lemma correo_mal_hechos:
  "detectar_datos_correo (limpiar_correo correo_mal) =
     Inr \<lparr>det_carrier = None, det_id_interno = None,
          det_ids = [''02'', ''01'', ''2024'', ''10'', ''00'', ''762080''],
          det_tipo = ''Programada''\<rparr>"
  "extraer_por_regex (limpiar_correo correo_mal) =
     Some \<lparr>d_inicio = ''pronto'', d_fin = ''02/01/2024 10:00'', d_tipo = ''Mantenimiento'',
           d_afectacion = None, d_descripcion = None, d_ids = [''762080'']\<rparr>"
  "parse_fecha (\<lambda>_. None) 2026 ''pronto'' = None"
  by code_simp+

lemma correo_rango_hechos:
  "detectar_datos_correo (limpiar_correo correo_rango) =
     Inr \<lparr>det_carrier = None, det_id_interno = None,
          det_ids = [''02'', ''01'', ''2024'', ''10'', ''00'', ''2024'', ''01'', ''02'', ''08'',
                     ''00'', ''762080''],
          det_tipo = ''Programada''\<rparr>"
  "extraer_por_regex (limpiar_correo correo_rango) =
     Some \<lparr>d_inicio = ''02/01/2024 10:00'', d_fin = ''2024-01-02 08:00'', d_tipo = ''Mantenimiento'',
           d_afectacion = None, d_descripcion = None, d_ids = [''762080'']\<rparr>"
  "parse_fecha (\<lambda>_. None) 2026 ''02/01/2024 10:00'' = Some (fecha_ej 10)"
  "dt_ge (fecha_ej 10) (fecha_ej 8) = Inr True"
  by code_simp+

text \<open>
  C7. The mail passes the sniffer and the extraction gives the record \<open>datos\<close>.
  \<^item> \<open>02/01/2024 08:00\<close> and \<open>2024-01-02 08:00\<close> both parse to 2 January 2024, 08:00,
    whatever the current year and \<open>fromisoformat\<close> are.
  \<^item> A value a literal format reads is what \<open>strptime\<close> gives for one of the six
    formats, with the current year in place of the year when the format has no \<open>%Y\<close>;
    so \<open>02/01 08:00\<close> parses to 2 January of the current year, 08:00.
  \<^item> The parser fails exactly when no literal format reads the value (with \<open>T\<close> replaced
    by a space, stripped) and \<open>fromisoformat\<close> fails on it. When the start or the end
    fails to parse, the pipeline fails with the error of the invalid date format and
    leaves the store as it was.
  \<^item> When both parse and \<open>inicio >= fin\<close> holds, the pipeline fails with the error of the
    invalid date range and leaves the store as it was. For two naive values, which is
    what every literal format gives, \<open>inicio >= fin\<close> says that the fields of the start
    do not come before the fields of the end. (Python does not order a naive value
    and an aware one: there line 555 raises \<open>TypeError\<close>, also before any write.)
    A value is never before itself: equal start and end are an invalid range.
  \<^item> The white space of a value, around it and between the date and the time, is
    Python's: a no-break space separates date and time as a space does, and the control
    NEL and the no-break space are stripped.
\<close>

theorem dates_parsed_and_ordered:
  assumes det: "detectar_datos_correo (limpiar_correo texto) = Inr det"
      and ext: "extraer_datos env g (limpiar_correo texto) = (g', Inr datos)"
  shows "parse_fecha fromiso anio ''02/01/2024 08:00'' = Some (fecha_ej 8) \<and>
         parse_fecha fromiso anio ''2024-01-02 08:00'' = Some (fecha_ej 8) \<and>
         (probar_formatos anio formatos v = Some dt \<longrightarrow>
            (\<exists>fmt dt0. fmt \<in> set formatos \<and> strptime v fmt = Some dt0 \<and>
               dt = (if contains fmt ''%Y'' then dt0 else dt0\<lparr>dt_year := anio\<rparr>))) \<and>
         (1 \<le> anio \<and> anio \<le> 9999 \<longrightarrow>
            parse_fecha fromiso anio ''02/01 08:00'' = Some ((fecha_ej 8)\<lparr>dt_year := anio\<rparr>)) \<and>
         (parse_fecha fromiso anio v = None \<longleftrightarrow>
            probar_formatos anio formatos (strip (replace_char CHR ''T'' CHR '' '' v)) = None \<and>
            fromiso (strip (replace_char CHR ''T'' CHR '' '' v)) = None) \<and>
         (parse_fecha (fromisoformat env) (anio_actual env) (d_inicio datos) = None \<or>
          parse_fecha (fromisoformat env) (anio_actual env) (d_fin datos) = None \<longrightarrow>
            procesar_correo_a_tarea env (g, d) texto cliente_nombre carrier_nombre
              = ((g', d), Inl (ValueError msg_fechas))) \<and>
         (parse_fecha (fromisoformat env) (anio_actual env) (d_inicio datos) = Some inicio \<and>
          parse_fecha (fromisoformat env) (anio_actual env) (d_fin datos) = Some fin \<and>
          dt_ge inicio fin = Inr True \<longrightarrow>
            procesar_correo_a_tarea env (g, d) texto cliente_nombre carrier_nombre
              = ((g', d), Inl (ValueError msg_rango))) \<and>
         (dt_utcoffset inicio = None \<and> dt_utcoffset fin = None \<longrightarrow>
            dt_ge inicio fin = Inr (\<not> lex_less (dt_campos inicio) (dt_campos fin))) \<and>
         dt_ge inicio inicio = Inr True \<and>
         parse_fecha fromiso anio (''02/01/2024'' @ [CHR 0xA0] @ ''08:00'') = Some (fecha_ej 8) \<and>
         parse_fecha fromiso anio ([CHR 0x85] @ ''2024-01-02T08:00'' @ [CHR 0xA0]) = Some (fecha_ej 8)"
proof (intro conjI impI)
  let ?P = "procesar_correo_a_tarea env (g, d) texto cliente_nombre carrier_nombre"
  show "parse_fecha fromiso anio ''02/01/2024 08:00'' = Some (fecha_ej 8)"
    by (rule parse_ej_dia_mes_anio)
  show "parse_fecha fromiso anio ''2024-01-02 08:00'' = Some (fecha_ej 8)"
    by (rule parse_ej_anio_mes_dia)
  show "\<exists>fmt dt0. fmt \<in> set formatos \<and> strptime v fmt = Some dt0 \<and>
               dt = (if contains fmt ''%Y'' then dt0 else dt0\<lparr>dt_year := anio\<rparr>)"
    if "probar_formatos anio formatos v = Some dt"
    using that by (rule probar_formatos_Some)
  show "parse_fecha fromiso anio ''02/01 08:00'' = Some ((fecha_ej 8)\<lparr>dt_year := anio\<rparr>)"
    if "1 \<le> anio \<and> anio \<le> 9999"
    using that by (simp add: parse_sin_anio)
  show "parse_fecha fromiso anio v = None \<longleftrightarrow>
            probar_formatos anio formatos (strip (replace_char CHR ''T'' CHR '' '' v)) = None \<and>
            fromiso (strip (replace_char CHR ''T'' CHR '' '' v)) = None"
    by (rule parse_fecha_None)
  show "?P = ((g', d), Inl (ValueError msg_fechas))"
    if "parse_fecha (fromisoformat env) (anio_actual env) (d_inicio datos) = None \<or>
          parse_fecha (fromisoformat env) (anio_actual env) (d_fin datos) = None"
  proof -
    from that have "leer_fechas env datos = Inl (ValueError msg_fechas)"
      by (auto simp: leer_fechas_def split: option.splits)
    from procesar_falla_fechas[OF det ext this] show ?thesis .
  qed
  show "?P = ((g', d), Inl (ValueError msg_rango))"
    if "parse_fecha (fromisoformat env) (anio_actual env) (d_inicio datos) = Some inicio \<and>
          parse_fecha (fromisoformat env) (anio_actual env) (d_fin datos) = Some fin \<and>
          dt_ge inicio fin = Inr True"
  proof -
    from that have "leer_fechas env datos = Inl (ValueError msg_rango)"
      by (simp add: leer_fechas_def)
    from procesar_falla_fechas[OF det ext this] show ?thesis .
  qed
  show "dt_ge inicio fin = Inr (\<not> lex_less (dt_campos inicio) (dt_campos fin))"
    if "dt_utcoffset inicio = None \<and> dt_utcoffset fin = None"
    using that by (simp add: dt_ge_naive)
  show "dt_ge inicio inicio = Inr True"
    by (rule dt_ge_refl)
  show "parse_fecha fromiso anio (''02/01/2024'' @ [CHR 0xA0] @ ''08:00'') = Some (fecha_ej 8)"
    by (rule parse_ej_espacios(1))
  show "parse_fecha fromiso anio ([CHR 0x85] @ ''2024-01-02T08:00'' @ [CHR 0xA0]) = Some (fecha_ej 8)"
    by (rule parse_ej_espacios(2))
qed

text \<open>
  The current year 2026; a mail whose start is "pronto"; a mail whose start, 10:00, is
  after its end, 08:00 of the same day.
\<close>

theorem dates_parsed_and_ordered_witness:
  "parse_fecha (\<lambda>_. None) 2026 ''02/01 08:00'' = Some ((fecha_ej 8)\<lparr>dt_year := 2026\<rparr>) \<and>
   procesar_correo_a_tarea (env_ej servicio_json (\<lambda>j. None)) ([], db_res) correo_mal ''ACME'' None
     = (([], db_res), Inl (ValueError msg_fechas)) \<and>
   procesar_correo_a_tarea (env_ej servicio_json (\<lambda>j. None)) ([], db_res) correo_rango ''ACME'' None
     = (([], db_res), Inl (ValueError msg_rango))"
proof (intro conjI)
  let ?env = "env_ej servicio_json (\<lambda>j. None)"
  have e: "fromisoformat ?env = (\<lambda>_. None)" "anio_actual ?env = 2026"
    by (simp_all add: env_ej_def)
  note m = extraer_datos_regex[OF correo_mal_hechos(2), of ?env "[]"]
  note r = extraer_datos_regex[OF correo_rango_hechos(2), of ?env "[]"]
  note T1 = dates_parsed_and_ordered[OF correo_mal_hechos(1) m]
  note T2 = dates_parsed_and_ordered[OF correo_rango_hechos(1) r]
  show "parse_fecha (\<lambda>_. None) 2026 ''02/01 08:00'' = Some ((fecha_ej 8)\<lparr>dt_year := 2026\<rparr>)"
    using T1[where anio = 2026 and fromiso = "\<lambda>_. None"] by simp
  show "procesar_correo_a_tarea ?env ([], db_res) correo_mal ''ACME'' None
     = (([], db_res), Inl (ValueError msg_fechas))"
    using T1[where d = db_res and cliente_nombre = "''ACME''" and carrier_nombre = None]
      correo_mal_hechos(3)
    by (simp add: e)
  show "procesar_correo_a_tarea ?env ([], db_res) correo_rango ''ACME'' None
     = (([], db_res), Inl (ValueError msg_rango))"
    using T2[where d = db_res and cliente_nombre = "''ACME''" and carrier_nombre = None
        and inicio = "fecha_ej 10" and fin = "fecha_ej 8"]
      correo_rango_hechos(3,4) parse_ej_anio_mes_dia[of "\<lambda>_. None" 2026]
    by (simp add: e)
qed

section \<open>The text normalizer\<close>

subsection \<open>The pattern of the notices\<close>

lemma lang_Seq_Eps: "lang fl (Seq r Eps) = lang fl r"
  by simp

lemma lang_seq5:
  "w \<in> lang fl (Seq a (Seq b (Seq c (Seq d (Seq e Eps))))) \<longleftrightarrow>
     (\<exists>u1 u2 u3 u4 u5. w = u1 @ u2 @ u3 @ u4 @ u5 \<and> u1 \<in> lang fl a \<and> u2 \<in> lang fl b \<and>
        u3 \<in> lang fl c \<and> u4 \<in> lang fl d \<and> u5 \<in> lang fl e)"
  by simp blast

lemma limpiar_lineas_eq:
  "limpiar_lineas ls = takeWhile (\<lambda>l. \<not> es_aviso l) (filter (\<lambda>l. l \<noteq> []) (map strip ls))"
  by (induction ls) (simp_all add: Let_def)

lemma sin_bnd_aviso: "sin_bnd patron_aviso"
  by code_simp

lemma lang_aviso:
  "w \<in> lang flag_I patron_aviso \<longleftrightarrow>
     lower w = ''disclaimer'' \<or> lower w = ''confidencial'' \<or> lower w = ''aviso legal'' \<or>
     lower w = ''confidentiality notice'' \<or>
     (\<exists>c e sp s pv. w = c @ e @ sp @ s @ pv \<and> lower c = ''correo'' \<and>
        (e = [] \<or> (\<exists>ws x. e = ws @ x \<and> ws \<noteq> [] \<and> list_all is_space ws \<and> lower x = ''electronico'')) \<and>
        list_all is_space sp \<and>
        (s = [] \<or> (\<exists>x ws. s = x @ ws \<and> lower x = ''es'' \<and> ws \<noteq> [] \<and> list_all is_space ws)) \<and>
        lower pv = ''privado'')"
proof -
  have e: "lang flag_I (Opt (Seq (Plus (One [Spc])) (Seq (lit ''electronico'') Eps)))
             = {e. e = [] \<or> (\<exists>ws x. e = ws @ x \<and> ws \<noteq> [] \<and> list_all is_space ws \<and> lower x = ''electronico'')}"
    by (auto simp: seqs_def lang_lits atom_ok_I_Spc)
  have s: "lang flag_I (Opt (Seq (lit ''es'') (Seq (Plus (One [Spc])) Eps)))
             = {s. s = [] \<or> (\<exists>x ws. s = x @ ws \<and> lower x = ''es'' \<and> ws \<noteq> [] \<and> list_all is_space ws)}"
    by (auto simp: seqs_def lang_lits atom_ok_I_Spc)
  have sp: "lang flag_I (Star (One [Spc])) = {sp. list_all is_space sp}"
    by (simp add: atom_ok_I_Spc)
  have 5: "w \<in> lang flag_I (seqs [lit ''correo'', Opt (seqs [Plus (One [Spc]), lit ''electronico'']),
                 Star (One [Spc]), Opt (seqs [lit ''es'', Plus (One [Spc])]), lit ''privado'']) \<longleftrightarrow>
     (\<exists>c e sp s pv. w = c @ e @ sp @ s @ pv \<and> lower c = ''correo'' \<and>
        (e = [] \<or> (\<exists>ws x. e = ws @ x \<and> ws \<noteq> [] \<and> list_all is_space ws \<and> lower x = ''electronico'')) \<and>
        list_all is_space sp \<and>
        (s = [] \<or> (\<exists>x ws. s = x @ ws \<and> lower x = ''es'' \<and> ws \<noteq> [] \<and> list_all is_space ws)) \<and>
        lower pv = ''privado'')"
    unfolding seqs_def foldr.simps comp_def id_def lang_seq5 e s sp lang_lits mem_Collect_eq ..
  show ?thesis
    unfolding patron_aviso_def alts.simps lang.simps(6) Un_iff 5 lang_lits by simp
qed

lemma es_aviso_iff:
  "es_aviso l \<longleftrightarrow> (\<exists>pre w post. l = pre @ w @ post \<and> w \<in> lang flag_I patron_aviso)"
  unfolding es_aviso_def by (rule search_lang[OF sin_bnd_aviso])

lemma limpiar_correo_ej:
  "limpiar_correo (''  Hola '' @ [CHR 0x0A, CHR 0x0A] @ ''Saludos'' @ [CHR 0x0A] @
                   ''Aviso  CONFIDENCIAL'' @ [CHR 0x0A] @ ''pie'')
     = ''Hola'' @ [CHR 0x0A] @ ''Saludos''"
  by code_simp

text \<open>
  Claim C10.  For every text, \<open>_limpiar_correo\<close> returns a string (it has no error branch):
  the lines of the text, each stripped, without the empty ones, up to and excluding the
  first one in which the pattern is found, joined by line feeds; the empty text gives the
  empty string.  The pattern is found in a line exactly when the line has a substring that,
  lowered, is \<open>disclaimer\<close>, \<open>confidencial\<close>, \<open>aviso legal\<close> or
  \<open>confidentiality notice\<close>, or that reads \<open>correo\<close>, optionally white space and
  \<open>electronico\<close>, any white space, optionally \<open>es\<close> and white space, and
  \<open>privado\<close>, in any case of the letters.  The lines are those of \<open>str.splitlines\<close>;
  white space, here and in \<open>str.strip\<close>, is the twelve characters Python takes for it
  below 256, listed in the theorem.  Four texts follow: blank lines and a notice in
  capitals; no-break spaces around a word; lines ended by the control NEL and by a
  carriage return with a line feed; a notice written with a no-break space.
\<close>

theorem limpiar_correo_contract:
  "limpiar_correo texto =
     join [CHR 0x0A] (takeWhile (\<lambda>l. \<not> es_aviso l)
                        (filter (\<lambda>l. l \<noteq> []) (map strip (splitlines texto))))
   \<and> limpiar_correo [] = []
   \<and> (es_aviso l \<longleftrightarrow>
        (\<exists>pre w post. l = pre @ w @ post \<and>
           (lower w = ''disclaimer'' \<or> lower w = ''confidencial'' \<or> lower w = ''aviso legal'' \<or>
            lower w = ''confidentiality notice'' \<or>
            (\<exists>c e sp s pv. w = c @ e @ sp @ s @ pv \<and> lower c = ''correo'' \<and>
               (e = [] \<or> (\<exists>ws x. e = ws @ x \<and> ws \<noteq> [] \<and> list_all is_space ws \<and>
                                   lower x = ''electronico'')) \<and>
               list_all is_space sp \<and>
               (s = [] \<or> (\<exists>x ws. s = x @ ws \<and> lower x = ''es'' \<and> ws \<noteq> [] \<and>
                                   list_all is_space ws)) \<and>
               lower pv = ''privado'')))) \<and>
   (is_space x \<longleftrightarrow> x \<in> set [CHR 0x09, CHR 0x0A, CHR 0x0B, CHR 0x0C, CHR 0x0D, CHR 0x1C, CHR 0x1D,
                                CHR 0x1E, CHR 0x1F, CHR 0x20, CHR 0x85, CHR 0xA0]) \<and>
   limpiar_correo (''  Hola '' @ [CHR 0x0A, CHR 0x0A] @ ''Saludos'' @ [CHR 0x0A] @
                   ''Aviso  CONFIDENCIAL'' @ [CHR 0x0A] @ ''pie'')
     = ''Hola'' @ [CHR 0x0A] @ ''Saludos'' \<and>
   limpiar_correo ([CHR 0xA0] @ ''Hola'' @ [CHR 0xA0]) = ''Hola'' \<and>
   limpiar_correo (''uno'' @ [CHR 0x85] @ ''dos'' @ [CHR 0x0D, CHR 0x0A] @ ''tres'')
     = ''uno'' @ [CHR 0x0A] @ ''dos'' @ [CHR 0x0A] @ ''tres'' \<and>
   limpiar_correo (''Hola'' @ [CHR 0x0A] @ ''Este correo'' @ [CHR 0xA0] @ ''es privado'' @
                   [CHR 0x0A] @ ''pie'') = ''Hola''"
proof (intro conjI)
  show "limpiar_correo texto =
     join [CHR 0x0A] (takeWhile (\<lambda>l. \<not> es_aviso l)
                        (filter (\<lambda>l. l \<noteq> []) (map strip (splitlines texto))))"
    unfolding limpiar_correo_def limpiar_lineas_eq ..
  show "limpiar_correo [] = []"
    by code_simp
  show "es_aviso l \<longleftrightarrow>
        (\<exists>pre w post. l = pre @ w @ post \<and>
           (lower w = ''disclaimer'' \<or> lower w = ''confidencial'' \<or> lower w = ''aviso legal'' \<or>
            lower w = ''confidentiality notice'' \<or>
            (\<exists>c e sp s pv. w = c @ e @ sp @ s @ pv \<and> lower c = ''correo'' \<and>
               (e = [] \<or> (\<exists>ws x. e = ws @ x \<and> ws \<noteq> [] \<and> list_all is_space ws \<and>
                                   lower x = ''electronico'')) \<and>
               list_all is_space sp \<and>
               (s = [] \<or> (\<exists>x ws. s = x @ ws \<and> lower x = ''es'' \<and> ws \<noteq> [] \<and>
                                   list_all is_space ws)) \<and>
               lower pv = ''privado'')))"
    unfolding es_aviso_iff lang_aviso ..
  show "is_space x \<longleftrightarrow> x \<in> set [CHR 0x09, CHR 0x0A, CHR 0x0B, CHR 0x0C, CHR 0x0D, CHR 0x1C, CHR 0x1D,
                                CHR 0x1E, CHR 0x1F, CHR 0x20, CHR 0x85, CHR 0xA0]"
    by (rule is_space_iff)
  show "limpiar_correo (''  Hola '' @ [CHR 0x0A, CHR 0x0A] @ ''Saludos'' @ [CHR 0x0A] @
                   ''Aviso  CONFIDENCIAL'' @ [CHR 0x0A] @ ''pie'')
     = ''Hola'' @ [CHR 0x0A] @ ''Saludos''"
    by code_simp
  show "limpiar_correo ([CHR 0xA0] @ ''Hola'' @ [CHR 0xA0]) = ''Hola''"
    by code_simp
  show "limpiar_correo (''uno'' @ [CHR 0x85] @ ''dos'' @ [CHR 0x0D, CHR 0x0A] @ ''tres'')
     = ''uno'' @ [CHR 0x0A] @ ''dos'' @ [CHR 0x0A] @ ''tres''"
    by code_simp
  show "limpiar_correo (''Hola'' @ [CHR 0x0A] @ ''Este correo'' @ [CHR 0xA0] @ ''es privado'' @
                   [CHR 0x0A] @ ''pie'') = ''Hola''"
    by code_simp
qed

text \<open>
  A line that contains the English word \<open>confidential\<close> and none of the phrases of the
  pattern is kept, with the lines after it.
\<close>

theorem limpiar_correo_confidential_counterexample:
  "lower ''confidential'' = ''confidential''
   \<and> \<not> es_aviso (''This is '' @ ''confidential'')
   \<and> limpiar_correo (''Hola'' @ [CHR 0x0A] @ ''This is '' @ ''confidential'' @ [CHR 0x0A] @ ''Adios'')
       = ''Hola'' @ [CHR 0x0A] @ ''This is '' @ ''confidential'' @ [CHR 0x0A] @ ''Adios''"
  by code_simp

end
